(* ===== verification/Prelude.thy ===== *)
theory Prelude
  imports Main "HOL-Library.List_Lexorder" "HOL-Library.Char_ord" "HOL-Library.Product_Lexorder"
begin

text \<open>
  Shared vocabulary of the development.
  \<^item> The named collections \<open>calendar_simps\<close>, \<open>format_simps\<close> and \<open>http_simps\<close>
    gather the evaluation equations of the components, so that a concrete request
    evaluates with \<open>simp add: http_simps\<close>.
  \<^item> C integer division: the C code that \<^verbatim>\<open>datetime.now()\<close> runs (CPython's
    \<^verbatim>\<open>_datetime\<close> module and glibc's \<^verbatim>\<open>__offtime\<close>) uses \<^verbatim>\<open>/\<close> and
    \<^verbatim>\<open>%\<close>, which truncate towards zero, unlike HOL's \<open>div\<close> and \<open>mod\<close>.
  \<^item> The Python exceptions that the handlers of \<^verbatim>\<open>src/app.py\<close> can raise, as one datatype,
    so that every raise is an \<open>Inl\<close> branch of a result of type \<open>py_exc + 'a\<close>.
  \<^item> Decimal digits, Python's \<^verbatim>\<open>str.join\<close>, and the lexicographic order of strings
    (Python compares \<^verbatim>\<open>str\<close> by code points, as \<open>List_Lexorder\<close> does) under a
    common prefix or after prefixes of equal length.
\<close>

named_theorems calendar_simps "evaluation equations of the calendar conversion"
named_theorems format_simps "evaluation equations of the string formatting"
named_theorems http_simps "evaluation equations of the request handling"

subsection \<open>Python exceptions\<close>

datatype py_exc =
    OverflowError string
  | OSError string
  | ValueError string
  | TemplateNotFound string

type_synonym 'a py_result = "py_exc + 'a"

subsection \<open>C division\<close>

definition c_div :: "int \<Rightarrow> int \<Rightarrow> int" where
  "c_div a b = sgn a * sgn b * (\<bar>a\<bar> div \<bar>b\<bar>)"

definition c_mod :: "int \<Rightarrow> int \<Rightarrow> int" where
  "c_mod a b = a - b * c_div a b"

lemma c_div_pos [simp]: "0 \<le> a \<Longrightarrow> 0 < b \<Longrightarrow> c_div a b = a div b"
  by (auto simp: c_div_def sgn_if)

lemma c_mod_pos [simp]: "0 \<le> a \<Longrightarrow> 0 < b \<Longrightarrow> c_mod a b = a mod b"
  by (simp add: c_mod_def minus_div_mult_eq_mod [symmetric] algebra_simps)

lemma c_div_neg: "a < 0 \<Longrightarrow> 0 < b \<Longrightarrow> c_div a b = - ((- a) div b)"
  by (auto simp: c_div_def sgn_if)

lemma c_mod_neg: "a < 0 \<Longrightarrow> 0 < b \<Longrightarrow> c_mod a b = - ((- a) mod b)"
proof -
  assume a: "a < 0" and b: "0 < b"
  have h: "- a = b * ((- a) div b) + (- a) mod b" by simp
  have "c_mod a b = a + b * ((- a) div b)" using a b by (simp add: c_mod_def c_div_neg)
  with h show ?thesis by linarith
qed

text \<open>
  The idiom \<^verbatim>\<open>a / b - (a % b < 0)\<close> of glibc (its \<^verbatim>\<open>DIV\<close> macro and the year
  guess of \<^verbatim>\<open>__offtime\<close>) is floor division.
\<close>

lemma c_floor_div [calendar_simps]:
  assumes "0 < b"
  shows "c_div a b - (if c_mod a b < 0 then 1 else 0) = a div b"
proof (cases "0 \<le> a")
  case True
  with assms show ?thesis by (simp add: not_less)
next
  case False
  then have a: "a < 0" by simp
  have q: "a div b = (if (- a) mod b = 0 then - ((- a) div b) else - ((- a) div b) - 1)"
    using zdiv_zminus1_eq_if [of b "- a"] assms by simp
  show ?thesis
  proof (cases "(- a) mod b = 0")
    case True
    with a assms q show ?thesis by (simp add: c_div_neg c_mod_neg)
  next
    case False
    have "0 \<le> (- a) mod b" using assms by simp
    with False have "0 < (- a) mod b" by simp
    with a assms q show ?thesis by (simp add: c_div_neg c_mod_neg)
  qed
qed

lemma c_div_mod_eq: "b * c_div a b + c_mod a b = a"
  by (simp add: c_mod_def)

lemma c_mod_bounds: "0 < b \<Longrightarrow> - b < c_mod a b \<and> c_mod a b < b"
proof -
  assume b: "0 < b"
  show ?thesis
  proof (cases "0 \<le> a")
    case True
    have "0 \<le> a mod b" "a mod b < b" using b by simp_all
    with True b show ?thesis by simp
  next
    case False
    have "0 \<le> (- a) mod b" "(- a) mod b < b" using b by simp_all
    with False b show ?thesis by (simp add: c_mod_neg)
  qed
qed

lemma c_mod_eq_0_iff: "0 < b \<Longrightarrow> c_mod a b = 0 \<longleftrightarrow> b dvd a"
  by (cases "0 \<le> a") (auto simp: c_mod_neg dvd_eq_mod_eq_0 [symmetric])

lemma c_mod_wrap: "0 < b \<Longrightarrow> (if c_mod a b < 0 then c_mod a b + b else c_mod a b) = a mod b"
proof -
  assume b: "0 < b"
  have f: "c_div a b = a div b + (if c_mod a b < 0 then 1 else 0)"
    using c_floor_div [OF b, of a] by linarith
  have e: "b * c_div a b + c_mod a b = a" by (rule c_div_mod_eq)
  have m: "b * (a div b) + a mod b = a" by (rule mult_div_mod_eq)
  show ?thesis
  proof (cases "c_mod a b < 0")
    case True
    with f have "b * c_div a b = b * (a div b) + b" by (simp add: distrib_left)
    with e m have "c_mod a b + b = a mod b" by linarith
    with True show ?thesis by simp
  next
    case False
    with f have "b * c_div a b = b * (a div b)" by simp
    with e m have "c_mod a b = a mod b" by linarith
    with False show ?thesis by simp
  qed
qed

lemma abs_div_le:
  fixes x N b :: int
  assumes "\<bar>x\<bar> \<le> N" "0 < b"
  shows "\<bar>x div b\<bar> \<le> N div b + 1"
proof -
  have "x div b \<le> N div b" using assms by (intro zdiv_mono1) simp_all
  moreover have "(- N) div b \<le> x div b" using assms by (intro zdiv_mono1) simp_all
  moreover have "- (N div b) - 1 \<le> (- N) div b"
    using zdiv_zminus1_eq_if [of b N] assms by (simp split: if_splits)
  ultimately show ?thesis by linarith
qed

subsection \<open>Decimal numbers\<close>

definition digit_char :: "nat \<Rightarrow> char" where
  "digit_char d = char_of (48 + d)"

text \<open>\<^verbatim>\<open>"%d"\<close> of a non-negative number.\<close>

fun show_nat :: "nat \<Rightarrow> string" where
  "show_nat n = (if n < 10 then [digit_char n] else show_nat (n div 10) @ [digit_char (n mod 10)])"

declare show_nat.simps [simp del]

subsection \<open>Lists\<close>

text \<open>Python's \<^verbatim>\<open>sep.join(parts)\<close>.\<close>

fun py_join :: "string \<Rightarrow> string list \<Rightarrow> string" where
  "py_join sep [] = []"
| "py_join sep [x] = x"
| "py_join sep (x # y # xs) = x @ sep @ py_join sep (y # xs)"

lemma append_eq_append_same_length:
  "length xs = length ys \<Longrightarrow> (xs @ us = ys @ vs) \<longleftrightarrow> xs = ys \<and> us = vs"
  by simp

lemma append_less_same_length:
  "length xs = length ys \<Longrightarrow> (xs @ us < ys @ vs) \<longleftrightarrow> xs < ys \<or> xs = ys \<and> us < vs"
  by (induction xs ys rule: list_induct2) auto

text \<open>A number compares as its quotient and remainder by \<open>q\<close>, in that order.\<close>

lemma nat_less_split:
  fixes a b q :: nat
  assumes "0 < q"
  shows "a < b \<longleftrightarrow> a div q < b div q \<or> a div q = b div q \<and> a mod q < b mod q"
proof -
  have a: "a = a div q * q + a mod q" and b: "b = b div q * q + b mod q" by simp_all
  have "a mod q < q" "b mod q < q" using assms by simp_all
  show ?thesis
  proof (cases "a div q = b div q")
    case True
    define c where "c = a div q"
    have "a = c * q + a mod q" "b = c * q + b mod q" using a b True by (simp_all add: c_def)
    moreover have "a div q < b div q \<longleftrightarrow> False" using True by simp
    ultimately show ?thesis using True by linarith
  next
    case False
    have "a < b \<longleftrightarrow> a div q < b div q"
    proof
      assume "a < b"
      then have "a div q \<le> b div q" by (simp add: div_le_mono)
      with False show "a div q < b div q" by simp
    next
      assume l: "a div q < b div q"
      show "a < b"
      proof (rule ccontr)
        assume "\<not> a < b"
        then have "b div q \<le> a div q" by (simp add: div_le_mono)
        with l show False by simp
      qed
    qed
    with False show ?thesis by simp
  qed
qed

lemma append_less_same_prefix:
  fixes xs us vs :: "'a::order list"
  shows "xs @ us < xs @ vs \<longleftrightarrow> us < vs"
  by (induction xs) simp_all

lemma append_le_same_prefix:
  fixes xs us vs :: "'a::order list"
  shows "xs @ us \<le> xs @ vs \<longleftrightarrow> us \<le> vs"
  by (induction xs) simp_all

end
