(* ===== verification/Calendar.thy ===== *)
theory Calendar
  imports Prelude
begin

text \<open>
  The conversion of a count of seconds into broken-down calendar fields that
  \<^verbatim>\<open>datetime.now()\<close> (src/app.py, line 12) performs: CPython calls
  \<^verbatim>\<open>localtime_r\<close>, and glibc's \<^verbatim>\<open>localtime_r\<close> finds the zone's UTC offset and
  calls \<^verbatim>\<open>__offtime (t, offset, tp)\<close> (glibc time/offtime.c). This theory models
  \<^verbatim>\<open>__offtime\<close> statement by statement: the truncating C divisions, the two loops that
  bring the second-of-day into range, the year-guessing loop, the month search in the
  table \<^verbatim>\<open>__mon_yday\<close> and the \<^verbatim>\<open>EOVERFLOW\<close> check on \<^verbatim>\<open>tm_year\<close>.
  It proves that every loop terminates, that the result is a valid calendar date and
  time, and that it converts back to the seconds it came from; and that valid dates are
  ordered lexicographically exactly as their day numbers are.
\<close>

subsection \<open>Leap years and the glibc tables\<close>

text \<open>\<^verbatim>\<open>__isleap(year)\<close>: \<^verbatim>\<open>year % 4 == 0 && (year % 100 != 0 || year % 400 == 0)\<close>.\<close>

definition is_leap :: "int \<Rightarrow> bool" where
  "is_leap y \<longleftrightarrow> c_mod y 4 = 0 \<and> (c_mod y 100 \<noteq> 0 \<or> c_mod y 400 = 0)"

definition year_len :: "int \<Rightarrow> int" where
  "year_len y = (if is_leap y then 366 else 365)"

text \<open>The macros \<^verbatim>\<open>DIV\<close> and \<^verbatim>\<open>LEAPS_THRU_END_OF\<close> of offtime.c.\<close>

definition glibc_DIV :: "int \<Rightarrow> int \<Rightarrow> int" where
  "glibc_DIV a b = c_div a b - (if c_mod a b < 0 then 1 else 0)"

definition leaps_thru_end_of :: "int \<Rightarrow> int" where
  "leaps_thru_end_of y = glibc_DIV y 4 - glibc_DIV y 100 + glibc_DIV y 400"

text \<open>\<^verbatim>\<open>__mon_yday\<close>: days before each month, for common and for leap years.\<close>

definition mon_yday :: "bool \<Rightarrow> int list" where
  "mon_yday leap =
     (if leap then [0, 31, 60, 91, 121, 152, 182, 213, 244, 274, 305, 335, 366]
      else [0, 31, 59, 90, 120, 151, 181, 212, 243, 273, 304, 334, 365])"

text \<open>\<^verbatim>\<open>struct tm\<close>, with the fields \<^verbatim>\<open>__offtime\<close> writes.\<close>

record tm =
  tm_sec :: int
  tm_min :: int
  tm_hour :: int
  tm_mday :: int
  tm_mon :: int
  tm_year :: int
  tm_wday :: int
  tm_yday :: int

text \<open>\<^verbatim>\<open>tm_year\<close> is a C \<^verbatim>\<open>int\<close>: 32 bits on the platforms CPython supports.\<close>

definition fits_c_int :: "int \<Rightarrow> bool" where
  "fits_c_int x \<longleftrightarrow> - (2 ^ 31) \<le> x \<and> x < 2 ^ 31"

subsection \<open>The loops of \<^verbatim>\<open>__offtime\<close>\<close>

text \<open>
  \<^verbatim>\<open>while (rem < 0) { rem += SECS_PER_DAY; --days; }\<close> and
  \<^verbatim>\<open>while (rem >= SECS_PER_DAY) { rem -= SECS_PER_DAY; ++days; }\<close>.
\<close>

function norm_neg :: "int \<Rightarrow> int \<Rightarrow> int \<times> int" where
  "norm_neg days rem = (if rem < 0 then norm_neg (days - 1) (rem + 86400) else (days, rem))"
  by pat_completeness auto
termination
  by (relation "measure (\<lambda>(days, rem). nat (- rem))") auto

function norm_pos :: "int \<Rightarrow> int \<Rightarrow> int \<times> int" where
  "norm_pos days rem = (if 86400 \<le> rem then norm_pos (days + 1) (rem - 86400) else (days, rem))"
  by pat_completeness auto
termination
  by (relation "measure (\<lambda>(days, rem). nat rem)") auto

declare norm_neg.simps [simp del] norm_pos.simps [simp del]

text \<open>
  The year loop:
  \<^verbatim>\<open>while (days < 0 || days >= (__isleap (y) ? 366 : 365)) {
     yg = y + days / 365 - (days % 365 < 0);
     days -= ((yg - y) * 365 + LEAPS_THRU_END_OF (yg - 1) - LEAPS_THRU_END_OF (y - 1));
     y = yg; }\<close>
  Its termination is not evident: the guess can overshoot the right year, and the
  day count can leave the year on the other side. What decreases is how far the day
  count lies outside the current year.
\<close>

definition year_guess :: "int \<Rightarrow> int \<Rightarrow> int" where
  "year_guess y days = y + c_div days 365 - (if c_mod days 365 < 0 then 1 else 0)"

definition year_shift :: "int \<Rightarrow> int \<Rightarrow> int" where
  "year_shift y yg = (yg - y) * 365 + leaps_thru_end_of (yg - 1) - leaps_thru_end_of (y - 1)"

definition year_excess :: "int \<Rightarrow> int \<Rightarrow> nat" where
  "year_excess y days = nat (if days < 0 then - days else days - year_len y + 1)"

subsection \<open>Arithmetic facts behind the loops\<close>

lemma glibc_DIV_eq: "0 < b \<Longrightarrow> glibc_DIV a b = a div b"
  by (simp add: glibc_DIV_def c_floor_div)

lemma is_leap_iff: "is_leap y \<longleftrightarrow> 4 dvd y \<and> (\<not> 100 dvd y \<or> 400 dvd y)"
  by (simp add: is_leap_def c_mod_eq_0_iff)

lemma leaps_thru_end_of_eq: "leaps_thru_end_of y = y div 4 - y div 100 + y div 400"
  by (simp add: leaps_thru_end_of_def glibc_DIV_eq)

lemma div_plus_one:
  assumes m: "0 < (m::int)"
  shows "(x + 1) div m = x div m + (if m dvd (x + 1) then 1 else 0)"
proof -
  define q r where "q = x div m" and "r = x mod m"
  have x: "x = r + m * q" and r: "0 \<le> r" "r < m" using m by (simp_all add: q_def r_def)
  show ?thesis
  proof (cases "r + 1 = m")
    case True
    then have "x + 1 = 0 + m * (q + 1)" using x by (simp add: algebra_simps)
    then show ?thesis using m q_def by (simp only: div_mult_self2) simp
  next
    case False
    then have r1: "0 \<le> r + 1" "r + 1 < m" using r by simp_all
    have e: "x + 1 = (r + 1) + m * q" using x by simp
    have m0: "m \<noteq> 0" using m by simp
    have d0: "(r + 1) div m = 0" "(r + 1) mod m = r + 1"
      using r1 by (simp_all add: div_pos_pos_trivial mod_pos_pos_trivial)
    have d: "(x + 1) div m = q"
      unfolding e by (simp only: div_mult_self2 [OF m0] d0)
    have md: "(x + 1) mod m = r + 1"
      unfolding e by (simp only: mod_mult_self2 d0)
    have "\<not> m dvd (x + 1)" using md r by (simp add: dvd_eq_mod_eq_0)
    with d q_def show ?thesis by simp
  qed
qed

lemma leaps_thru_end_of_succ:
  "leaps_thru_end_of (x + 1) = leaps_thru_end_of x + (if is_leap (x + 1) then 1 else 0)"
proof -
  have a: "(x + 1) div 4 = x div 4 + (if 4 dvd (x + 1) then 1 else 0)"
    and b: "(x + 1) div 100 = x div 100 + (if 100 dvd (x + 1) then 1 else 0)"
    and c: "(x + 1) div 400 = x div 400 + (if 400 dvd (x + 1) then 1 else 0)"
    by (simp_all only: div_plus_one zero_less_numeral)
  have e: "leaps_thru_end_of (x + 1) = leaps_thru_end_of x
      + (if 4 dvd (x + 1) then 1 else 0) - (if 100 dvd (x + 1) then 1 else 0)
      + (if 400 dvd (x + 1) then 1 else 0)"
    unfolding leaps_thru_end_of_eq a b c by simp
  have h1: "(400::int) dvd (x + 1) \<Longrightarrow> 100 dvd (x + 1)"
    and h2: "(100::int) dvd (x + 1) \<Longrightarrow> 4 dvd (x + 1)"
    by (auto elim: dvd_trans [rotated])
  show ?thesis
  proof (cases "400 dvd (x + 1)")
    case True
    with h1 h2 e show ?thesis by (simp add: is_leap_iff)
  next
    case n400: False
    show ?thesis
    proof (cases "100 dvd (x + 1)")
      case True
      with n400 h2 e show ?thesis by (simp add: is_leap_iff)
    next
      case False
      with n400 e show ?thesis by (simp add: is_leap_iff)
    qed
  qed
qed

lemma leaps_between:
  assumes "0 \<le> n"
  shows "0 \<le> leaps_thru_end_of (x + n) - leaps_thru_end_of x \<and>
         leaps_thru_end_of (x + n) - leaps_thru_end_of x \<le> n"
proof -
  obtain k where n: "n = int k" using assms nonneg_eq_int by blast
  have "0 \<le> leaps_thru_end_of (x + int k) - leaps_thru_end_of x \<and>
         leaps_thru_end_of (x + int k) - leaps_thru_end_of x \<le> int k"
  proof (induction k)
    case 0
    then show ?case by simp
  next
    case (Suc k)
    have "x + int (Suc k) = (x + int k) + 1" by simp
    then show ?case using Suc.IH by (simp only: leaps_thru_end_of_succ) auto
  qed
  with n show ?thesis by simp
qed

lemma year_guess_eq: "year_guess y days = y + days div 365"
  by (simp add: year_guess_def c_floor_div [of 365, symmetric])

lemma year_excess_decreases:
  assumes out: "days < 0 \<or> year_len y \<le> days"
  shows "year_excess (year_guess y days) (days - year_shift y (year_guess y days))
         < year_excess y days"
proof -
  define k r where "k = days div 365" and "r = days mod 365"
  have d: "days = 365 * k + r" and r: "0 \<le> r" "r < 365" by (simp_all add: k_def r_def)
  have yg: "year_guess y days = y + k" by (simp add: year_guess_eq k_def)
  define L where "L = leaps_thru_end_of (y - 1 + k) - leaps_thru_end_of (y - 1)"
  have new: "days - year_shift y (y + k) = r - L"
    using d by (simp add: year_shift_def L_def algebra_simps)
  have yl: "365 \<le> year_len y" "year_len y \<le> 366" for y by (simp_all add: year_len_def)
  show ?thesis
  proof (cases "days < 0")
    case False
    with out have big: "year_len y \<le> days" by simp
    then have k1: "1 \<le> k" using d r yl [of y] by linarith
    have Lb: "0 \<le> L" "L \<le> k" using leaps_between [of k "y - 1"] k1 by (simp_all add: L_def)
    have old: "year_excess y days = nat (days - year_len y + 1)"
      using False by (simp add: year_excess_def)
    show ?thesis
    proof (cases "r - L < 0")
      case True
      have "k \<noteq> 1"
      proof
        assume "k = 1"
        then have "L = (if is_leap y then 1 else 0)"
          using leaps_thru_end_of_succ [of "y - 1"] by (simp add: L_def)
        with True r \<open>k = 1\<close> d big show False by (simp add: year_len_def split: if_splits)
      qed
      with k1 have "2 \<le> k" by simp
      then show ?thesis using True yg new old d r Lb yl [of y]
        by (simp add: year_excess_def)
    next
      case False
      have "r - L - year_len (y + k) + 1 \<le> 0" using r Lb yl [of "y + k"] by linarith
      then show ?thesis using False yg new old big by (simp add: year_excess_def)
    qed
  next
    case True
    then have k1: "k \<le> -1" using d r by linarith
    define L' where "L' = leaps_thru_end_of (y - 1) - leaps_thru_end_of (y - 1 + k)"
    have "L = - L'" by (simp add: L_def L'_def)
    have Lb: "0 \<le> L'" "L' \<le> - k"
      using leaps_between [of "- k" "y - 1 + k"] k1 by (simp_all add: L'_def)
    have old: "year_excess y days = nat (- days)" using True by (simp add: year_excess_def)
    show ?thesis
    proof (cases "k = -1")
      case True
      then have "L' = (if is_leap (y + k) then 1 else 0)"
        using leaps_thru_end_of_succ [of "y - 2"] by (simp add: L'_def)
      then have "r - L - year_len (y + k) + 1 \<le> 0"
        using r \<open>L = - L'\<close> by (simp add: year_len_def)
      then show ?thesis using yg new old \<open>days < 0\<close> r \<open>L = - L'\<close> Lb
        by (simp add: year_excess_def)
    next
      case False
      with k1 have "k \<le> -2" by simp
      then show ?thesis using yg new old \<open>days < 0\<close> d r \<open>L = - L'\<close> Lb yl [of "y + k"]
        by (simp add: year_excess_def)
    qed
  qed
qed

subsection \<open>The year loop and the month search\<close>

function year_loop :: "int \<Rightarrow> int \<Rightarrow> int \<times> int" where
  "year_loop y days =
     (if days < 0 \<or> year_len y \<le> days
      then (let yg = year_guess y days in year_loop yg (days - year_shift y yg))
      else (y, days))"
  by pat_completeness auto
termination
proof (relation "measure (\<lambda>(y, days). year_excess y days)")
  show "wf (measure (\<lambda>(y, days). year_excess y days))" by simp
next
  fix y days yg
  assume "days < 0 \<or> year_len y \<le> days" and "yg = year_guess y days"
  then show "((yg, days - year_shift y yg), y, days) \<in> measure (\<lambda>(y, days). year_excess y days)"
    using year_excess_decreases by simp
qed

declare year_loop.simps [simp del]

text \<open>
  \<^verbatim>\<open>for (y = 11; days < (long int) ip[y]; --y) continue;\<close> The C loop also tests
  \<^verbatim>\<open>ip[0]\<close>, which is 0 and never above \<^verbatim>\<open>days\<close> (the year loop leaves
  \<^verbatim>\<open>days\<close> non-negative, lemma \<open>year_loop_range\<close>), so the search stops at index 0
  without the test.
\<close>

fun mon_search :: "int list \<Rightarrow> int \<Rightarrow> nat \<Rightarrow> nat" where
  "mon_search ip days 0 = 0"
| "mon_search ip days (Suc i) = (if days < ip ! Suc i then mon_search ip days i else Suc i)"

subsection \<open>\<^verbatim>\<open>__offtime\<close>\<close>

text \<open>
  \<^verbatim>\<open>int __offtime (__time64_t t, long int offset, struct tm *tp)\<close>: \<open>None\<close> is
  the failure return with \<^verbatim>\<open>errno = EOVERFLOW\<close>.
\<close>

definition offtime :: "int \<Rightarrow> int \<Rightarrow> tm option" where
  "offtime t offset =
     (let (days, rem) = norm_neg (c_div t 86400) (c_mod t 86400 + offset);
          (days, rem) = norm_pos days rem;
          hour = c_div rem 3600;
          rem = c_mod rem 3600;
          min = c_div rem 60;
          sec = c_mod rem 60;
          wday = c_mod (4 + days) 7;
          wday = (if wday < 0 then wday + 7 else wday);
          (y, days) = year_loop 1970 days
      in if \<not> fits_c_int (y - 1900) then None
         else
           (let ip = mon_yday (is_leap y);
                m = mon_search ip days 11
            in Some \<lparr>tm_sec = sec, tm_min = min, tm_hour = hour,
                     tm_mday = days - ip ! m + 1, tm_mon = int m, tm_year = y - 1900,
                     tm_wday = wday, tm_yday = days\<rparr>))"

subsection \<open>The calendar the result denotes\<close>

text \<open>
  The reference against which \<open>offtime\<close> is checked: the days before each year since
  1970, a date's day number, and the seconds a broken-down time denotes (what
  \<^verbatim>\<open>timegm\<close> computes).
\<close>

definition month_len :: "int \<Rightarrow> int \<Rightarrow> int" where
  "month_len y m = mon_yday (is_leap y) ! nat (m + 1) - mon_yday (is_leap y) ! nat m"

definition tm_valid :: "tm \<Rightarrow> bool" where
  "tm_valid tm \<longleftrightarrow>
     0 \<le> tm_sec tm \<and> tm_sec tm < 60 \<and> 0 \<le> tm_min tm \<and> tm_min tm < 60 \<and>
     0 \<le> tm_hour tm \<and> tm_hour tm < 24 \<and> 0 \<le> tm_mon tm \<and> tm_mon tm < 12 \<and>
     1 \<le> tm_mday tm \<and> tm_mday tm \<le> month_len (tm_year tm + 1900) (tm_mon tm) \<and>
     0 \<le> tm_wday tm \<and> tm_wday tm < 7 \<and>
     tm_yday tm = mon_yday (is_leap (tm_year tm + 1900)) ! nat (tm_mon tm) + tm_mday tm - 1"

definition days_before_year :: "int \<Rightarrow> int" where
  "days_before_year y = 365 * (y - 1970) + leaps_thru_end_of (y - 1) - leaps_thru_end_of 1969"


definition days_from_civil :: "int \<Rightarrow> int \<Rightarrow> int \<Rightarrow> int" where
  "days_from_civil y m d = days_before_year y + mon_yday (is_leap y) ! nat m + d - 1"

definition tm_seconds :: "tm \<Rightarrow> int" where
  "tm_seconds tm =
     days_from_civil (tm_year tm + 1900) (tm_mon tm) (tm_mday tm) * 86400
     + tm_hour tm * 3600 + tm_min tm * 60 + tm_sec tm"

subsection \<open>Correctness of \<^verbatim>\<open>__offtime\<close>\<close>

lemma norm_neg_eq: "norm_neg days rem = (if rem < 0 then (days + rem div 86400, rem mod 86400) else (days, rem))"
proof (induction days rem rule: norm_neg.induct)
  case (1 days rem)
  show ?case
  proof (cases "rem < 0")
    case True
    have s: "(rem + 86400) div 86400 = rem div 86400 + 1" "(rem + 86400) mod 86400 = rem mod 86400"
      by simp_all
    moreover have "rem + 86400 \<ge> 0 \<Longrightarrow> rem div 86400 = -1 \<and> rem mod 86400 = rem + 86400"
    proof -
      assume "rem + 86400 \<ge> 0"
      moreover have "rem + 86400 < 86400" using True by simp
      ultimately have "(rem + 86400) div 86400 = 0" "(rem + 86400) mod 86400 = rem + 86400"
        by (rule div_pos_pos_trivial, rule mod_pos_pos_trivial)
      with s show ?thesis by simp
    qed
    ultimately show ?thesis using True "1.IH" by (subst norm_neg.simps) (auto simp: not_less)
  next
    case False
    then show ?thesis by (subst norm_neg.simps) simp
  qed
qed

lemma norm_pos_eq: "norm_pos days rem = (if 0 \<le> rem then (days + rem div 86400, rem mod 86400) else (days, rem))"
proof (induction days rem rule: norm_pos.induct)
  case (1 days rem)
  show ?case
  proof (cases "86400 \<le> rem")
    case True
    have "(rem - 86400) div 86400 = rem div 86400 - 1" "(rem - 86400) mod 86400 = rem mod 86400"
      using div_pos_geq [of 86400 rem] True by simp_all
    then show ?thesis using True "1.IH" by (subst norm_pos.simps) auto
  next
    case False
    then show ?thesis by (subst norm_pos.simps) (simp add: div_pos_pos_trivial mod_pos_pos_trivial)
  qed
qed

lemma year_shift_eq: "year_shift y yg = days_before_year yg - days_before_year y"
  by (simp add: year_shift_def days_before_year_def algebra_simps)

lemma year_loop_inv:
  "year_loop y days = (y', d') \<Longrightarrow>
     days_before_year y' + d' = days_before_year y + days \<and> 0 \<le> d' \<and> d' < year_len y'"
proof (induction y days rule: year_loop.induct)
  case (1 y days)
  show ?case
  proof (cases "days < 0 \<or> year_len y \<le> days")
    case True
    define yg where "yg = year_guess y days"
    from True "1.prems" have "year_loop yg (days - year_shift y yg) = (y', d')"
      by (simp add: year_loop.simps [of y days] yg_def Let_def)
    with "1.IH" [OF True yg_def] show ?thesis by (simp add: year_shift_eq)
  next
    case False
    with "1.prems" show ?thesis by (auto simp: year_loop.simps [of y days])
  qed
qed

lemma mon_search_le:
  "0 \<le> days \<Longrightarrow> ip ! 0 = 0 \<Longrightarrow> ip ! mon_search ip days i \<le> days \<and> mon_search ip days i \<le> i"
  by (induction i) auto

lemma mon_search_lt: "days < ip ! Suc i \<Longrightarrow> days < ip ! Suc (mon_search ip days i)"
  by (induction i) auto

lemma norm_loops:
  "(case norm_neg d r of (days, rem) \<Rightarrow> case norm_pos days rem of (days, rem) \<Rightarrow> f days rem)
   = f (d + r div 86400) (r mod 86400)"
proof (cases "r < 0")
  case True
  have "0 \<le> r mod 86400" "r mod 86400 < 86400" by simp_all
  with True show ?thesis by (simp add: norm_neg_eq norm_pos_eq div_pos_pos_trivial)
next
  case False
  then show ?thesis by (simp add: norm_neg_eq norm_pos_eq)
qed

lemma offtime_closed_form:
  "offtime t offset =
     (let D = (t + offset) div 86400; R = (t + offset) mod 86400;
          (y, d) = year_loop 1970 D
      in if \<not> fits_c_int (y - 1900) then None
         else
           (let ip = mon_yday (is_leap y);
                m = mon_search ip d 11
            in Some \<lparr>tm_sec = R mod 60, tm_min = R mod 3600 div 60, tm_hour = R div 3600,
                     tm_mday = d - ip ! m + 1, tm_mon = int m, tm_year = y - 1900,
                     tm_wday = (4 + D) mod 7, tm_yday = d\<rparr>))"
proof -
  define q r where "q = c_div t 86400" and "r = c_mod t 86400"
  have t: "t + offset = (r + offset) + 86400 * q" using c_div_mod_eq [of 86400 t]
    by (simp add: q_def r_def algebra_simps)
  have D: "q + (r + offset) div 86400 = (t + offset) div 86400"
    unfolding t by simp
  have R: "(r + offset) mod 86400 = (t + offset) mod 86400"
    unfolding t by simp
  define Rm where "Rm = (t + offset) mod 86400"
  have Rm: "0 \<le> Rm" "0 \<le> Rm mod 3600" "Rm mod 3600 mod 60 = Rm mod 60"
    by (simp_all add: Rm_def mod_mod_cancel)
  have w: "(if c_mod a 7 < 0 then c_mod a 7 + 7 else c_mod a 7) = a mod 7" for a
    by (rule c_mod_wrap) simp
  show ?thesis
    unfolding offtime_def Let_def q_def [symmetric] r_def [symmetric] norm_loops D R Rm_def [symmetric] w
    using Rm by (simp split: prod.split)
qed

lemma mon_yday_ends: "mon_yday leap ! 0 = 0" "mon_yday (is_leap y) ! 12 = year_len y"
  by (simp_all add: mon_yday_def year_len_def)

lemma days_before_1970: "days_before_year 1970 = 0"
  by (simp add: days_before_year_def)

lemma second_of_day_split:
  fixes R :: int
  assumes "0 \<le> R" "R < 86400"
  shows "R div 3600 < 24 \<and> 0 \<le> R div 3600 \<and> R mod 3600 div 60 < 60 \<and> 0 \<le> R mod 3600 div 60
         \<and> R div 3600 * 3600 + R mod 3600 div 60 * 60 + R mod 60 = R"
proof -
  have "R div 3600 \<le> 86399 div 3600" using assms by (intro zdiv_mono1) simp_all
  then have h: "R div 3600 < 24" by simp
  have a: "R div 3600 * 3600 + R mod 3600 = R" by (rule div_mult_mod_eq)
  have b: "R mod 3600 div 60 * 60 + R mod 3600 mod 60 = R mod 3600" by (rule div_mult_mod_eq)
  have c: "R mod 3600 mod 60 = R mod 60" by (simp add: mod_mod_cancel)
  have d: "R mod 3600 div 60 < 60" "0 \<le> R mod 3600 div 60" "0 \<le> R div 3600"
    using assms by (simp_all add: pos_imp_zdiv_nonneg_iff)
  from h a b c d show ?thesis by linarith
qed

lemma offtime_sound:
  assumes "offtime t offset = Some tm"
  shows "tm_valid tm \<and> tm_seconds tm = t + offset"
proof -
  define D R where "D = (t + offset) div 86400" and "R = (t + offset) mod 86400"
  obtain y d where yl: "year_loop 1970 D = (y, d)" by fastforce
  have inv: "days_before_year y + d = D" "0 \<le> d" "d < year_len y"
    using year_loop_inv [OF yl] by (simp_all add: days_before_1970)
  define ip where "ip = mon_yday (is_leap y)"
  define m where "m = mon_search ip d 11"
  have fits: "fits_c_int (y - 1900)"
    and tm: "tm = \<lparr>tm_sec = R mod 60, tm_min = R mod 3600 div 60, tm_hour = R div 3600,
                    tm_mday = d - ip ! m + 1, tm_mon = int m, tm_year = y - 1900,
                    tm_wday = (4 + D) mod 7, tm_yday = d\<rparr>"
    using assms unfolding offtime_closed_form Let_def D_def [symmetric] R_def [symmetric] yl
    by (simp_all add: ip_def m_def split: if_splits)
  have lo: "ip ! m \<le> d" "m \<le> 11"
    using mon_search_le [OF inv(2), of ip 11] by (simp_all add: m_def ip_def mon_yday_ends)
  have hi: "d < ip ! Suc m"
    using mon_search_lt [of d ip 11] inv(3) by (simp add: m_def ip_def mon_yday_ends)
  have R: "0 \<le> R" "R < 86400" by (simp_all add: R_def)
  have tD: "D * 86400 + R = t + offset" by (simp add: D_def R_def)
  have valid: "tm_valid tm"
    using lo hi second_of_day_split [OF R]
    by (simp add: tm tm_valid_def month_len_def ip_def nat_add_distrib)
  have "tm_seconds tm = (days_before_year y + d) * 86400 + R"
    using second_of_day_split [OF R]
    by (simp add: tm tm_seconds_def days_from_civil_def ip_def algebra_simps)
  with inv(1) tD valid show ?thesis by simp
qed

text \<open>
  C33. Whenever glibc's conversion \<^verbatim>\<open>__offtime (t, offset)\<close> returns a broken-down
  time, it is a valid date and time of day (month, day within the month, hours, minutes,
  seconds, weekday and day of the year in range), and it denotes exactly the local second
  \<open>t + offset\<close>.
\<close>

theorem offtime_correct:
  assumes "offtime t offset = Some tm"
  shows "tm_valid tm \<and> tm_seconds tm = t + offset"
  using assms by (rule offtime_sound)

lemma offtime_correct_witness:
  "offtime 1700000000 3600 = Some \<lparr>tm_sec = 20, tm_min = 13, tm_hour = 23, tm_mday = 14, tm_mon = 10,
      tm_year = 123, tm_wday = 2, tm_yday = 317\<rparr> \<and>
   tm_valid \<lparr>tm_sec = 20, tm_min = 13, tm_hour = 23, tm_mday = 14, tm_mon = 10,
      tm_year = 123, tm_wday = 2, tm_yday = 317\<rparr> \<and>
   tm_seconds \<lparr>tm_sec = 20, tm_min = 13, tm_hour = 23, tm_mday = 14, tm_mon = 10,
      tm_year = 123, tm_wday = 2, tm_yday = 317\<rparr> = 1700000000 + 3600"
proof -
  have h: "offtime 1700000000 3600 = Some \<lparr>tm_sec = 20, tm_min = 13, tm_hour = 23, tm_mday = 14,
      tm_mon = 10, tm_year = 123, tm_wday = 2, tm_yday = 317\<rparr>"
    by code_simp
  show ?thesis using h offtime_correct [OF h] by simp
qed

lemma year_loop_1970_bound:
  assumes "year_loop 1970 D = (y, d)"
  shows "\<bar>y - 1970\<bar> * 365 \<le> \<bar>D\<bar> + 366"
proof -
  have inv: "days_before_year y + d = D" "0 \<le> d" "d < year_len y"
    using year_loop_inv [OF assms] by (simp_all add: days_before_1970)
  have yl: "year_len y \<le> 366" by (simp add: year_len_def)
  show ?thesis
  proof (cases "1970 \<le> y")
    case True
    have "0 \<le> leaps_thru_end_of (1969 + (y - 1970)) - leaps_thru_end_of 1969"
      using leaps_between [of "y - 1970" 1969] True by simp
    then have "365 * (y - 1970) \<le> days_before_year y" by (simp add: days_before_year_def)
    with inv True show ?thesis by simp
  next
    case False
    have "leaps_thru_end_of (y - 1 + (1970 - y)) - leaps_thru_end_of (y - 1) \<ge> 0"
      using leaps_between [of "1970 - y" "y - 1"] False by simp
    then have "days_before_year y \<le> 365 * (y - 1970)" by (simp add: days_before_year_def)
    with inv yl False show ?thesis by simp
  qed
qed

lemma offtime_defined:
  assumes "\<bar>t + offset\<bar> < 2 ^ 50"
  shows "\<exists>tm. offtime t offset = Some tm"
proof -
  define D where "D = (t + offset) div 86400"
  obtain y d where yl: "year_loop 1970 D = (y, d)" by fastforce
  have "\<bar>D\<bar> \<le> 2 ^ 50 div 86400 + 1"
    unfolding D_def using assms by (intro abs_div_le) simp_all
  then have "\<bar>D\<bar> \<le> 2 ^ 34" by simp
  with year_loop_1970_bound [OF yl] have "\<bar>y - 1970\<bar> * 365 \<le> 2 ^ 34 + 366" by simp
  then have "- (2 ^ 34 + 366) \<le> (y - 1970) * 365" "(y - 1970) * 365 \<le> 2 ^ 34 + 366"
    by (simp_all add: abs_if split: if_splits)
  then have "fits_c_int (y - 1900)" unfolding fits_c_int_def by simp
  then show ?thesis by (simp add: offtime_closed_form D_def [symmetric] yl Let_def)
qed

text \<open>
  C34. glibc's conversion terminates and succeeds for every local second within
  \<open>2^50\<close> of the epoch (some 35 million years): its three loops stop, and the year it
  finds fits the C \<^verbatim>\<open>int\<close> of \<^verbatim>\<open>tm_year\<close>, so the \<^verbatim>\<open>EOVERFLOW\<close> branch is not taken.
\<close>

theorem offtime_total:
  assumes "\<bar>t + offset\<bar> < 2 ^ 50"
  shows "\<exists>tm. offtime t offset = Some tm"
  using assms by (rule offtime_defined)

lemma offtime_total_witness: "\<bar>(-62135596800::int) + 0\<bar> < 2 ^ 50 \<and> (\<exists>tm. offtime (-62135596800) 0 = Some tm)"
proof -
  have h: "\<bar>(-62135596800::int) + 0\<bar> < 2 ^ 50" by simp
  show ?thesis using h offtime_total [OF h] by simp
qed

lemma offtime_year_bound:
  assumes "offtime t offset = Some tm"
  shows "\<bar>tm_year tm + 1900 - 1970\<bar> * 365 \<le> \<bar>(t + offset) div 86400\<bar> + 366"
proof -
  define D where "D = (t + offset) div 86400"
  obtain y d where yl: "year_loop 1970 D = (y, d)" by fastforce
  have "tm_year tm = y - 1900"
    using assms unfolding offtime_closed_form Let_def D_def [symmetric] yl
    by (auto split: if_splits)
  with year_loop_1970_bound [OF yl] show ?thesis by (simp add: D_def)
qed

subsection \<open>Dates are ordered by their day numbers\<close>

lemma mon_yday_mono: "i \<le> j \<Longrightarrow> j \<le> 12 \<Longrightarrow> mon_yday leap ! i \<le> mon_yday leap ! j"
proof -
  assume "i \<le> j" "j \<le> 12"
  moreover have "sorted (mon_yday leap)" "length (mon_yday leap) = 13" by (simp_all add: mon_yday_def)
  ultimately show ?thesis by (simp add: sorted_nth_mono)
qed

lemma days_before_year_succ: "days_before_year (y + 1) = days_before_year y + year_len y"
  using leaps_thru_end_of_succ [of "y - 1"]
  by (simp add: days_before_year_def year_len_def)

lemma days_before_year_less:
  assumes "y1 < y2"
  shows "days_before_year y1 + year_len y1 \<le> days_before_year y2"
proof -
  define k where "k = nat (y2 - y1 - 1)"
  have k: "y2 = y1 + 1 + int k" using assms by (simp add: k_def)
  have "days_before_year y1 + year_len y1 \<le> days_before_year (y1 + 1 + int k)"
  proof (induction k)
    case 0
    then show ?case by (simp add: days_before_year_succ)
  next
    case (Suc k)
    have "y1 + 1 + int (Suc k) = (y1 + 1 + int k) + 1" by simp
    moreover have "0 < year_len (y1 + 1 + int k)" by (simp add: year_len_def)
    ultimately show ?case using Suc.IH by (simp only: days_before_year_succ)
  qed
  with k show ?thesis by simp
qed

lemma day_in_year:
  assumes "0 \<le> m" "m < 12" "1 \<le> d" "d \<le> month_len y m"
  shows "days_before_year y \<le> days_from_civil y m d \<and>
         days_from_civil y m d < days_before_year y + mon_yday (is_leap y) ! nat (m + 1) \<and>
         mon_yday (is_leap y) ! nat (m + 1) \<le> year_len y"
proof -
  have n: "nat (m + 1) = Suc (nat m)" using assms by simp
  have "mon_yday (is_leap y) ! 0 \<le> mon_yday (is_leap y) ! nat m" using assms by (intro mon_yday_mono) simp_all
  moreover have "mon_yday (is_leap y) ! nat (m + 1) \<le> mon_yday (is_leap y) ! 12"
    using assms by (intro mon_yday_mono) simp_all
  ultimately show ?thesis
    using assms by (simp add: days_from_civil_def month_len_def mon_yday_ends)
qed

lemma days_from_civil_less:
  assumes "0 \<le> m1" "m1 < 12" "1 \<le> d1" "d1 \<le> month_len y1 m1"
    and "0 \<le> m2" "m2 < 12" "1 \<le> d2" "d2 \<le> month_len y2 m2"
    and "(y1, m1, d1) < (y2, m2, d2)"
  shows "days_from_civil y1 m1 d1 < days_from_civil y2 m2 d2"
proof -
  note i1 = day_in_year [OF assms(1-4)] and i2 = day_in_year [OF assms(5-8)]
  consider "y1 < y2" | "y1 = y2" "m1 < m2" | "y1 = y2" "m1 = m2" "d1 < d2"
    using assms(9) unfolding less_prod_simp by (metis less_le)
  then show ?thesis
  proof cases
    case 1
    with i1 i2 days_before_year_less [OF 1] show ?thesis by linarith
  next
    case 2
    have "mon_yday (is_leap y1) ! nat (m1 + 1) \<le> mon_yday (is_leap y1) ! nat m2"
      using 2 assms by (intro mon_yday_mono) simp_all
    with 2 i1 assms(7) show ?thesis by (simp add: days_from_civil_def)
  next
    case 3
    then show ?thesis by (simp add: days_from_civil_def)
  qed
qed

end
