(* ===== verification/Clock.thy ===== *)
theory Clock
  imports Calendar
begin

text \<open>
  \<^verbatim>\<open>datetime.now()\<close> of src/app.py, line 12, as CPython runs it on Linux
  (Modules/_datetimemodule.c, \<^verbatim>\<open>datetime_best_possible\<close> and
  \<^verbatim>\<open>datetime_from_timet_and_us\<close>; Python/pytime.c):
  \<^enum> the system clock is read as a \<^verbatim>\<open>struct timespec\<close> and converted to a
    \<^verbatim>\<open>PyTime_t\<close>, a signed 64-bit count of nanoseconds; an overflow raises
    \<^verbatim>\<open>OverflowError\<close>;
  \<^enum> the nanoseconds are split, rounding towards minus infinity, into whole seconds and
    microseconds;
  \<^enum> \<^verbatim>\<open>localtime_r\<close> breaks the seconds down in the local zone: glibc looks up the
    zone's UTC offset for that instant and calls \<^verbatim>\<open>__offtime\<close>
    (theory \<open>Calendar\<close>); a failure raises \<^verbatim>\<open>OSError\<close>;
  \<^enum> leap seconds are clamped (\<^verbatim>\<open>second = Py_MIN(59, tm.tm_sec)\<close>) and a year outside
    \<^verbatim>\<open>MINYEAR..MAXYEAR\<close> raises \<^verbatim>\<open>ValueError\<close>.
  The zone is a function from the UTC second to the offset glibc applies at that second
  (its \<^verbatim>\<open>tm_gmtoff\<close>); the clock reading is an input, as the outside world is.
\<close>

subsection \<open>The clock reading and \<^verbatim>\<open>PyTime_t\<close>\<close>

record timespec =
  tv_sec :: int
  tv_nsec :: int

definition fits_int64 :: "int \<Rightarrow> bool" where
  "fits_int64 x \<longleftrightarrow> - (2 ^ 63) \<le> x \<and> x < 2 ^ 63"

text \<open>
  \<^verbatim>\<open>pytime_fromtimespec\<close>: \<^verbatim>\<open>t = tv_sec; pytime_mul(&t, SEC_TO_NS);
  pytime_add(&t, tv_nsec)\<close>, and \<^verbatim>\<open>OverflowError\<close> if either step overflowed.
\<close>

definition pytime_from_timespec :: "timespec \<Rightarrow> int py_result" where
  "pytime_from_timespec ts =
     (let t = tv_sec ts * 1000000000
      in if fits_int64 t \<and> fits_int64 (t + tv_nsec ts) then Inr (t + tv_nsec ts)
         else Inl (OverflowError ''timestamp too large to convert to C PyTime_t''))"

text \<open>
  \<^verbatim>\<open>_PyTime_AsTimevalTime_t(ts, &secs, &us, _PyTime_ROUND_FLOOR)\<close>: microseconds by
  floor division, then \<^verbatim>\<open>pytime_divmod(us, SEC_TO_US)\<close>.
\<close>

definition pytime_as_timeval_floor :: "int \<Rightarrow> int \<times> int" where
  "pytime_as_timeval_floor ns = (let us = ns div 1000 in (us div 1000000, us mod 1000000))"

subsection \<open>\<^verbatim>\<open>datetime\<close> objects\<close>

text \<open>The fields of a naive \<^verbatim>\<open>datetime\<close> (\<^verbatim>\<open>fold\<close> is not modelled: no output reads it).\<close>

record datetime =
  year :: int
  month :: int
  day :: int
  hour :: int
  minute :: int
  second :: int
  microsecond :: int

definition MINYEAR :: int where "MINYEAR = 1"
definition MAXYEAR :: int where "MAXYEAR = 9999"

text \<open>\<^verbatim>\<open>localtime_r\<close> = \<^verbatim>\<open>__tz_convert\<close>: the zone's offset, then \<^verbatim>\<open>__offtime\<close>.\<close>

definition localtime :: "(int \<Rightarrow> int) \<Rightarrow> int \<Rightarrow> tm option" where
  "localtime gmtoff t = offtime t (gmtoff t)"

text \<open>\<^verbatim>\<open>datetime_from_timet_and_us(cls, _PyTime_localtime, timet, us, Py_None)\<close>.\<close>

definition datetime_from_timet_and_us :: "(int \<Rightarrow> int) \<Rightarrow> int \<Rightarrow> int \<Rightarrow> datetime py_result" where
  "datetime_from_timet_and_us gmtoff timet us =
     (case localtime gmtoff timet of
        None \<Rightarrow> Inl (OSError ''[Errno 75] Value too large for defined data type'')
      | Some tm \<Rightarrow>
          (let y = tm_year tm + 1900
           in if y < MINYEAR \<or> MAXYEAR < y then Inl (ValueError ''year is out of range'')
              else Inr \<lparr>year = y, month = tm_mon tm + 1, day = tm_mday tm, hour = tm_hour tm,
                        minute = tm_min tm, second = min 59 (tm_sec tm), microsecond = us\<rparr>))"

text \<open>\<^verbatim>\<open>datetime.now()\<close> = \<^verbatim>\<open>datetime_best_possible(cls, _PyTime_localtime, Py_None)\<close>.\<close>

definition datetime_now :: "(int \<Rightarrow> int) \<Rightarrow> timespec \<Rightarrow> datetime py_result" where
  "datetime_now gmtoff clock =
     (case pytime_from_timespec clock of
        Inl e \<Rightarrow> Inl e
      | Inr ns \<Rightarrow> (case pytime_as_timeval_floor ns of (secs, us) \<Rightarrow>
                    datetime_from_timet_and_us gmtoff secs us))"

subsection \<open>What a \<^verbatim>\<open>datetime\<close> denotes\<close>

text \<open>
  The invariant of a \<^verbatim>\<open>datetime\<close> (what its constructor checks) and the local
  seconds since 1970 it denotes.
\<close>

definition days_in_month :: "int \<Rightarrow> int \<Rightarrow> int" where
  "days_in_month y m = month_len y (m - 1)"

definition datetime_valid :: "datetime \<Rightarrow> bool" where
  "datetime_valid dt \<longleftrightarrow>
     MINYEAR \<le> year dt \<and> year dt \<le> MAXYEAR \<and> 1 \<le> month dt \<and> month dt \<le> 12 \<and>
     1 \<le> day dt \<and> day dt \<le> days_in_month (year dt) (month dt) \<and>
     0 \<le> hour dt \<and> hour dt < 24 \<and> 0 \<le> minute dt \<and> minute dt < 60 \<and>
     0 \<le> second dt \<and> second dt < 60 \<and> 0 \<le> microsecond dt \<and> microsecond dt < 1000000"

definition dt_seconds :: "datetime \<Rightarrow> int" where
  "dt_seconds dt =
     days_from_civil (year dt) (month dt - 1) (day dt) * 86400
     + hour dt * 3600 + minute dt * 60 + second dt"

subsection \<open>Correctness, success and failure of \<^verbatim>\<open>datetime.now()\<close>\<close>

lemma pytime_as_timeval_floor_eq:
  "pytime_as_timeval_floor ns = (ns div 1000000000, ns div 1000 mod 1000000)"
  by (simp add: pytime_as_timeval_floor_def zdiv_zmult2_eq [symmetric])

lemma datetime_now_Inr:
  assumes "pytime_from_timespec clock = Inr ns"
  shows "datetime_now gmtoff clock =
           datetime_from_timet_and_us gmtoff (ns div 1000000000) (ns div 1000 mod 1000000)"
  using assms by (simp add: datetime_now_def pytime_as_timeval_floor_eq)

lemma datetime_now_sound:
  assumes "pytime_from_timespec clock = Inr ns"
    and "datetime_now gmtoff clock = Inr dt"
  shows "datetime_valid dt \<and>
         dt_seconds dt = ns div 1000000000 + gmtoff (ns div 1000000000) \<and>
         microsecond dt = ns div 1000 mod 1000000"
proof -
  define s where "s = ns div 1000000000"
  obtain tm where tm: "offtime s (gmtoff s) = Some tm"
    using assms by (cases "offtime s (gmtoff s)")
      (auto simp: datetime_now_Inr datetime_from_timet_and_us_def localtime_def s_def)
  have c: "tm_valid tm \<and> tm_seconds tm = s + gmtoff s" by (rule offtime_sound [OF tm])
  have dt: "dt = \<lparr>year = tm_year tm + 1900, month = tm_mon tm + 1, day = tm_mday tm,
                 hour = tm_hour tm, minute = tm_min tm, second = tm_sec tm,
                 microsecond = ns div 1000 mod 1000000\<rparr>"
    and yr: "MINYEAR \<le> tm_year tm + 1900" "tm_year tm + 1900 \<le> MAXYEAR"
    using assms c tm
    by (auto simp: datetime_now_Inr datetime_from_timet_and_us_def localtime_def s_def [symmetric]
        tm_valid_def Let_def split: if_splits)
  show ?thesis
    using c yr
    by (simp add: dt datetime_valid_def tm_valid_def days_in_month_def dt_seconds_def
        tm_seconds_def s_def)
qed

text \<open>
  C35. When \<^verbatim>\<open>datetime.now()\<close> returns, its value is a valid \<^verbatim>\<open>datetime\<close>
  that denotes the local time of the clock reading: the whole seconds of the
  \<^verbatim>\<open>PyTime_t\<close> reading (rounded down) plus the zone's offset at that second, with the
  microseconds of the reading.
\<close>

theorem datetime_now_correct:
  assumes "pytime_from_timespec clock = Inr ns"
    and "datetime_now gmtoff clock = Inr dt"
  shows "datetime_valid dt \<and>
         dt_seconds dt = ns div 1000000000 + gmtoff (ns div 1000000000) \<and>
         microsecond dt = ns div 1000 mod 1000000"
  using assms by (rule datetime_now_sound)

lemma datetime_now_correct_witness:
  "pytime_from_timespec \<lparr>tv_sec = 1700000000, tv_nsec = 123456789\<rparr> = Inr 1700000000123456789 \<and>
   datetime_now (\<lambda>_. 3600) \<lparr>tv_sec = 1700000000, tv_nsec = 123456789\<rparr> =
     Inr \<lparr>year = 2023, month = 11, day = 14, hour = 23, minute = 13, second = 20, microsecond = 123456\<rparr> \<and>
   datetime_valid \<lparr>year = 2023, month = 11, day = 14, hour = 23, minute = 13, second = 20, microsecond = 123456\<rparr>"
proof -
  have h1: "pytime_from_timespec \<lparr>tv_sec = 1700000000, tv_nsec = 123456789\<rparr> = Inr 1700000000123456789"
    by (simp add: pytime_from_timespec_def fits_int64_def)
  have h2: "datetime_now (\<lambda>_. 3600) \<lparr>tv_sec = 1700000000, tv_nsec = 123456789\<rparr> =
     Inr \<lparr>year = 2023, month = 11, day = 14, hour = 23, minute = 13, second = 20, microsecond = 123456\<rparr>"
    by code_simp
  show ?thesis using h1 h2 datetime_now_correct [OF h1 h2] by simp
qed

lemma datetime_now_defined:
  assumes "pytime_from_timespec clock = Inr ns"
    and "\<bar>gmtoff (ns div 1000000000)\<bar> \<le> 93599"
  shows "\<exists>dt. datetime_now gmtoff clock = Inr dt"
proof -
  define s where "s = ns div 1000000000"
  have ns: "\<bar>ns\<bar> \<le> 2 ^ 63"
    using assms(1) by (auto simp: pytime_from_timespec_def fits_int64_def Let_def split: if_splits)
  have "\<bar>s\<bar> \<le> 2 ^ 63 div 1000000000 + 1" unfolding s_def using ns by (intro abs_div_le) simp_all
  then have sb: "\<bar>s + gmtoff s\<bar> \<le> 9300000000"
    using assms(2) unfolding s_def [symmetric] by (auto simp: abs_le_iff abs_less_iff)
  then obtain tm where tm: "offtime s (gmtoff s) = Some tm"
    using offtime_defined [of s "gmtoff s"] by auto
  have "\<bar>(s + gmtoff s) div 86400\<bar> \<le> 9300000000 div 86400 + 1"
    using sb by (intro abs_div_le) simp_all
  then have "\<bar>tm_year tm + 1900 - 1970\<bar> * 365 \<le> 107640 + 366"
    using offtime_year_bound [OF tm] by simp
  then have "MINYEAR \<le> tm_year tm + 1900 \<and> tm_year tm + 1900 \<le> MAXYEAR"
    by (simp add: MINYEAR_def MAXYEAR_def abs_if split: if_splits)
  then show ?thesis
    using tm assms(1)
    by (simp add: datetime_now_Inr datetime_from_timet_and_us_def localtime_def s_def [symmetric])
qed

text \<open>
  C36. \<^verbatim>\<open>datetime.now()\<close> does not raise for any clock reading that fits a
  \<^verbatim>\<open>PyTime_t\<close>, in any zone whose offset is at most 25:59:59 (every offset a POSIX
  \<^verbatim>\<open>TZ\<close> rule can give): neither \<^verbatim>\<open>OSError\<close> from \<^verbatim>\<open>localtime_r\<close> nor \<^verbatim>\<open>ValueError\<close> for a year outside 1--9999.
\<close>

theorem datetime_now_succeeds:
  assumes "pytime_from_timespec clock = Inr ns"
    and "\<bar>gmtoff (ns div 1000000000)\<bar> \<le> 93599"
  shows "\<exists>dt. datetime_now gmtoff clock = Inr dt"
  using assms by (rule datetime_now_defined)

lemma datetime_now_succeeds_witness:
  "pytime_from_timespec \<lparr>tv_sec = 0, tv_nsec = 0\<rparr> = Inr 0 \<and> \<bar>(\<lambda>_::int. - 18000::int) (0 div 1000000000)\<bar> \<le> 93599 \<and>
   (\<exists>dt. datetime_now (\<lambda>_. - 18000) \<lparr>tv_sec = 0, tv_nsec = 0\<rparr> = Inr dt)"
proof -
  have h1: "pytime_from_timespec \<lparr>tv_sec = 0, tv_nsec = 0\<rparr> = Inr 0"
    by (simp add: pytime_from_timespec_def fits_int64_def)
  have h2: "\<bar>(\<lambda>_::int. - 18000::int) (0 div 1000000000)\<bar> \<le> 93599" by simp
  show ?thesis using h1 h2 datetime_now_succeeds [OF h1 h2] by simp
qed

text \<open>
  C37. \<^verbatim>\<open>datetime.now()\<close> raises \<^verbatim>\<open>OverflowError\<close> for a clock reading whose
  nanosecond count does not fit the signed 64 bits of \<^verbatim>\<open>PyTime_t\<close>: every reading from
  2262-04-11 23:47:16.854775808 UTC on.
\<close>

theorem datetime_now_overflow:
  assumes "\<not> fits_int64 (tv_sec clock * 1000000000 + tv_nsec clock)"
  shows "datetime_now gmtoff clock = Inl (OverflowError ''timestamp too large to convert to C PyTime_t'')"
  using assms by (simp add: datetime_now_def pytime_from_timespec_def Let_def)

lemma datetime_now_overflow_witness:
  "\<not> fits_int64 (9223372037 * 1000000000 + 0) \<and>
   datetime_now (\<lambda>_. 0) \<lparr>tv_sec = 9223372037, tv_nsec = 0\<rparr> =
     Inl (OverflowError ''timestamp too large to convert to C PyTime_t'')"
proof -
  have h: "\<not> fits_int64 (tv_sec \<lparr>tv_sec = 9223372037, tv_nsec = 0\<rparr> * 1000000000 +
                         tv_nsec \<lparr>tv_sec = 9223372037, tv_nsec = 0\<rparr>)"
    by (simp add: fits_int64_def)
  show ?thesis using h datetime_now_overflow [OF h, of "\<lambda>_. 0"] by simp
qed

end
