(* ===== verification/Strftime.thy ===== *)
theory Strftime
  imports Clock "HOL-Library.Monad_Syntax"
begin

text \<open>
  \<^verbatim>\<open>.strftime("%Y-%m-%d %H:%M:%S")\<close> of src/app.py, line 12. CPython's
  \<^verbatim>\<open>datetime.strftime\<close> passes the \<^verbatim>\<open>timetuple()\<close> to \<^verbatim>\<open>time.strftime\<close>, which
  checks the fields' ranges (\<^verbatim>\<open>checktm\<close>, \<^verbatim>\<open>ValueError\<close> otherwise) and calls the C
  library's \<^verbatim>\<open>strftime\<close>. Each numeric directive prints its field in decimal, padded
  with zeros to a minimum width (two digits, four for \<^verbatim>\<open>%Y\<close>, which CPython 3.13
  pads itself where the C library does not); \<^verbatim>\<open>%%\<close> prints a percent sign; an unknown
  directive is copied; every other character is copied.
  The theory also states the spec's pattern \<^verbatim>\<open>\d{4}-\d{2}-\d{2} \d{2}:\d{2}:\d{2}\<close> as a
  parser and proves that the formatted timestamp and the parse are inverse, and that
  timestamps compare as strings exactly as the date-times they render compare in time.
\<close>

text \<open>\<^verbatim>\<open>"%0*d"\<close>: at least \<open>w\<close> digits, padded on the left with zeros.\<close>

definition zero_pad :: "nat \<Rightarrow> int \<Rightarrow> string" where
  "zero_pad w i = (let s = show_nat (nat i) in replicate (w - length s) (CHR ''0'') @ s)"

subsection \<open>\<^verbatim>\<open>time.strftime\<close>\<close>

text \<open>
  \<^verbatim>\<open>checktm\<close> of Modules/timemodule.c, on the fields the format reads. A valid
  \<^verbatim>\<open>datetime\<close> always passes it (lemma \<open>checktm_valid\<close>).
\<close>

definition checktm :: "datetime \<Rightarrow> string option" where
  "checktm dt =
     (if month dt < 1 \<or> 12 < month dt then Some ''month out of range''
      else if day dt < 0 \<or> 31 < day dt then Some ''day of month out of range''
      else if hour dt < 0 \<or> 23 < hour dt then Some ''hour out of range''
      else if minute dt < 0 \<or> 59 < minute dt then Some ''minute out of range''
      else if second dt < 0 \<or> 61 < second dt then Some ''seconds out of range''
      else None)"

fun strftime_directive :: "char \<Rightarrow> datetime \<Rightarrow> string" where
  "strftime_directive c dt =
     (if c = CHR ''Y'' then zero_pad 4 (year dt)
      else if c = CHR ''m'' then zero_pad 2 (month dt)
      else if c = CHR ''d'' then zero_pad 2 (day dt)
      else if c = CHR ''H'' then zero_pad 2 (hour dt)
      else if c = CHR ''M'' then zero_pad 2 (minute dt)
      else if c = CHR ''S'' then zero_pad 2 (second dt)
      else if c = CHR ''%'' then ''%''
      else [CHR ''%'', c])"

fun strftime_fmt :: "string \<Rightarrow> datetime \<Rightarrow> string" where
  "strftime_fmt [] dt = []"
| "strftime_fmt (c # d # fmt) dt =
     (if c = CHR ''%'' then strftime_directive d dt @ strftime_fmt fmt dt
      else c # strftime_fmt (d # fmt) dt)"
| "strftime_fmt [c] dt = [c]"

definition strftime :: "datetime \<Rightarrow> string \<Rightarrow> string py_result" where
  "strftime dt fmt =
     (case checktm dt of Some msg \<Rightarrow> Inl (ValueError msg) | None \<Rightarrow> Inr (strftime_fmt fmt dt))"

text \<open>The format string of src/app.py, line 12.\<close>

definition timestamp_format :: string where
  "timestamp_format = ''%Y-%m-%d %H:%M:%S''"

subsection \<open>The spec's timestamp pattern\<close>

definition digit_val :: "char \<Rightarrow> nat option" where
  "digit_val c = (let n = of_char c in if 48 \<le> n \<and> n < 58 then Some (n - 48) else None)"

text \<open>Exactly \<open>w\<close> decimal digits, their value added to the accumulator.\<close>

fun read_digits :: "nat \<Rightarrow> nat \<Rightarrow> string \<Rightarrow> (nat \<times> string) option" where
  "read_digits 0 acc s = Some (acc, s)"
| "read_digits (Suc w) acc [] = None"
| "read_digits (Suc w) acc (c # s) =
     (case digit_val c of None \<Rightarrow> None | Some d \<Rightarrow> read_digits w (10 * acc + d) s)"

fun expect :: "char \<Rightarrow> string \<Rightarrow> string option" where
  "expect c [] = None"
| "expect c (d # s) = (if c = d then Some s else None)"

type_synonym fields = "nat \<times> nat \<times> nat \<times> nat \<times> nat \<times> nat"

text \<open>
  \<^verbatim>\<open>\d{4}-\d{2}-\d{2} \d{2}:\d{2}:\d{2}\<close>, matched against the whole string, returning
  the six numbers.
\<close>

definition parse_timestamp :: "string \<Rightarrow> fields option" where
  "parse_timestamp s =
     do {
       (y, s) \<leftarrow> read_digits 4 0 s; s \<leftarrow> expect CHR ''-'' s;
       (mo, s) \<leftarrow> read_digits 2 0 s; s \<leftarrow> expect CHR ''-'' s;
       (d, s) \<leftarrow> read_digits 2 0 s; s \<leftarrow> expect CHR '' '' s;
       (h, s) \<leftarrow> read_digits 2 0 s; s \<leftarrow> expect CHR '':'' s;
       (mi, s) \<leftarrow> read_digits 2 0 s; s \<leftarrow> expect CHR '':'' s;
       (se, s) \<leftarrow> read_digits 2 0 s;
       if s = [] then Some (y, mo, d, h, mi, se) else None
     }"

definition matches_timestamp_pattern :: "string \<Rightarrow> bool" where
  "matches_timestamp_pattern s \<longleftrightarrow> parse_timestamp s \<noteq> None"

definition fields_of :: "datetime \<Rightarrow> fields" where
  "fields_of dt = (nat (year dt), nat (month dt), nat (day dt), nat (hour dt), nat (minute dt),
                   nat (second dt))"

subsection \<open>Fixed-width rendering\<close>

text \<open>
  The reference rendering: exactly \<open>w\<close> digits of a number, most significant first,
  and the timestamp of six numbers in the spec's layout.
\<close>

fun fixed_digits :: "nat \<Rightarrow> nat \<Rightarrow> string" where
  "fixed_digits 0 n = []"
| "fixed_digits (Suc w) n = fixed_digits w (n div 10) @ [digit_char (n mod 10)]"

definition render_fields :: "fields \<Rightarrow> string" where
  "render_fields f = (case f of (y, mo, d, h, mi, se) \<Rightarrow>
     fixed_digits 4 y @ CHR ''-'' # fixed_digits 2 mo @ CHR ''-'' # fixed_digits 2 d @
     CHR '' '' # fixed_digits 2 h @ CHR '':'' # fixed_digits 2 mi @ CHR '':'' # fixed_digits 2 se)"

definition fields_bounded :: "fields \<Rightarrow> bool" where
  "fields_bounded f = (case f of (y, mo, d, h, mi, se) \<Rightarrow>
     y < 10000 \<and> mo < 100 \<and> d < 100 \<and> h < 100 \<and> mi < 100 \<and> se < 100)"

subsection \<open>Rendering and parsing are inverse\<close>

lemma digit_char_0: "digit_char 0 = CHR ''0''"
  unfolding digit_char_def by code_simp

lemma digit_val_char [simp]: "d < 10 \<Longrightarrow> digit_val (digit_char d) = Some d"
  by (simp add: digit_val_def digit_char_def)

lemma digit_val_Some: "digit_val c = Some d \<Longrightarrow> c = digit_char d \<and> d < 10"
  by (auto simp: digit_val_def digit_char_def Let_def split: if_splits)

lemma length_fixed_digits [simp]: "length (fixed_digits w n) = w"
  by (induction w arbitrary: n) auto

lemma fixed_digits_Suc_front:
  "fixed_digits (Suc w) n = digit_char (n div 10 ^ w mod 10) # fixed_digits w n"
proof (induction w arbitrary: n)
  case 0
  then show ?case by simp
next
  case (Suc w)
  have "fixed_digits (Suc (Suc w)) n = fixed_digits (Suc w) (n div 10) @ [digit_char (n mod 10)]"
    by simp
  also have "\<dots> = digit_char (n div 10 div 10 ^ w mod 10) # fixed_digits w (n div 10) @ [digit_char (n mod 10)]"
    by (simp only: Suc.IH) simp
  also have "\<dots> = digit_char (n div 10 ^ Suc w mod 10) # fixed_digits (Suc w) n"
    by (simp add: div_mult2_eq)
  finally show ?case .
qed

lemma read_digits_append:
  "read_digits w acc ds = Some (a, []) \<Longrightarrow> read_digits (w + k) acc (ds @ s) = read_digits k a s"
  by (induction w acc ds rule: read_digits.induct) (auto split: option.splits)

lemma read_fixed_digits:
  "read_digits w acc (fixed_digits w v) = Some (acc * 10 ^ w + v mod 10 ^ w, [])"
proof (induction w arbitrary: v)
  case 0
  then show ?case by simp
next
  case (Suc w)
  have "read_digits (w + 1) acc (fixed_digits w (v div 10) @ [digit_char (v mod 10)])
        = read_digits 1 (acc * 10 ^ w + v div 10 mod 10 ^ w) [digit_char (v mod 10)]"
    by (rule read_digits_append) (rule Suc.IH)
  also have "\<dots> = Some (10 * (acc * 10 ^ w + v div 10 mod 10 ^ w) + v mod 10, [])"
    by simp
  also have "10 * (acc * 10 ^ w + v div 10 mod 10 ^ w) + v mod 10 = acc * 10 ^ Suc w + v mod 10 ^ Suc w"
    by (simp add: mod_mult2_eq algebra_simps)
  finally show ?case by simp
qed

lemma read_digits_Some:
  "read_digits w acc s = Some (n, rest) \<Longrightarrow>
     s = fixed_digits w n @ rest \<and> acc * 10 ^ w \<le> n \<and> n < (acc + 1) * 10 ^ w"
proof (induction w acc s rule: read_digits.induct)
  case (1 acc s)
  then show ?case by simp
next
  case (2 w acc)
  then show ?case by simp
next
  case (3 w acc c s)
  then obtain d where d: "digit_val c = Some d" by (cases "digit_val c") auto
  with digit_val_Some have c: "c = digit_char d" "d < 10" by blast+
  from "3.prems" d have r: "read_digits w (10 * acc + d) s = Some (n, rest)" by simp
  from "3.IH" [OF d r] have s: "s = fixed_digits w n @ rest"
    and lo: "(10 * acc + d) * 10 ^ w \<le> n" and hi: "n < (10 * acc + d + 1) * 10 ^ w" by simp_all
  have "n div 10 ^ w = 10 * acc + d"
    using lo hi by (simp add: div_nat_eqI mult.commute)
  then have "n div 10 ^ w mod 10 = d" using c by simp
  then have "c # fixed_digits w n = fixed_digits (Suc w) n"
    using c by (simp only: fixed_digits_Suc_front)
  moreover have "acc * 10 ^ Suc w \<le> n" using lo by (simp add: algebra_simps)
  moreover have "n < (acc + 1) * 10 ^ Suc w"
  proof -
    have m: "d * 10 ^ w \<le> 9 * 10 ^ w" using c(2) by simp
    have e1: "(10 * acc + d + 1) * 10 ^ w = 10 ^ w + d * 10 ^ w + acc * (10 * 10 ^ w)"
      by (simp add: algebra_simps)
    have e2: "(acc + 1) * 10 ^ Suc w = 10 * 10 ^ w + acc * (10 * 10 ^ w)"
      by (simp add: algebra_simps)
    from hi m e1 e2 show ?thesis by linarith
  qed
  ultimately show ?case using s by simp
qed

lemma show_nat_fixed: "show_nat n = fixed_digits (length (show_nat n)) n \<and> n < 10 ^ length (show_nat n)"
proof (induction n rule: show_nat.induct)
  case (1 n)
  show ?case
  proof (cases "n < 10")
    case True
    then show ?thesis by (simp add: show_nat.simps)
  next
    case False
    let ?s = "show_nat (n div 10)"
    from False "1.IH" have ih: "?s = fixed_digits (length ?s) (n div 10)" "n div 10 < 10 ^ length ?s"
      by simp_all
    have "show_nat n = ?s @ [digit_char (n mod 10)]" using False by (simp add: show_nat.simps)
    moreover have "n < 10 ^ Suc (length ?s)" using ih(2) by simp
    ultimately show ?thesis using ih(1) by simp
  qed
qed

lemma length_show_nat_le: "n < 10 ^ w \<Longrightarrow> 0 < w \<Longrightarrow> length (show_nat n) \<le> w"
proof (induction n arbitrary: w rule: show_nat.induct)
  case (1 n)
  show ?case
  proof (cases "n < 10")
    case True
    with "1.prems" show ?thesis by (simp add: show_nat.simps)
  next
    case False
    then obtain v where w: "w = Suc v" using "1.prems" by (cases w) auto
    with False "1.prems" have "n div 10 < 10 ^ v" by (simp add: less_mult_imp_div_less mult.commute)
    moreover have "0 < v" using False "1.prems" w by (cases v) auto
    ultimately have "length (show_nat (n div 10)) \<le> v" using False "1.IH" by simp
    with False w show ?thesis by (simp add: show_nat.simps)
  qed
qed

lemma zeros_fixed_digits:
  "n < 10 ^ j \<Longrightarrow> replicate k (CHR ''0'') @ fixed_digits j n = fixed_digits (k + j) n"
proof (induction k)
  case 0
  then show ?case by simp
next
  case (Suc k)
  have "n div 10 ^ (k + j) = 0"
    using Suc.prems by (simp add: div_less order_less_le_trans [OF _ power_increasing])
  then have "fixed_digits (Suc (k + j)) n = CHR ''0'' # fixed_digits (k + j) n"
    by (simp only: fixed_digits_Suc_front) (simp add: digit_char_0)
  with Suc show ?case by simp
qed

lemma zero_pad_fixed:
  assumes "0 \<le> i" "nat i < 10 ^ w" "0 < w"
  shows "zero_pad w i = fixed_digits w (nat i)"
proof -
  let ?s = "show_nat (nat i)"
  have le: "length ?s \<le> w" using assms by (intro length_show_nat_le)
  have "zero_pad w i = replicate (w - length ?s) (CHR ''0'') @ fixed_digits (length ?s) (nat i)"
    using show_nat_fixed [of "nat i"] by (simp add: zero_pad_def Let_def)
  also have "\<dots> = fixed_digits (w - length ?s + length ?s) (nat i)"
    using show_nat_fixed [of "nat i"] by (intro zeros_fixed_digits) simp
  finally show ?thesis using le by simp
qed

lemma read_fixed_prefix:
  assumes "v < 10 ^ w"
  shows "read_digits w acc (fixed_digits w v @ rest) = Some (acc * 10 ^ w + v, rest)"
proof -
  have "read_digits (w + 0) acc (fixed_digits w v @ rest) = read_digits 0 (acc * 10 ^ w + v mod 10 ^ w) rest"
    by (rule read_digits_append) (rule read_fixed_digits)
  with assms show ?thesis by simp
qed

lemma expect_Some: "expect c s = Some s' \<longleftrightarrow> s = c # s'"
  by (cases s) auto

lemma parse_render: "fields_bounded f \<Longrightarrow> parse_timestamp (render_fields f) = Some f"
  by (cases f) (simp add: parse_timestamp_def render_fields_def fields_bounded_def read_fixed_prefix
      read_fixed_digits)

lemma render_parse:
  assumes "parse_timestamp s = Some f"
  shows "s = render_fields f \<and> fields_bounded f"
  using assms
  by (auto simp: parse_timestamp_def bind_eq_Some_conv expect_Some render_fields_def
      fields_bounded_def dest!: read_digits_Some split: if_splits)

lemma month_len_le_31: "0 \<le> m \<Longrightarrow> m < 12 \<Longrightarrow> month_len y m \<le> 31"
proof -
  assume "0 \<le> m" "m < 12"
  then obtain k where "m = int k" "k < 12" by (metis nat_eq_iff2 nat_less_iff of_nat_numeral)
  then show ?thesis
    by (auto simp: month_len_def mon_yday_def less_Suc_eq numeral_eq_Suc nat_add_distrib)
qed

lemma valid_day_le_31: "datetime_valid dt \<Longrightarrow> day dt \<le> 31"
  using month_len_le_31 [of "month dt - 1" "year dt"]
  by (simp add: datetime_valid_def days_in_month_def)

lemma strftime_timestamp:
  "strftime_fmt timestamp_format dt =
     zero_pad 4 (year dt) @ CHR ''-'' # zero_pad 2 (month dt) @ CHR ''-'' # zero_pad 2 (day dt) @
     CHR '' '' # zero_pad 2 (hour dt) @ CHR '':'' # zero_pad 2 (minute dt) @ CHR '':'' #
     zero_pad 2 (second dt)"
  by (simp add: timestamp_format_def)

lemma strftime_timestamp_valid:
  assumes "datetime_valid dt"
  shows "strftime_fmt timestamp_format dt = render_fields (fields_of dt) \<and> fields_bounded (fields_of dt)"
proof -
  from assms valid_day_le_31 [OF assms] show ?thesis
    by (simp add: strftime_timestamp render_fields_def fields_of_def fields_bounded_def
        datetime_valid_def MINYEAR_def MAXYEAR_def zero_pad_fixed nat_less_iff)
qed

lemma checktm_valid: "datetime_valid dt \<Longrightarrow> checktm dt = None"
  using valid_day_le_31 [of dt] by (simp add: checktm_def datetime_valid_def)

lemma strftime_valid:
  assumes "datetime_valid dt"
  shows "strftime dt timestamp_format = Inr (render_fields (fields_of dt)) \<and> fields_bounded (fields_of dt)"
  using assms strftime_timestamp_valid [OF assms] by (simp add: strftime_def checktm_valid)

subsection \<open>Timestamps sort as the times they denote\<close>

lemma of_char_digit_char: "d < 10 \<Longrightarrow> (of_char (digit_char d) :: nat) = 48 + d"
  by (simp add: digit_char_def)

lemma digit_char_less: "a < 10 \<Longrightarrow> b < 10 \<Longrightarrow> digit_char a < digit_char b \<longleftrightarrow> a < b"
  by (simp add: less_char_def of_char_digit_char)

lemma digit_char_eq: "a < 10 \<Longrightarrow> b < 10 \<Longrightarrow> digit_char a = digit_char b \<longleftrightarrow> a = b"
  by (metis of_char_digit_char add_left_cancel)

lemma fixed_digits_mod: "fixed_digits w (n mod 10 ^ w) = fixed_digits w n"
proof (induction w arbitrary: n)
  case 0
  then show ?case by simp
next
  case (Suc w)
  have "n mod 10 ^ Suc w div 10 = n div 10 mod 10 ^ w" "n mod 10 ^ Suc w mod 10 = n mod 10"
    by (simp_all add: mod_mult2_eq)
  then show ?case using Suc.IH [of "n div 10"] by simp
qed

lemma fixed_digits_less:
  "a < 10 ^ w \<Longrightarrow> b < 10 ^ w \<Longrightarrow> fixed_digits w a < fixed_digits w b \<longleftrightarrow> a < b"
proof (induction w arbitrary: a b)
  case 0
  then show ?case by simp
next
  case (Suc w)
  have p: "(0::nat) < 10 ^ w" by simp
  have da: "a div 10 ^ w < 10" and db: "b div 10 ^ w < 10"
    using Suc.prems by (simp_all add: less_mult_imp_div_less mult.commute)
  have ra: "a mod 10 ^ w < 10 ^ w" and rb: "b mod 10 ^ w < 10 ^ w" by simp_all
  have ih: "fixed_digits w a < fixed_digits w b \<longleftrightarrow> a mod 10 ^ w < b mod 10 ^ w"
    using Suc.IH [OF ra rb] by (simp only: fixed_digits_mod)
  have ih': "fixed_digits w b < fixed_digits w a \<longleftrightarrow> b mod 10 ^ w < a mod 10 ^ w"
    using Suc.IH [OF rb ra] by (simp only: fixed_digits_mod)
  have ea: "fixed_digits w a = fixed_digits w b \<longleftrightarrow> a mod 10 ^ w = b mod 10 ^ w"
  proof
    assume e: "fixed_digits w a = fixed_digits w b"
    then have "\<not> a mod 10 ^ w < b mod 10 ^ w" "\<not> b mod 10 ^ w < a mod 10 ^ w"
      using ih ih' by simp_all
    then show "a mod 10 ^ w = b mod 10 ^ w" by simp
  next
    assume "a mod 10 ^ w = b mod 10 ^ w"
    then show "fixed_digits w a = fixed_digits w b" by (metis fixed_digits_mod)
  qed
  show ?case
    unfolding fixed_digits_Suc_front
    using ih ea da db nat_less_split [OF p, of a b]
    by (simp add: digit_char_less digit_char_eq del: fixed_digits.simps)
qed

lemma fixed_digits_eq:
  assumes "a < 10 ^ w" "b < 10 ^ w"
  shows "fixed_digits w a = fixed_digits w b \<longleftrightarrow> a = b"
  using fixed_digits_less [OF assms] fixed_digits_less [OF assms(2,1)]
  by (metis less_irrefl linorder_neqE_nat)

lemma render_fields_less:
  assumes "fields_bounded f1" "fields_bounded f2"
  shows "render_fields f1 < render_fields f2 \<longleftrightarrow> f1 < f2"
proof -
  obtain y1 mo1 d1 h1 mi1 s1 y2 mo2 d2 h2 mi2 s2 where
    f: "f1 = (y1, mo1, d1, h1, mi1, s1)" "f2 = (y2, mo2, d2, h2, mi2, s2)"
    by (cases f1, cases f2) blast
  have b4: "y1 < 10 ^ 4" "y2 < 10 ^ 4"
    and b2: "mo1 < 10 ^ 2" "mo2 < 10 ^ 2" "d1 < 10 ^ 2" "d2 < 10 ^ 2" "h1 < 10 ^ 2" "h2 < 10 ^ 2"
            "mi1 < 10 ^ 2" "mi2 < 10 ^ 2" "s1 < 10 ^ 2" "s2 < 10 ^ 2"
    using assms by (simp_all add: f fields_bounded_def)
  show ?thesis
    unfolding f render_fields_def
    using b4 b2
    by (simp add: append_less_same_length fixed_digits_less fixed_digits_eq del: fixed_digits.simps)
       (auto simp: le_less)
qed

lemma valid_fields_nonneg:
  "datetime_valid dt \<Longrightarrow> 0 \<le> year dt \<and> 0 \<le> month dt \<and> 0 \<le> day dt \<and> 0 \<le> hour dt \<and>
     0 \<le> minute dt \<and> 0 \<le> second dt"
  by (simp add: datetime_valid_def MINYEAR_def)

lemma second_of_day_less:
  fixes h1 mi1 s1 h2 mi2 s2 :: int
  assumes "0 \<le> mi1" "mi1 < 60" "0 \<le> s1" "s1 < 60" "0 \<le> mi2" "mi2 < 60" "0 \<le> s2" "s2 < 60"
    and "(h1, mi1, s1) < (h2, mi2, s2)"
  shows "h1 * 3600 + mi1 * 60 + s1 < h2 * 3600 + mi2 * 60 + s2"
proof -
  consider "h1 < h2" | "h1 = h2" "mi1 < mi2" | "h1 = h2" "mi1 = mi2" "s1 < s2"
    using assms(9) unfolding less_prod_simp by (metis less_le)
  then show ?thesis
    by cases (use assms in linarith)+
qed

lemma dt_seconds_less:
  assumes v1: "datetime_valid d1" and v2: "datetime_valid d2"
    and lt: "fields_of d1 < fields_of d2"
  shows "dt_seconds d1 < dt_seconds d2"
proof -
  note n1 = valid_fields_nonneg [OF v1] and n2 = valid_fields_nonneg [OF v2]
  have c: "(year d1, month d1 - 1, day d1) < (year d2, month d2 - 1, day d2) \<or>
           (year d1, month d1 - 1, day d1) = (year d2, month d2 - 1, day d2) \<and>
           (hour d1, minute d1, second d1) < (hour d2, minute d2, second d2)"
    using lt n1 n2
    by (simp add: fields_of_def less_prod_def' eq_nat_nat_iff nat_less_eq_zless del: less_prod_simp) blast
  have m1: "0 \<le> month d1 - 1" "month d1 - 1 < 12" "1 \<le> day d1" "day d1 \<le> month_len (year d1) (month d1 - 1)"
    and m2: "0 \<le> month d2 - 1" "month d2 - 1 < 12" "1 \<le> day d2" "day d2 \<le> month_len (year d2) (month d2 - 1)"
    and t: "0 \<le> hour d1" "hour d1 < 24" "0 \<le> minute d1" "minute d1 < 60" "0 \<le> second d1" "second d1 < 60"
           "0 \<le> hour d2" "hour d2 < 24" "0 \<le> minute d2" "minute d2 < 60" "0 \<le> second d2" "second d2 < 60"
    using v1 v2 by (simp_all add: datetime_valid_def days_in_month_def)
  show ?thesis
    using c
  proof
    assume "(year d1, month d1 - 1, day d1) < (year d2, month d2 - 1, day d2)"
    then have "days_from_civil (year d1) (month d1 - 1) (day d1) < days_from_civil (year d2) (month d2 - 1) (day d2)"
      using m1 m2 by (intro days_from_civil_less)
    with t show ?thesis by (simp add: dt_seconds_def)
  next
    assume e: "(year d1, month d1 - 1, day d1) = (year d2, month d2 - 1, day d2) \<and>
               (hour d1, minute d1, second d1) < (hour d2, minute d2, second d2)"
    then have "hour d1 * 3600 + minute d1 * 60 + second d1 < hour d2 * 3600 + minute d2 * 60 + second d2"
      using t by (intro second_of_day_less) simp_all
    with e show ?thesis by (simp add: dt_seconds_def)
  qed
qed

lemma dt_seconds_fields:
  assumes "datetime_valid d1" "datetime_valid d2" "fields_of d1 = fields_of d2"
  shows "dt_seconds d1 = dt_seconds d2"
  using assms valid_fields_nonneg [OF assms(1)] valid_fields_nonneg [OF assms(2)]
  by (simp add: fields_of_def dt_seconds_def eq_nat_nat_iff)

lemma dt_seconds_less_iff:
  assumes "datetime_valid d1" "datetime_valid d2"
  shows "dt_seconds d1 < dt_seconds d2 \<longleftrightarrow> fields_of d1 < fields_of d2"
proof
  assume l: "dt_seconds d1 < dt_seconds d2"
  show "fields_of d1 < fields_of d2"
  proof (rule ccontr)
    assume "\<not> fields_of d1 < fields_of d2"
    then consider "fields_of d1 = fields_of d2" | "fields_of d2 < fields_of d1" by fastforce
    then show False
      using l dt_seconds_fields [OF assms] dt_seconds_less [OF assms(2,1)] by cases auto
  qed
qed (rule dt_seconds_less [OF assms])

lemma dt_seconds_le_fields:
  assumes "datetime_valid d1" "datetime_valid d2" "dt_seconds d1 \<le> dt_seconds d2"
  shows "fields_of d1 \<le> fields_of d2"
  using dt_seconds_less_iff [OF assms(2,1)] assms(3) by (simp add: not_less [symmetric])

lemma render_fields_le:
  assumes "fields_bounded f1" "fields_bounded f2" "f1 \<le> f2"
  shows "render_fields f1 \<le> render_fields f2"
  using render_fields_less [OF assms(2,1)] assms(3) by (simp add: not_less [symmetric])

subsection \<open>Properties of the timestamp\<close>

text \<open>
  C31. \<^verbatim>\<open>strftime("%Y-%m-%d %H:%M:%S")\<close>, the format-string interpreter with its range
  checks, computes the reference rendering of the six fields of every valid
  \<^verbatim>\<open>datetime\<close>, and never raises on one.
\<close>

theorem strftime_equals_reference:
  assumes "datetime_valid dt"
  shows "strftime dt timestamp_format = Inr (render_fields (fields_of dt))"
  using strftime_valid [OF assms] by simp

lemma strftime_equals_reference_witness:
  "datetime_valid \<lparr>year = 999, month = 2, day = 28, hour = 0, minute = 5, second = 9, microsecond = 0\<rparr> \<and>
   strftime \<lparr>year = 999, month = 2, day = 28, hour = 0, minute = 5, second = 9, microsecond = 0\<rparr>
     timestamp_format = Inr ''0999-02-28 00:05:09''"
proof -
  have v: "datetime_valid \<lparr>year = 999, month = 2, day = 28, hour = 0, minute = 5, second = 9, microsecond = 0\<rparr>"
    by code_simp
  have r: "render_fields (fields_of \<lparr>year = 999, month = 2, day = 28, hour = 0, minute = 5, second = 9,
             microsecond = 0\<rparr>) = ''0999-02-28 00:05:09''"
    by code_simp
  show ?thesis using strftime_equals_reference [OF v] v r by simp
qed

text \<open>
  C32. The timestamps of two valid date-times compare as strings exactly as the
  date-times compare in time.
\<close>

theorem timestamps_sort_chronologically:
  assumes "datetime_valid d1" "datetime_valid d2"
    and "strftime d1 timestamp_format = Inr ts1" "strftime d2 timestamp_format = Inr ts2"
  shows "ts1 < ts2 \<longleftrightarrow> dt_seconds d1 < dt_seconds d2"
  using render_fields_less dt_seconds_less_iff [OF assms(1,2)] strftime_valid [OF assms(1)]
    strftime_valid [OF assms(2)] assms(3,4) by auto

lemma timestamps_sort_chronologically_witness:
  "datetime_valid \<lparr>year = 2023, month = 12, day = 31, hour = 23, minute = 59, second = 59, microsecond = 0\<rparr> \<and>
   datetime_valid \<lparr>year = 2024, month = 1, day = 1, hour = 0, minute = 0, second = 0, microsecond = 0\<rparr> \<and>
   strftime \<lparr>year = 2023, month = 12, day = 31, hour = 23, minute = 59, second = 59, microsecond = 0\<rparr>
     timestamp_format = Inr ''2023-12-31 23:59:59'' \<and>
   strftime \<lparr>year = 2024, month = 1, day = 1, hour = 0, minute = 0, second = 0, microsecond = 0\<rparr>
     timestamp_format = Inr ''2024-01-01 00:00:00'' \<and>
   (''2023-12-31 23:59:59'' < ''2024-01-01 00:00:00'' \<longleftrightarrow>
    dt_seconds \<lparr>year = 2023, month = 12, day = 31, hour = 23, minute = 59, second = 59, microsecond = 0\<rparr>
      < dt_seconds \<lparr>year = 2024, month = 1, day = 1, hour = 0, minute = 0, second = 0, microsecond = 0\<rparr>)"
proof -
  have v1: "datetime_valid \<lparr>year = 2023, month = 12, day = 31, hour = 23, minute = 59, second = 59, microsecond = 0\<rparr>"
    and v2: "datetime_valid \<lparr>year = 2024, month = 1, day = 1, hour = 0, minute = 0, second = 0, microsecond = 0\<rparr>"
    and s1: "strftime \<lparr>year = 2023, month = 12, day = 31, hour = 23, minute = 59, second = 59, microsecond = 0\<rparr>
               timestamp_format = Inr ''2023-12-31 23:59:59''"
    and s2: "strftime \<lparr>year = 2024, month = 1, day = 1, hour = 0, minute = 0, second = 0, microsecond = 0\<rparr>
               timestamp_format = Inr ''2024-01-01 00:00:00''"
    by code_simp+
  show ?thesis using timestamps_sort_chronologically [OF v1 v2 s1 s2] v1 v2 s1 s2 by blast
qed

end
