(* ===== verification/Json.thy ===== *)
theory Json
  imports Prelude "HOL-Library.Monad_Syntax"
begin

text \<open>
  \<^verbatim>\<open>jsonify({...})\<close> of src/app.py, lines 13--16. Flask's \<^verbatim>\<open>DefaultJSONProvider\<close>
  serialises with \<^verbatim>\<open>json.dumps(obj, ensure_ascii=True, sort_keys=True,
  separators=(",", ":"))\<close> when the app is not in debug mode (line 19 runs it with
  \<^verbatim>\<open>debug=False\<close>), appends a newline, and answers with mimetype
  \<^verbatim>\<open>application/json\<close>. The Python values that reach the encoder are a datatype;
  a dictionary is an association list in insertion order. Strings are escaped as
  CPython's \<^verbatim>\<open>ascii_escape_unichar\<close> does; characters are the code points 0--255.
  A decoder for JSON string literals shows that the escaping loses nothing.
\<close>

subsection \<open>Python values and their JSON text\<close>

datatype pyobj =
    PyNone
  | PyBool bool
  | PyInt int
  | PyStr string
  | PyList "pyobj list"
  | PyDict "(string \<times> pyobj) list"

definition hex_digit :: "nat \<Rightarrow> char" where
  "hex_digit d = (if d < 10 then char_of (48 + d) else char_of (87 + d))"

text \<open>\<^verbatim>\<open>\\uXXXX\<close> with \<^verbatim>\<open>Py_hexdigits\<close>, which are lower case.\<close>

definition hex4 :: "nat \<Rightarrow> string" where
  "hex4 n = [hex_digit (n div 4096 mod 16), hex_digit (n div 256 mod 16),
             hex_digit (n div 16 mod 16), hex_digit (n mod 16)]"

text \<open>\<^verbatim>\<open>S_CHAR(c)\<close>: printable ASCII other than backslash and double quote.\<close>

definition s_char :: "char \<Rightarrow> bool" where
  "s_char c \<longleftrightarrow> CHR '' '' \<le> c \<and> c \<le> CHR ''~'' \<and> c \<noteq> CHR 0x5C \<and> c \<noteq> CHR 0x22"

definition ascii_escape_unichar :: "char \<Rightarrow> string" where
  "ascii_escape_unichar c =
     CHR 0x5C #
       (if c = CHR 0x5C then [CHR 0x5C]
        else if c = CHR 0x22 then [CHR 0x22]
        else if c = CHR 0x08 then ''b''
        else if c = CHR 0x0C then ''f''
        else if c = CHR 0x0A then ''n''
        else if c = CHR 0x0D then ''r''
        else if c = CHR 0x09 then ''t''
        else CHR ''u'' # hex4 (of_char c))"

definition escape_char :: "char \<Rightarrow> string" where
  "escape_char c = (if s_char c then [c] else ascii_escape_unichar c)"

text \<open>\<^verbatim>\<open>py_encode_basestring_ascii\<close>: the string between double quotes.\<close>

definition encode_basestring_ascii :: "string \<Rightarrow> string" where
  "encode_basestring_ascii s = CHR 0x22 # concat (map escape_char s) @ [CHR 0x22]"

text \<open>\<^verbatim>\<open>int.__repr__\<close>.\<close>

definition show_int :: "int \<Rightarrow> string" where
  "show_int i = (if i < 0 then CHR ''-'' # show_nat (nat (- i)) else show_nat (nat i))"

text \<open>
  The encoder of \<^verbatim>\<open>json.dumps\<close> with \<^verbatim>\<open>sort_keys=True\<close> and the separators
  \<^verbatim>\<open>","\<close> and \<^verbatim>\<open>":"\<close>: a dictionary's items are \<^verbatim>\<open>sorted(dct.items())\<close>,
  that is by key, keys being distinct.
\<close>

function dumps :: "pyobj \<Rightarrow> string" where
  "dumps PyNone = ''null''"
| "dumps (PyBool b) = (if b then ''true'' else ''false'')"
| "dumps (PyInt i) = show_int i"
| "dumps (PyStr s) = encode_basestring_ascii s"
| "dumps (PyList xs) = CHR ''['' # py_join '','' (map dumps xs) @ '']''"
| "dumps (PyDict kvs) =
     CHR ''{'' # py_join '',''
       (map (\<lambda>(k, v). encode_basestring_ascii k @ CHR '':'' # dumps v) (sort_key fst kvs)) @ ''}''"
  by pat_completeness auto
termination
proof (relation "measure size")
  show "wf (measure size)" by simp
next
  fix xs :: "pyobj list" and x
  assume "x \<in> set xs"
  then show "(x, PyList xs) \<in> measure size" by (induction xs) auto
next
  fix kvs :: "(string \<times> pyobj) list" and kv k v
  assume "kv \<in> set (sort_key fst kvs)" and "(k, v) = kv"
  then have "(k, v) \<in> set kvs" by simp
  then show "(v, PyDict kvs) \<in> measure size" by (induction kvs) auto
qed

text \<open>Flask appends a newline to the serialised value.\<close>

definition jsonify_body :: "pyobj \<Rightarrow> string" where
  "jsonify_body obj = dumps obj @ ''\<newline>''"

subsection \<open>Decoding a JSON string literal\<close>

definition hex_val :: "char \<Rightarrow> nat option" where
  "hex_val c =
     (let n = of_char c
      in if 48 \<le> n \<and> n < 58 then Some (n - 48)
         else if 97 \<le> n \<and> n < 103 then Some (n - 87)
         else if 65 \<le> n \<and> n < 71 then Some (n - 55)
         else None)"

definition simple_escape :: "char \<Rightarrow> char option" where
  "simple_escape e =
     (if e = CHR 0x5C \<or> e = CHR 0x22 \<or> e = CHR ''/'' then Some e
      else if e = CHR ''b'' then Some (CHR 0x08)
      else if e = CHR ''f'' then Some (CHR 0x0C)
      else if e = CHR ''n'' then Some (CHR 0x0A)
      else if e = CHR ''r'' then Some (CHR 0x0D)
      else if e = CHR ''t'' then Some (CHR 0x09)
      else None)"

text \<open>
  The body of a string literal (between the quotes), as a JSON decoder reads it;
  \<open>None\<close> for an ill-formed body. A \<^verbatim>\<open>\\u\<close> escape beyond the code points
  0--255 is outside the character model and refused.
\<close>

fun json_unescape :: "string \<Rightarrow> string option"
  and unescape_seq :: "string \<Rightarrow> string option" where
  "json_unescape [] = Some []"
| "json_unescape (c # s) =
     (if c = CHR 0x5C then unescape_seq s
      else if c = CHR 0x22 \<or> of_char c < (32::nat) then None
      else map_option (Cons c) (json_unescape s))"
| "unescape_seq (e # a # b # c # d # s) =
     (if e = CHR ''u'' then
        (case (hex_val a, hex_val b, hex_val c, hex_val d) of
           (Some x, Some y, Some z, Some w) \<Rightarrow>
             (let n = 4096 * x + 256 * y + 16 * z + w
              in if n < 256 then map_option (Cons (char_of n)) (json_unescape s) else None)
         | _ \<Rightarrow> None)
      else (case simple_escape e of None \<Rightarrow> None
            | Some e' \<Rightarrow> map_option (Cons e') (json_unescape (a # b # c # d # s))))"
| "unescape_seq (e # s) =
     (if e = CHR ''u'' then None
      else (case simple_escape e of None \<Rightarrow> None | Some e' \<Rightarrow> map_option (Cons e') (json_unescape s)))"
| "unescape_seq [] = None"

subsection \<open>Escaping loses nothing\<close>

lemma hex_val_digit [simp]: "d < 16 \<Longrightarrow> hex_val (hex_digit d) = Some d"
  by (auto simp: hex_val_def hex_digit_def Let_def)

lemma hex4_small:
  assumes "n < 256"
  shows "hex4 n = [hex_digit 0, hex_digit 0, hex_digit (n div 16), hex_digit (n mod 16)]"
    and "16 * (n div 16) + n mod 16 = n" "n div 16 < 16"
  using assms by (simp_all add: hex4_def div_less less_mult_imp_div_less)

lemma unescape_seq_simple:
  "e \<noteq> CHR ''u'' \<Longrightarrow>
   unescape_seq (e # s) =
     (case simple_escape e of None \<Rightarrow> None | Some e' \<Rightarrow> map_option (Cons e') (json_unescape s))"
  by (cases "e # s" rule: unescape_seq.cases) auto

lemma unescape_escape_char:
  "json_unescape (escape_char c @ rest) = map_option (Cons c) (json_unescape rest)"
proof (cases "s_char c")
  case True
  then have "c \<noteq> CHR 0x5C" "c \<noteq> CHR 0x22" "\<not> of_char c < (32::nat)"
    by (auto simp: s_char_def less_eq_char_def)
  with True show ?thesis by (simp add: escape_char_def)
next
  case False
  define n where "n = (of_char c :: nat)"
  have n: "n < 256" "char_of n = c" by (simp_all add: n_def)
  have u: "json_unescape (escape_char c @ rest) = unescape_seq (tl (ascii_escape_unichar c) @ rest)"
    using False by (simp add: escape_char_def ascii_escape_unichar_def)
  show ?thesis
  proof (cases "c = CHR 0x5C \<or> c = CHR 0x22 \<or> c = CHR 0x08 \<or> c = CHR 0x0C \<or> c = CHR 0x0A \<or>
                c = CHR 0x0D \<or> c = CHR 0x09")
    case True
    then show ?thesis
      using u by (auto simp: ascii_escape_unichar_def unescape_seq_simple simple_escape_def)
  next
    case other: False
    have "tl (ascii_escape_unichar c) @ rest = CHR ''u'' # hex4 n @ rest"
      using other by (simp add: ascii_escape_unichar_def n_def)
    then show ?thesis
      using u hex4_small [OF n(1)] n by (simp add: Let_def)
  qed
qed

text \<open>
  C30. The escaping of \<^verbatim>\<open>json.dumps(..., ensure_ascii=True)\<close> loses nothing: a
  JSON decoder reading the escaped characters of any string gets the string back.
\<close>

theorem json_string_roundtrip: "json_unescape (concat (map escape_char s)) = Some s"
  by (induction s) (simp_all add: unescape_escape_char)

lemma escape_plain: "\<forall>c \<in> set s. s_char c \<Longrightarrow> concat (map escape_char s) = s"
  by (induction s) (simp_all add: escape_char_def)

subsection \<open>The output is ASCII\<close>

abbreviation ascii_text :: "string \<Rightarrow> bool" where
  "ascii_text s \<equiv> list_all (\<lambda>c. of_char c < (128::nat)) s"

lemma hex_digit_ascii: "d < 16 \<Longrightarrow> of_char (hex_digit d) < (128::nat)"
  by (simp add: hex_digit_def)

lemma escape_char_ascii: "ascii_text (escape_char c)"
proof (cases "s_char c")
  case True
  then have "c \<le> CHR ''~''" by (simp add: s_char_def)
  then show ?thesis using True by (simp add: escape_char_def less_eq_char_def)
next
  case False
  then show ?thesis
    by (simp add: escape_char_def ascii_escape_unichar_def hex4_def hex_digit_ascii)
qed

lemma digit_char_ascii: "d < 10 \<Longrightarrow> of_char (digit_char d) < (128::nat)"
  by (simp add: digit_char_def)

lemma show_nat_ascii: "ascii_text (show_nat n)"
  by (induction n rule: show_nat.induct) (simp add: show_nat.simps digit_char_ascii)

lemma py_join_ascii: "ascii_text sep \<Longrightarrow> list_all ascii_text xs \<Longrightarrow> ascii_text (py_join sep xs)"
  by (induction sep xs rule: py_join.induct) simp_all

lemma encode_basestring_ascii_ascii: "ascii_text (encode_basestring_ascii s)"
  by (induction s) (simp_all add: encode_basestring_ascii_def escape_char_ascii)

text \<open>
  C29. With \<^verbatim>\<open>ensure_ascii=True\<close> the body \<^verbatim>\<open>jsonify\<close> sends is pure ASCII, whatever
  the value serialised: every character is below code point 128.
\<close>

theorem jsonify_body_ascii: "ascii_text (jsonify_body obj)"
proof -
  have "ascii_text (dumps obj)"
  proof (induction obj rule: dumps.induct)
    case (5 xs)
    then show ?case using py_join_ascii [of "'',''" "map dumps xs"] by (simp add: list_all_iff)
  next
    case (6 kvs)
    have item: "ascii_text (encode_basestring_ascii k @ CHR '':'' # dumps v)" if "(k, v) \<in> set kvs" for k v
      using 6 that by (simp add: encode_basestring_ascii_ascii)
    have "list_all ascii_text (map (\<lambda>(k, v). encode_basestring_ascii k @ CHR '':'' # dumps v) (sort_key fst kvs))"
      using item by (auto simp: list_all_iff [of ascii_text])
    then show ?case by (simp add: py_join_ascii)
  qed (simp_all add: show_int_def show_nat_ascii encode_basestring_ascii_ascii)
  then show ?thesis by (simp add: jsonify_body_def)
qed

end
