(* ===== verification/Flask_App.thy ===== *)
theory Flask_App
  imports Strftime Json
begin

text \<open>
  src/app.py itself: the Flask application object (line 4), the two routes its
  decorators register (lines 6 and 10), the views \<^verbatim>\<open>index\<close> (lines 7--8) and
  \<^verbatim>\<open>update_data\<close> (lines 11--16), and the request handling Flask and Werkzeug wrap
  around them: URL matching (404 for an unknown path, 405 for a method the route does
  not accept), the automatic \<^verbatim>\<open>OPTIONS\<close> answer, \<^verbatim>\<open>HEAD\<close> served by the
  \<^verbatim>\<open>GET\<close> view with the body dropped, and an exception in a view answered with 500
  (\<^verbatim>\<open>debug=False\<close>, line 19). A request is handled with the clock reading and
  the zone of the moment it is handled; the app object holds no other state.
\<close>

subsection \<open>Requests and responses\<close>

datatype http_method = GET | HEAD | POST | PUT | DELETE | PATCH | OPTIONS

record request =
  req_method :: http_method
  req_path :: string
  req_body :: string

text \<open>
  A response: status code, mimetype, body, and the methods of the \<^verbatim>\<open>Allow\<close> header
  when there is one. Werkzeug builds that header from a Python \<^verbatim>\<open>set\<close>, so the
  order of the methods in it is not determined; it is a set here.
\<close>

record response =
  status :: nat
  mimetype :: string
  body :: string
  allow :: "http_method set option"

text \<open>The body of a Werkzeug \<^verbatim>\<open>HTTPException\<close> (\<^verbatim>\<open>get_body\<close>).\<close>

definition error_page :: "nat \<Rightarrow> string \<Rightarrow> string \<Rightarrow> string" where
  "error_page code name description =
     ''<!doctype html>\<newline><html lang=en>\<newline><title>'' @ show_nat code @ '' '' @ name @
     ''</title>\<newline><h1>'' @ name @ ''</h1>\<newline><p>'' @ description @ ''</p>\<newline>''"

definition not_found :: response where
  "not_found = \<lparr>status = 404, mimetype = ''text/html'',
     body = error_page 404 ''Not Found''
       (''The requested URL was not found on the server. If you entered the URL manually '' @
        ''please check your spelling and try again.''),
     allow = None\<rparr>"

definition method_not_allowed :: "http_method set \<Rightarrow> response" where
  "method_not_allowed ms = \<lparr>status = 405, mimetype = ''text/html'',
     body = error_page 405 ''Method Not Allowed'' ''The method is not allowed for the requested URL.'',
     allow = Some ms\<rparr>"

definition internal_server_error :: response where
  "internal_server_error = \<lparr>status = 500, mimetype = ''text/html'',
     body = error_page 500 ''Internal Server Error''
       (''The server encountered an internal error and was unable to complete your request. '' @
        ''Either the server is overloaded or there is an error in the application.''),
     allow = None\<rparr>"

text \<open>
  \<^verbatim>\<open>jsonify\<close>: \<^verbatim>\<open>response_class(f"{dumps(obj)}\n", mimetype="application/json")\<close>,
  status 200.
\<close>

definition jsonify :: "pyobj \<Rightarrow> response" where
  "jsonify obj = \<lparr>status = 200, mimetype = ''application/json'', body = jsonify_body obj, allow = None\<rparr>"

text \<open>A view that returns a string: \<^verbatim>\<open>make_response\<close> gives status 200 and \<^verbatim>\<open>text/html\<close>.\<close>

definition html_response :: "string \<Rightarrow> response" where
  "html_response s = \<lparr>status = 200, mimetype = ''text/html'', body = s, allow = None\<rparr>"

subsection \<open>The application object and its routes\<close>

datatype endpoint = Index | UpdateData

record url_rule =
  rule_path :: string
  rule_endpoint :: endpoint
  rule_methods :: "http_method set"

text \<open>
  The application: its URL map, and the Jinja environment (the template sources its
  loader finds, and the rendering of a template source with the default context).
\<close>

record flask_app =
  url_map :: "url_rule list"
  templates :: "string \<rightharpoonup> string"
  render :: "string \<Rightarrow> string"

text \<open>\<^verbatim>\<open>app = Flask(__name__)\<close>: no routes yet.\<close>

definition Flask :: "(string \<rightharpoonup> string) \<Rightarrow> (string \<Rightarrow> string) \<Rightarrow> flask_app" where
  "Flask tmpl rnd = \<lparr>url_map = [], templates = tmpl, render = rnd\<rparr>"

text \<open>
  \<^verbatim>\<open>@app.route(path, methods=...)\<close> = \<^verbatim>\<open>add_url_rule\<close>: the methods default to
  \<^verbatim>\<open>GET\<close>; Flask adds \<^verbatim>\<open>OPTIONS\<close> (answered automatically) and Werkzeug's rule
  adds \<^verbatim>\<open>HEAD\<close> when \<^verbatim>\<open>GET\<close> is there.
\<close>

definition rule_methods_of :: "http_method set \<Rightarrow> http_method set" where
  "rule_methods_of ms = ms \<union> {OPTIONS} \<union> (if GET \<in> ms then {HEAD} else {})"

definition route :: "string \<Rightarrow> http_method set \<Rightarrow> endpoint \<Rightarrow> flask_app \<Rightarrow> flask_app" where
  "route path ms ep app =
     app\<lparr>url_map := url_map app @ [\<lparr>rule_path = path, rule_endpoint = ep,
                                    rule_methods = rule_methods_of ms\<rparr>]\<rparr>"

text \<open>Lines 4--16 run at import: the app and its two routes, in the order of the source.\<close>

definition app :: "(string \<rightharpoonup> string) \<Rightarrow> (string \<Rightarrow> string) \<Rightarrow> flask_app" where
  "app tmpl rnd = route ''/update'' {POST} UpdateData (route ''/'' {GET} Index (Flask tmpl rnd))"

subsection \<open>The views\<close>

text \<open>\<^verbatim>\<open>render_template(name)\<close>: \<^verbatim>\<open>TemplateNotFound\<close> when the loader has no such template.\<close>

definition render_template :: "flask_app \<Rightarrow> string \<Rightarrow> string py_result" where
  "render_template a name =
     (case templates a name of
        None \<Rightarrow> Inl (TemplateNotFound name)
      | Some src \<Rightarrow> Inr (render a src))"

text \<open>\<^verbatim>\<open>def index(): return render_template('index.html')\<close>\<close>

definition index :: "flask_app \<Rightarrow> response py_result" where
  "index a = (case render_template a ''index.html'' of
                Inl e \<Rightarrow> Inl e
              | Inr s \<Rightarrow> Inr (html_response s))"

text \<open>
  \<^verbatim>\<open>def update_data(): current_time = datetime.now().strftime("%Y-%m-%d %H:%M:%S");
  return jsonify({'status': 'success', 'message': f'Data updated at {current_time}'})\<close>
\<close>

definition update_message :: "string \<Rightarrow> string" where
  "update_message current_time = ''Data updated at '' @ current_time"

definition update_data :: "(int \<Rightarrow> int) \<Rightarrow> timespec \<Rightarrow> response py_result" where
  "update_data gmtoff clock =
     (case datetime_now gmtoff clock of
        Inl e \<Rightarrow> Inl e
      | Inr now \<Rightarrow>
          (case strftime now timestamp_format of
             Inl e \<Rightarrow> Inl e
           | Inr current_time \<Rightarrow>
               Inr (jsonify (PyDict [(''status'', PyStr ''success''),
                                     (''message'', PyStr (update_message current_time))]))))"

subsection \<open>Dispatch\<close>

text \<open>The environment of one request: the zone and the clock reading when it is handled.\<close>

record env =
  env_gmtoff :: "int \<Rightarrow> int"
  env_clock :: timespec

definition view_function :: "flask_app \<Rightarrow> env \<Rightarrow> endpoint \<Rightarrow> response py_result" where
  "view_function a e ep =
     (case ep of Index \<Rightarrow> index a | UpdateData \<Rightarrow> update_data (env_gmtoff e) (env_clock e))"

text \<open>
  Werkzeug's matcher: the rules whose path is the request's path; the first of them that
  accepts the method, else \<^verbatim>\<open>MethodNotAllowed\<close> with the methods they accept, else
  \<^verbatim>\<open>NotFound\<close>.
\<close>

datatype match_result = Matched url_rule | NotAllowed "http_method set" | NoMatch

definition match_request :: "url_rule list \<Rightarrow> request \<Rightarrow> match_result" where
  "match_request rules req =
     (let candidates = filter (\<lambda>r. rule_path r = req_path req) rules
      in case filter (\<lambda>r. req_method req \<in> rule_methods r) candidates of
           r # _ \<Rightarrow> Matched r
         | [] \<Rightarrow> if candidates = [] then NoMatch
                 else NotAllowed (\<Union>r \<in> set candidates. rule_methods r))"

text \<open>
  \<^verbatim>\<open>full_dispatch_request\<close>: the automatic \<^verbatim>\<open>OPTIONS\<close> response (status 200, the
  URL's methods in \<^verbatim>\<open>Allow\<close>, no body), the view otherwise; an exception becomes 500.
\<close>

definition dispatch_request :: "flask_app \<Rightarrow> env \<Rightarrow> request \<Rightarrow> response" where
  "dispatch_request a e req =
     (case match_request (url_map a) req of
        NoMatch \<Rightarrow> not_found
      | NotAllowed ms \<Rightarrow> method_not_allowed ms
      | Matched r \<Rightarrow>
          if req_method req = OPTIONS then
            \<lparr>status = 200, mimetype = ''text/html'', body = [],
             allow = Some (\<Union>r' \<in> set (filter (\<lambda>r'. rule_path r' = req_path req) (url_map a)).
                             rule_methods r')\<rparr>
          else (case view_function a e (rule_endpoint r) of
                  Inl _ \<Rightarrow> internal_server_error
                | Inr resp \<Rightarrow> resp))"

text \<open>What the client receives: the body of a \<^verbatim>\<open>HEAD\<close> response is not sent.\<close>

definition handle :: "flask_app \<Rightarrow> env \<Rightarrow> request \<Rightarrow> response" where
  "handle a e req =
     (let resp = dispatch_request a e req
      in if req_method req = HEAD then resp\<lparr>body := []\<rparr> else resp)"

subsection \<open>Running the module\<close>

text \<open>
  \<^verbatim>\<open>if __name__ == '__main__': app.run(host='0.0.0.0', port=5000, debug=False)\<close>:
  the server's configuration, when the module is the main program.
\<close>

record run_config =
  run_host :: string
  run_port :: nat
  run_debug :: bool

definition main :: "string \<Rightarrow> run_config option" where
  "main module_name =
     (if module_name = ''__main__'' then Some \<lparr>run_host = ''0.0.0.0'', run_port = 5000, run_debug = False\<rparr>
      else None)"

subsection \<open>Routing and the views, request by request\<close>

lemma app_url_map:
  "url_map (app tmpl rnd) =
     [\<lparr>rule_path = ''/'', rule_endpoint = Index, rule_methods = {GET, HEAD, OPTIONS}\<rparr>,
      \<lparr>rule_path = ''/update'', rule_endpoint = UpdateData, rule_methods = {POST, OPTIONS}\<rparr>]"
  by (auto simp: app_def route_def Flask_def rule_methods_of_def)

lemma app_env: "templates (app tmpl rnd) = tmpl" "render (app tmpl rnd) = rnd"
  by (simp_all add: app_def route_def Flask_def)

lemmas dispatch_simps [http_simps] = handle_def dispatch_request_def app_url_map match_request_def view_function_def

lemma handle_update:
  "handle (app tmpl rnd) e \<lparr>req_method = POST, req_path = ''/update'', req_body = b\<rparr> =
   (case update_data (env_gmtoff e) (env_clock e) of Inl _ \<Rightarrow> internal_server_error | Inr r \<Rightarrow> r)"
  by (simp add: dispatch_simps)

lemma s_char_digit: "d < 10 \<Longrightarrow> s_char (digit_char d)"
proof -
  assume d: "d < 10"
  have o: "(of_char (digit_char d) :: nat) = 48 + d" using d by (simp add: digit_char_def)
  have "digit_char d \<noteq> CHR 0x5C" "digit_char d \<noteq> CHR 0x22"
    using o d by (auto dest: arg_cong [where f = "of_char :: char \<Rightarrow> nat"])
  with o d show ?thesis by (simp add: s_char_def less_eq_char_def)
qed

lemma fixed_digits_s_char: "\<forall>c \<in> set (fixed_digits w n). s_char c"
  by (induction w arbitrary: n) (simp_all add: s_char_digit)

lemma render_fields_s_char: "\<forall>c \<in> set (update_message (render_fields f)). s_char c"
proof -
  have lit: "\<forall>c \<in> set (''Data updated at '' @ ''-: ''). s_char c"
    by (simp add: s_char_def less_eq_char_def)
  show ?thesis
    using lit fixed_digits_s_char by (cases f) (auto simp: update_message_def render_fields_def)
qed

lemma update_data_Inr:
  assumes "datetime_now gmtoff clock = Inr now"
  shows "datetime_valid now \<and>
         update_data gmtoff clock =
           Inr (jsonify (PyDict [(''status'', PyStr ''success''),
                                 (''message'', PyStr (update_message (render_fields (fields_of now))))]))"
proof -
  obtain ns where ns: "pytime_from_timespec clock = Inr ns"
    using assms by (cases "pytime_from_timespec clock") (simp_all add: datetime_now_def)
  have v: "datetime_valid now" using datetime_now_sound [OF ns assms] by simp
  with strftime_valid [OF v] assms show ?thesis by (simp add: update_data_def)
qed

text \<open>
  C1. \<^verbatim>\<open>POST /update\<close> answers 200 with mimetype \<^verbatim>\<open>application/json\<close> and the body
  \<^verbatim>\<open>{"message":"Data updated at <time>","status":"success"}\<close> and a newline (keys sorted,
  no spaces), where the time is the local date and time read by \<^verbatim>\<open>datetime.now()\<close>
  rendered as \<^verbatim>\<open>%Y-%m-%d %H:%M:%S\<close>; the request body is not read.
\<close>

theorem update_response:
  assumes "datetime_now (env_gmtoff e) (env_clock e) = Inr now"
  shows "handle (app tmpl rnd) e \<lparr>req_method = POST, req_path = ''/update'', req_body = b\<rparr> =
    \<lparr>status = 200, mimetype = ''application/json'',
     body = CHR ''{'' # CHR 0x22 # ''message'' @ CHR 0x22 # CHR '':'' # CHR 0x22 #
            ''Data updated at '' @ render_fields (fields_of now) @
            CHR 0x22 # CHR '','' # CHR 0x22 # ''status'' @ CHR 0x22 # CHR '':'' #
            CHR 0x22 # ''success'' @ CHR 0x22 # ''}\<newline>'',
     allow = None\<rparr>"
proof -
  have esc: "concat (map escape_char (update_message (render_fields (fields_of now)))) =
             update_message (render_fields (fields_of now))"
    by (rule escape_plain [OF render_fields_s_char])
  show ?thesis
    using update_data_Inr [OF assms] esc
    by (simp add: handle_update jsonify_def jsonify_body_def encode_basestring_ascii_def
        escape_char_def s_char_def less_eq_char_def update_message_def)
qed

lemma update_message_order:
  "update_message x < update_message y \<longleftrightarrow> x < y"
  "update_message x \<le> update_message y \<longleftrightarrow> x \<le> y"
  unfolding update_message_def by (rule append_less_same_prefix append_le_same_prefix)+

lemma update_handled:
  assumes "pytime_from_timespec (env_clock e) = Inr ns"
    and "\<bar>env_gmtoff e (ns div 1000000000)\<bar> \<le> 93599"
  shows "\<exists>now. datetime_valid now \<and> dt_seconds now = ns div 1000000000 + env_gmtoff e (ns div 1000000000) \<and>
     handle (app tmpl rnd) e \<lparr>req_method = POST, req_path = ''/update'', req_body = b\<rparr> =
       jsonify (PyDict [(''status'', PyStr ''success''),
                        (''message'', PyStr (update_message (render_fields (fields_of now))))])"
proof -
  obtain now where now: "datetime_now (env_gmtoff e) (env_clock e) = Inr now"
    using datetime_now_defined [where clock = "env_clock e" and gmtoff = "env_gmtoff e", OF assms]
    by blast
  show ?thesis
    using datetime_now_sound [OF assms(1) now] update_data_Inr [OF now]
    by (intro exI [of _ now]) (simp add: handle_update)
qed

text \<open>
  Two updates handled at readings whose zone offsets agree: the later second gives a
  message that is not smaller, and a strictly later second a strictly larger one.
\<close>

lemma update_messages_order:
  assumes ns1: "pytime_from_timespec (env_clock e1) = Inr ns1"
    and ns2: "pytime_from_timespec (env_clock e2) = Inr ns2"
    and off: "env_gmtoff e2 (ns2 div 1000000000) = env_gmtoff e1 (ns1 div 1000000000)"
    and day: "\<bar>env_gmtoff e1 (ns1 div 1000000000)\<bar> \<le> 93599"
  shows "\<exists>m1 m2.
     handle (app tmpl rnd) e1 \<lparr>req_method = POST, req_path = ''/update'', req_body = ba\<rparr> =
       jsonify (PyDict [(''status'', PyStr ''success''), (''message'', PyStr m1)]) \<and>
     handle (app tmpl rnd) e2 \<lparr>req_method = POST, req_path = ''/update'', req_body = bb\<rparr> =
       jsonify (PyDict [(''status'', PyStr ''success''), (''message'', PyStr m2)]) \<and>
     (ns1 div 1000000000 < ns2 div 1000000000 \<longrightarrow> m1 < m2) \<and>
     (ns1 div 1000000000 \<le> ns2 div 1000000000 \<longrightarrow> m1 \<le> m2)"
proof -
  obtain now1 where n1: "datetime_valid now1"
      "dt_seconds now1 = ns1 div 1000000000 + env_gmtoff e1 (ns1 div 1000000000)"
      "handle (app tmpl rnd) e1 \<lparr>req_method = POST, req_path = ''/update'', req_body = ba\<rparr> =
       jsonify (PyDict [(''status'', PyStr ''success''),
                        (''message'', PyStr (update_message (render_fields (fields_of now1))))])"
    using update_handled [OF ns1 day] by blast
  have day2: "\<bar>env_gmtoff e2 (ns2 div 1000000000)\<bar> \<le> 93599" using off day by simp
  obtain now2 where n2: "datetime_valid now2"
      "dt_seconds now2 = ns2 div 1000000000 + env_gmtoff e1 (ns1 div 1000000000)"
      "handle (app tmpl rnd) e2 \<lparr>req_method = POST, req_path = ''/update'', req_body = bb\<rparr> =
       jsonify (PyDict [(''status'', PyStr ''success''),
                        (''message'', PyStr (update_message (render_fields (fields_of now2))))])"
    using update_handled [OF ns2 day2, where tmpl = tmpl and rnd = rnd and b = bb] off by auto
  have b1: "fields_bounded (fields_of now1)" and b2: "fields_bounded (fields_of now2)"
    using strftime_valid [OF n1(1)] strftime_valid [OF n2(1)] by simp_all
  have lt: "render_fields (fields_of now1) < render_fields (fields_of now2)"
    if "ns1 div 1000000000 < ns2 div 1000000000"
  proof -
    have "fields_of now1 < fields_of now2"
      using dt_seconds_less_iff [OF n1(1) n2(1)] n1(2) n2(2) that by simp
    then show ?thesis using render_fields_less [OF b1 b2] by simp
  qed
  have le: "render_fields (fields_of now1) \<le> render_fields (fields_of now2)"
    if "ns1 div 1000000000 \<le> ns2 div 1000000000"
    using n1(1,2) n2(1,2) that by (intro render_fields_le [OF b1 b2] dt_seconds_le_fields) simp_all
  show ?thesis
    using n1(3) n2(3) lt le update_message_order by blast
qed

text \<open>
  C2. Whenever the clock reading converts to nanoseconds and the zone offset is at most
  25:59:59, \<^verbatim>\<open>POST /update\<close> succeeds, and its message carries a timestamp that matches
  \<^verbatim>\<open>\d{4}-\d{2}-\d{2} \d{2}:\d{2}:\d{2}\<close>, parses back to the fields of a valid date
  and time, and that date and time is the reading's second shifted by the zone offset.
\<close>

theorem update_timestamp_local:
  assumes "pytime_from_timespec (env_clock e) = Inr ns"
    and "\<bar>env_gmtoff e (ns div 1000000000)\<bar> \<le> 93599"
  shows "\<exists>now ts.
     handle (app tmpl rnd) e \<lparr>req_method = POST, req_path = ''/update'', req_body = b\<rparr> =
       jsonify (PyDict [(''status'', PyStr ''success''), (''message'', PyStr (''Data updated at '' @ ts))]) \<and>
     matches_timestamp_pattern ts \<and> parse_timestamp ts = Some (fields_of now) \<and>
     datetime_valid now \<and>
     dt_seconds now = ns div 1000000000 + env_gmtoff e (ns div 1000000000)"
proof -
  obtain now where n: "datetime_valid now"
      "dt_seconds now = ns div 1000000000 + env_gmtoff e (ns div 1000000000)"
      "handle (app tmpl rnd) e \<lparr>req_method = POST, req_path = ''/update'', req_body = b\<rparr> =
       jsonify (PyDict [(''status'', PyStr ''success''),
                        (''message'', PyStr (update_message (render_fields (fields_of now))))])"
    using update_handled [OF assms] by blast
  have p: "parse_timestamp (render_fields (fields_of now)) = Some (fields_of now)"
    using parse_render strftime_valid [OF n(1)] by blast
  show ?thesis
    using n p
    by (intro exI [of _ now] exI [of _ "render_fields (fields_of now)"])
       (simp add: matches_timestamp_pattern_def update_message_def)
qed

text \<open>
  C16. A clock reading whose nanosecond count does not fit in 64 bits (after the year
  2262) makes \<^verbatim>\<open>datetime.now()\<close> raise \<^verbatim>\<open>OverflowError\<close>, and
  \<^verbatim>\<open>POST /update\<close> answers 500.
\<close>

theorem update_overflow_500:
  assumes "\<not> fits_int64 (tv_sec (env_clock e) * 1000000000 + tv_nsec (env_clock e))"
  shows "handle (app tmpl rnd) e \<lparr>req_method = POST, req_path = ''/update'', req_body = b\<rparr> =
           internal_server_error"
  using assms
  by (simp add: handle_update update_data_def datetime_now_def pytime_from_timespec_def Let_def)

text \<open>
  C17. The body of a request never changes its response: neither view reads it.
\<close>

theorem handle_ignores_body:
  "handle (app tmpl rnd) e (req\<lparr>req_body := b\<rparr>) = handle (app tmpl rnd) e req"
  by (simp add: handle_def dispatch_request_def match_request_def Let_def split: match_result.split)

text \<open>
  C6. \<^verbatim>\<open>GET /\<close> answers 200, \<^verbatim>\<open>text/html\<close>, with the rendering of
  \<^verbatim>\<open>index.html\<close> when the loader finds the template.
\<close>

theorem index_response:
  assumes "tmpl ''index.html'' = Some src"
  shows "handle (app tmpl rnd) e \<lparr>req_method = GET, req_path = ''/'', req_body = b\<rparr> =
           \<lparr>status = 200, mimetype = ''text/html'', body = rnd src, allow = None\<rparr>"
  using assms
  by (simp add: dispatch_simps index_def render_template_def html_response_def app_env)

text \<open>
  C7. Without \<^verbatim>\<open>templates/index.html\<close> the application still starts, and
  \<^verbatim>\<open>GET /\<close> answers 500 (\<^verbatim>\<open>TemplateNotFound\<close> raised in the view).
\<close>

theorem index_missing_template:
  assumes "tmpl ''index.html'' = None"
  shows "handle (app tmpl rnd) e \<lparr>req_method = GET, req_path = ''/'', req_body = b\<rparr> =
           internal_server_error"
  using assms
  by (simp add: dispatch_simps index_def render_template_def app_env)


text \<open>
  C25. Any method other than \<^verbatim>\<open>POST\<close> and \<^verbatim>\<open>OPTIONS\<close> on
  \<^verbatim>\<open>/update\<close> answers 405 with \<^verbatim>\<open>Allow: POST, OPTIONS\<close>.
\<close>

theorem update_wrong_method_405:
  assumes "m \<notin> {POST, OPTIONS}"
  shows "handle (app tmpl rnd) e \<lparr>req_method = m, req_path = ''/update'', req_body = b\<rparr> =
           (if m = HEAD then (method_not_allowed {POST, OPTIONS})\<lparr>body := []\<rparr>
            else method_not_allowed {POST, OPTIONS})"
  using assms by (simp add: dispatch_simps)

text \<open>
  C26. Any method other than \<^verbatim>\<open>GET\<close>, \<^verbatim>\<open>HEAD\<close> and
  \<^verbatim>\<open>OPTIONS\<close> on \<^verbatim>\<open>/\<close> answers 405 with \<^verbatim>\<open>Allow: GET, HEAD, OPTIONS\<close>.
\<close>

theorem index_wrong_method_405:
  assumes "m \<notin> {GET, HEAD, OPTIONS}"
  shows "handle (app tmpl rnd) e \<lparr>req_method = m, req_path = ''/'', req_body = b\<rparr> =
           method_not_allowed {GET, HEAD, OPTIONS}"
  using assms by (simp add: dispatch_simps)

text \<open>
  C27. \<^verbatim>\<open>OPTIONS\<close> on either route answers 200 with an empty body and the
  route's methods in \<^verbatim>\<open>Allow\<close>, without running the view.
\<close>

theorem options_automatic:
  assumes "p \<in> {''/'', ''/update''}"
  shows "handle (app tmpl rnd) e \<lparr>req_method = OPTIONS, req_path = p, req_body = b\<rparr> =
           \<lparr>status = 200, mimetype = ''text/html'', body = [],
            allow = Some (if p = ''/'' then {GET, HEAD, OPTIONS} else {POST, OPTIONS})\<rparr>"
  using assms by (auto simp: dispatch_simps)

text \<open>
  C28. \<^verbatim>\<open>HEAD /\<close> runs the index view and answers its status and headers
  without a body.
\<close>

theorem index_head:
  assumes "tmpl ''index.html'' = Some src"
  shows "handle (app tmpl rnd) e \<lparr>req_method = HEAD, req_path = ''/'', req_body = b\<rparr> =
           \<lparr>status = 200, mimetype = ''text/html'', body = [], allow = None\<rparr>"
  using assms
  by (simp add: dispatch_simps index_def render_template_def html_response_def app_env)


subsection \<open>Witnesses\<close>

lemma update_response_witness:
  "datetime_now (\<lambda>_. 3600) \<lparr>tv_sec = 1700000000, tv_nsec = 123456789\<rparr> =
     Inr \<lparr>year = 2023, month = 11, day = 14, hour = 23, minute = 13, second = 20, microsecond = 123456\<rparr> \<and>
   handle (app Map.empty id) \<lparr>env_gmtoff = \<lambda>_. 3600, env_clock = \<lparr>tv_sec = 1700000000, tv_nsec = 123456789\<rparr>\<rparr>
     \<lparr>req_method = POST, req_path = ''/update'', req_body = ''{}''\<rparr> =
   \<lparr>status = 200, mimetype = ''application/json'',
     body = CHR ''{'' # CHR 0x22 # ''message'' @ CHR 0x22 # CHR '':'' # CHR 0x22 #
            ''Data updated at 2023-11-14 23:13:20'' @
            CHR 0x22 # CHR '','' # CHR 0x22 # ''status'' @ CHR 0x22 # CHR '':'' #
            CHR 0x22 # ''success'' @ CHR 0x22 # ''}\<newline>'',
     allow = None\<rparr>"
proof -
  have h: "datetime_now (env_gmtoff \<lparr>env_gmtoff = \<lambda>_. 3600, env_clock = \<lparr>tv_sec = 1700000000, tv_nsec = 123456789\<rparr>\<rparr>)
             (env_clock \<lparr>env_gmtoff = \<lambda>_. 3600, env_clock = \<lparr>tv_sec = 1700000000, tv_nsec = 123456789\<rparr>\<rparr>) =
     Inr \<lparr>year = 2023, month = 11, day = 14, hour = 23, minute = 13, second = 20, microsecond = 123456\<rparr>"
    by code_simp
  have r: "render_fields (fields_of \<lparr>year = 2023, month = 11, day = 14, hour = 23, minute = 13,
             second = 20, microsecond = 123456\<rparr>) = ''2023-11-14 23:13:20''"
    by code_simp
  show ?thesis using h update_response [OF h, of Map.empty id "''{}''"] r by simp
qed

lemma update_timestamp_local_witness:
  "pytime_from_timespec \<lparr>tv_sec = 1700000000, tv_nsec = 0\<rparr> = Inr 1700000000000000000 \<and>
   \<bar>(\<lambda>_::int. 3600::int) (1700000000000000000 div 1000000000)\<bar> \<le> 93599 \<and>
   (\<exists>now ts.
     handle (app Map.empty id) \<lparr>env_gmtoff = \<lambda>_. 3600, env_clock = \<lparr>tv_sec = 1700000000, tv_nsec = 0\<rparr>\<rparr>
       \<lparr>req_method = POST, req_path = ''/update'', req_body = []\<rparr> =
       jsonify (PyDict [(''status'', PyStr ''success''), (''message'', PyStr (''Data updated at '' @ ts))]) \<and>
     matches_timestamp_pattern ts \<and> parse_timestamp ts = Some (fields_of now) \<and> datetime_valid now \<and>
     dt_seconds now = 1700000000000000000 div 1000000000 + 3600)"
proof -
  have h1: "pytime_from_timespec (env_clock \<lparr>env_gmtoff = \<lambda>_::int. 3600::int, env_clock = \<lparr>tv_sec = 1700000000, tv_nsec = 0\<rparr>\<rparr>)
              = Inr 1700000000000000000"
    by (simp add: pytime_from_timespec_def fits_int64_def)
  have h2: "\<bar>env_gmtoff \<lparr>env_gmtoff = \<lambda>_::int. 3600::int, env_clock = \<lparr>tv_sec = 1700000000, tv_nsec = 0\<rparr>\<rparr>
              (1700000000000000000 div 1000000000)\<bar> \<le> 93599"
    by simp
  show ?thesis using h1 h2 update_timestamp_local [OF h1 h2, of Map.empty id "[]"] by simp
qed

lemma update_overflow_500_witness:
  "\<not> fits_int64 (9223372037 * 1000000000 + 0) \<and>
   handle (app Map.empty id) \<lparr>env_gmtoff = \<lambda>_. 0, env_clock = \<lparr>tv_sec = 9223372037, tv_nsec = 0\<rparr>\<rparr>
     \<lparr>req_method = POST, req_path = ''/update'', req_body = []\<rparr> = internal_server_error"
proof -
  have h: "\<not> fits_int64 (tv_sec (env_clock \<lparr>env_gmtoff = \<lambda>_::int. 0::int, env_clock = \<lparr>tv_sec = 9223372037, tv_nsec = 0\<rparr>\<rparr>) * 1000000000
              + tv_nsec (env_clock \<lparr>env_gmtoff = \<lambda>_::int. 0::int, env_clock = \<lparr>tv_sec = 9223372037, tv_nsec = 0\<rparr>\<rparr>))"
    by (simp add: fits_int64_def)
  show ?thesis using h update_overflow_500 [OF h, of Map.empty id "[]"] by simp
qed

lemma index_response_witness:
  "[''index.html'' \<mapsto> ''<p>hello</p>''] ''index.html'' = Some ''<p>hello</p>'' \<and>
   handle (app [''index.html'' \<mapsto> ''<p>hello</p>''] id) \<lparr>env_gmtoff = \<lambda>_. 0, env_clock = \<lparr>tv_sec = 0, tv_nsec = 0\<rparr>\<rparr>
     \<lparr>req_method = GET, req_path = ''/'', req_body = []\<rparr> =
   \<lparr>status = 200, mimetype = ''text/html'', body = ''<p>hello</p>'', allow = None\<rparr>"
proof -
  have h: "[''index.html'' \<mapsto> ''<p>hello</p>''] ''index.html'' = Some ''<p>hello</p>''" by simp
  show ?thesis using index_response [where tmpl = "[''index.html'' \<mapsto> ''<p>hello</p>'']" and src = "''<p>hello</p>''" and rnd = id, OF h] by simp
qed

lemma index_head_witness:
  "[''index.html'' \<mapsto> ''<p>hello</p>''] ''index.html'' = Some ''<p>hello</p>'' \<and>
   handle (app [''index.html'' \<mapsto> ''<p>hello</p>''] id) \<lparr>env_gmtoff = \<lambda>_. 0, env_clock = \<lparr>tv_sec = 0, tv_nsec = 0\<rparr>\<rparr>
     \<lparr>req_method = HEAD, req_path = ''/'', req_body = []\<rparr> =
   \<lparr>status = 200, mimetype = ''text/html'', body = [], allow = None\<rparr>"
proof -
  have h: "[''index.html'' \<mapsto> ''<p>hello</p>''] ''index.html'' = Some ''<p>hello</p>''" by simp
  show ?thesis using index_head [where tmpl = "[''index.html'' \<mapsto> ''<p>hello</p>'']" and src = "''<p>hello</p>''" and rnd = id, OF h] by simp
qed

lemma index_missing_template_witness:
  "(Map.empty :: string \<rightharpoonup> string) ''index.html'' = None \<and>
   handle (app Map.empty id) \<lparr>env_gmtoff = \<lambda>_. 0, env_clock = \<lparr>tv_sec = 0, tv_nsec = 0\<rparr>\<rparr>
     \<lparr>req_method = GET, req_path = ''/'', req_body = []\<rparr> = internal_server_error"
proof -
  have h: "(Map.empty :: string \<rightharpoonup> string) ''index.html'' = None" by simp
  show ?thesis using index_missing_template [OF h, of id] by simp
qed


lemma update_wrong_method_405_witness:
  "GET \<notin> {POST, OPTIONS} \<and>
   handle (app Map.empty id) \<lparr>env_gmtoff = \<lambda>_. 0, env_clock = \<lparr>tv_sec = 0, tv_nsec = 0\<rparr>\<rparr>
     \<lparr>req_method = GET, req_path = ''/update'', req_body = []\<rparr> = method_not_allowed {POST, OPTIONS}"
proof -
  have h: "GET \<notin> {POST, OPTIONS}" by simp
  show ?thesis using h update_wrong_method_405 [OF h, of Map.empty id] by simp
qed

lemma index_wrong_method_405_witness:
  "POST \<notin> {GET, HEAD, OPTIONS} \<and>
   handle (app Map.empty id) \<lparr>env_gmtoff = \<lambda>_. 0, env_clock = \<lparr>tv_sec = 0, tv_nsec = 0\<rparr>\<rparr>
     \<lparr>req_method = POST, req_path = ''/'', req_body = []\<rparr> = method_not_allowed {GET, HEAD, OPTIONS}"
proof -
  have h: "POST \<notin> {GET, HEAD, OPTIONS}" by simp
  show ?thesis using h index_wrong_method_405 [OF h, of Map.empty id] by simp
qed

lemma options_automatic_witness:
  "''/update'' \<in> {''/'', ''/update''} \<and>
   handle (app Map.empty id) \<lparr>env_gmtoff = \<lambda>_. 0, env_clock = \<lparr>tv_sec = 0, tv_nsec = 0\<rparr>\<rparr>
     \<lparr>req_method = OPTIONS, req_path = ''/update'', req_body = []\<rparr> =
   \<lparr>status = 200, mimetype = ''text/html'', body = [], allow = Some {POST, OPTIONS}\<rparr>"
proof -
  have h: "''/update'' \<in> {''/'', ''/update''}" by simp
  show ?thesis using h options_automatic [OF h, of Map.empty id] by simp
qed

end
