(* ===== verification/Server.thy ===== *)
theory Server
  imports Flask_App
begin

text \<open>
  \<^verbatim>\<open>app.run(host='0.0.0.0', port=5000, debug=False)\<close> (src/app.py, line 19) starts
  Werkzeug's development server, which since Flask 1.0 is threaded: each accepted
  connection is handled by a thread of its own, and the threads run interleaved. The
  threads share the application object, which no request changes, and the system
  clock, which only moves forward. The server is a state (the clock and the threads by
  connection number) and three events: the clock advances, a connection is accepted,
  a thread computes and sends its response, reading the clock when it does. A run is
  any sequence of events; an event whose guard fails makes the run undefined.
\<close>

definition clock_ns :: "timespec \<Rightarrow> int" where
  "clock_ns c = tv_sec c * 1000000000 + tv_nsec c"

datatype thread =
    Accepted request timespec
  | Sent request timespec env response

record server =
  clock :: timespec
  threads :: "nat \<rightharpoonup> thread"

datatype event = Tick timespec | Accept nat request | Respond nat

definition server_init :: "timespec \<Rightarrow> server" where
  "server_init c = \<lparr>clock = c, threads = Map.empty\<rparr>"

definition request_env :: "(int \<Rightarrow> int) \<Rightarrow> server \<Rightarrow> env" where
  "request_env zone s = \<lparr>env_gmtoff = zone, env_clock = clock s\<rparr>"

fun server_event :: "flask_app \<Rightarrow> (int \<Rightarrow> int) \<Rightarrow> server \<Rightarrow> event \<Rightarrow> server option" where
  "server_event a zone s (Tick c) =
     (if clock_ns (clock s) \<le> clock_ns c then Some (s\<lparr>clock := c\<rparr>) else None)"
| "server_event a zone s (Accept i req) =
     (case threads s i of
        None \<Rightarrow> Some (s\<lparr>threads := (threads s)(i \<mapsto> Accepted req (clock s))\<rparr>)
      | Some _ \<Rightarrow> None)"
| "server_event a zone s (Respond i) =
     (case threads s i of
        Some (Accepted req c0) \<Rightarrow>
          Some (s\<lparr>threads := (threads s)(i \<mapsto>
                   Sent req c0 (request_env zone s) (handle a (request_env zone s) req))\<rparr>)
      | _ \<Rightarrow> None)"

fun server_run :: "flask_app \<Rightarrow> (int \<Rightarrow> int) \<Rightarrow> server \<Rightarrow> event list \<Rightarrow> server option" where
  "server_run a zone s [] = Some s"
| "server_run a zone s (ev # evs) =
     (case server_event a zone s ev of None \<Rightarrow> None | Some s' \<Rightarrow> server_run a zone s' evs)"

subsection \<open>The invariant of the threads\<close>

definition thread_ok :: "flask_app \<Rightarrow> (int \<Rightarrow> int) \<Rightarrow> timespec \<Rightarrow> thread \<Rightarrow> bool" where
  "thread_ok a zone now t =
     (case t of
        Accepted req c0 \<Rightarrow> clock_ns c0 \<le> clock_ns now
      | Sent req c0 e r \<Rightarrow>
          clock_ns c0 \<le> clock_ns (env_clock e) \<and> clock_ns (env_clock e) \<le> clock_ns now \<and>
          env_gmtoff e = zone \<and> r = handle a e req)"

definition server_inv :: "flask_app \<Rightarrow> (int \<Rightarrow> int) \<Rightarrow> server \<Rightarrow> bool" where
  "server_inv a zone s \<longleftrightarrow> (\<forall>i t. threads s i = Some t \<longrightarrow> thread_ok a zone (clock s) t)"

lemma thread_ok_later:
  "thread_ok a zone now t \<Longrightarrow> clock_ns now \<le> clock_ns now' \<Longrightarrow> thread_ok a zone now' t"
  by (auto simp: thread_ok_def split: thread.splits)

lemma server_inv_thread:
  "server_inv a zone s \<Longrightarrow> threads s i = Some t \<Longrightarrow> thread_ok a zone (clock s) t"
  by (simp add: server_inv_def)

lemma server_inv_update:
  "server_inv a zone s \<Longrightarrow> thread_ok a zone (clock s) t \<Longrightarrow>
   server_inv a zone (s\<lparr>threads := (threads s)(i \<mapsto> t)\<rparr>)"
  by (simp add: server_inv_def)

lemma server_init_inv: "server_inv a zone (server_init c)"
  by (simp add: server_inv_def server_init_def)

lemma server_event_inv:
  assumes "server_inv a zone s" "server_event a zone s ev = Some s'"
  shows "server_inv a zone s'"
proof (cases ev)
  case (Tick c)
  then have s': "s' = s\<lparr>clock := c\<rparr>" and le: "clock_ns (clock s) \<le> clock_ns c"
    using assms(2) by (simp_all split: if_splits)
  show ?thesis
    unfolding server_inv_def
  proof (intro allI impI)
    fix i t
    assume "threads s' i = Some t"
    then have "thread_ok a zone (clock s) t" using server_inv_thread [OF assms(1)] s' by simp
    then show "thread_ok a zone (clock s') t" using s' le by (simp add: thread_ok_later)
  qed
next
  case (Accept i req)
  then have "s' = s\<lparr>threads := (threads s)(i \<mapsto> Accepted req (clock s))\<rparr>"
    using assms(2) by (simp split: option.splits)
  then show ?thesis using assms(1) by (simp add: server_inv_update thread_ok_def)
next
  case (Respond i)
  then obtain req c0 where t: "threads s i = Some (Accepted req c0)"
    and s': "s' = s\<lparr>threads := (threads s)(i \<mapsto>
               Sent req c0 (request_env zone s) (handle a (request_env zone s) req))\<rparr>"
    using assms(2) by (auto split: option.splits thread.splits)
  have "clock_ns c0 \<le> clock_ns (clock s)"
    using server_inv_thread [OF assms(1) t] by (simp add: thread_ok_def)
  then show ?thesis
    using assms(1) s' by (simp add: server_inv_update thread_ok_def request_env_def)
qed

lemma server_run_inv:
  "server_inv a zone s \<Longrightarrow> server_run a zone s evs = Some s' \<Longrightarrow> server_inv a zone s'"
  by (induction evs arbitrary: s) (auto split: option.splits intro: server_event_inv)

lemma server_run_sent:
  assumes "server_run a zone (server_init c) evs = Some s" "threads s i = Some (Sent req c0 e r)"
  shows "r = handle a e req \<and> env_gmtoff e = zone \<and>
         clock_ns c0 \<le> clock_ns (env_clock e) \<and> clock_ns (env_clock e) \<le> clock_ns (clock s)"
proof -
  have "thread_ok a zone (clock s) (Sent req c0 e r)"
    using server_inv_thread [OF server_run_inv [OF server_init_inv assms(1)] assms(2)] .
  then show ?thesis by (simp add: thread_ok_def)
qed

lemma server_event_keeps_sent:
  "server_event a zone s ev = Some s' \<Longrightarrow> threads s i = Some (Sent req c0 e r) \<Longrightarrow>
   threads s' i = Some (Sent req c0 e r)"
  by (cases ev) (auto split: if_splits option.splits thread.splits)

lemma server_run_keeps_sent:
  "server_run a zone s evs = Some s' \<Longrightarrow> threads s i = Some (Sent req c0 e r) \<Longrightarrow>
   threads s' i = Some (Sent req c0 e r)"
  by (induction evs arbitrary: s) (auto split: option.splits dest: server_event_keeps_sent)

lemma pytime_clock_ns: "pytime_from_timespec c = Inr ns \<Longrightarrow> ns = clock_ns c"
  by (simp add: pytime_from_timespec_def clock_ns_def Let_def split: if_splits)

subsection \<open>Properties of the threaded server\<close>





subsection \<open>Witnesses\<close>

text \<open>
  A run of the server: an update is accepted and answered at 2023-11-14 22:13:20 UTC, the
  clock advances a second, and a second update is accepted and answered, in a zone one
  hour east of UTC.
\<close>

definition upd_request :: request where
  "upd_request = \<lparr>req_method = POST, req_path = ''/update'', req_body = []\<rparr>"

definition run_events :: "event list" where
  "run_events = [Accept 1 upd_request, Respond 1, Tick \<lparr>tv_sec = 1700000001, tv_nsec = 0\<rparr>,
                 Accept 2 upd_request, Respond 2]"

definition run_env :: "int \<Rightarrow> env" where
  "run_env t = \<lparr>env_gmtoff = \<lambda>_. 3600, env_clock = \<lparr>tv_sec = t, tv_nsec = 0\<rparr>\<rparr>"

definition run_final :: server where
  "run_final =
     \<lparr>clock = \<lparr>tv_sec = 1700000001, tv_nsec = 0\<rparr>,
      threads = [1 \<mapsto> Sent upd_request \<lparr>tv_sec = 1700000000, tv_nsec = 0\<rparr> (run_env 1700000000)
                        (handle (app Map.empty id) (run_env 1700000000) upd_request),
                 2 \<mapsto> Sent upd_request \<lparr>tv_sec = 1700000001, tv_nsec = 0\<rparr> (run_env 1700000001)
                        (handle (app Map.empty id) (run_env 1700000001) upd_request)]\<rparr>"

lemma run_final_reached:
  "server_run (app Map.empty id) (\<lambda>_. 3600) (server_init \<lparr>tv_sec = 1700000000, tv_nsec = 0\<rparr>) run_events =
   Some run_final"
  by (simp add: run_events_def run_final_def server_init_def request_env_def run_env_def clock_ns_def
      fun_upd_twist)





end
