(* ===== verification/Zone.thy ===== *)
theory Zone
  imports Clock
begin

text \<open>
  Where the offset comes from when \<^verbatim>\<open>localtime_r\<close> runs with \<^verbatim>\<open>TZ\<close> set to a POSIX
  rule such as \<^verbatim>\<open>CET-1CEST,M3.5.0,M10.5.0/3\<close> (glibc time/tzset.c). \<^verbatim>\<open>tzset\<close>
  parses the rule into \<^verbatim>\<open>tz_rules[0]\<close> (standard time: its name and offset, and the
  rule of the day daylight saving time starts) and \<^verbatim>\<open>tz_rules[1]\<close> (daylight saving
  time: its name and offset, and the rule of the day it ends). \<^verbatim>\<open>__tz_convert\<close> breaks
  the time down in UTC with \<^verbatim>\<open>__offtime (timer, 0, tp)\<close> to learn the year,
  \<^verbatim>\<open>__tz_compute\<close> computes both changes of that year (\<^verbatim>\<open>compute_change\<close>) and
  chooses the offset, and \<^verbatim>\<open>__offtime\<close> breaks the time down again with it.
\<close>

datatype rule_type = J0 | J1 | M

text \<open>\<^verbatim>\<open>tz_rule\<close> without its cache (\<^verbatim>\<open>change\<close>, \<^verbatim>\<open>computed_for\<close>).\<close>

record tz_rule =
  rule_name :: string
  rule_offset :: int
  rule_type :: rule_type
  rule_m :: nat
  rule_n :: nat
  rule_d :: nat
  rule_secs :: int

record tz_rules =
  tz_std :: tz_rule
  tz_dst :: tz_rule

text \<open>The \<^verbatim>\<open>for\<close> loop of the \<^verbatim>\<open>M\<close> case: step a week forward at most \<open>k\<close> times while the week stays in the month of \<open>len\<close> days.\<close>

fun week_loop :: "int \<Rightarrow> int \<Rightarrow> nat \<Rightarrow> int" where
  "week_loop len d 0 = d"
| "week_loop len d (Suc k) = (if len \<le> d + 7 then d else week_loop len (d + 7) k)"

definition jan1_secs :: "int \<Rightarrow> int" where
  "jan1_secs yr =
     (if 1970 < yr then
        ((yr - 1970) * 365
         + (c_div (yr - 1) 4 - c_div 1970 4)
         - (c_div (yr - 1) 100 - c_div 1970 100)
         + (c_div (yr - 1) 400 - c_div 1970 400)) * 86400
      else 0)"

definition zeller_dow :: "nat \<Rightarrow> int \<Rightarrow> int" where
  "zeller_dow m yr =
     (let m1 = c_mod (int m + 9) 12 + 1;
          yy0 = (if m \<le> 2 then yr - 1 else yr);
          yy1 = c_div yy0 100;
          yy2 = c_mod yy0 100;
          dow = c_mod (c_div (26 * m1 - 2) 10 + 1 + yy2 + c_div yy2 4 + c_div yy1 4 - 2 * yy1) 7
      in if dow < 0 then dow + 7 else dow)"

definition m_rule_day :: "tz_rule \<Rightarrow> int \<Rightarrow> int" where
  "m_rule_day rule yr =
     (let myday = mon_yday (is_leap yr);
          dow = zeller_dow (rule_m rule) yr;
          d = int (rule_d rule) - dow;
          d = (if d < 0 then d + 7 else d)
      in week_loop (myday ! rule_m rule - myday ! (rule_m rule - 1)) d (rule_n rule - 1))"

definition compute_change :: "tz_rule \<Rightarrow> int \<Rightarrow> int" where
  "compute_change rule yr =
     (let t = jan1_secs yr;
          t = (case rule_type rule of
                 J1 \<Rightarrow> t + (int (rule_d rule) - 1) * 86400
                        + (if 60 \<le> rule_d rule \<and> is_leap yr then 86400 else 0)
               | J0 \<Rightarrow> t + int (rule_d rule) * 86400
               | M \<Rightarrow> t + mon_yday (is_leap yr) ! (rule_m rule - 1) * 86400
                       + m_rule_day rule yr * 86400)
      in t - rule_offset rule + rule_secs rule)"

definition tz_isdst :: "tz_rules \<Rightarrow> int \<Rightarrow> int \<Rightarrow> bool" where
  "tz_isdst z yr timer =
     (let c0 = compute_change (tz_std z) yr;
          c1 = compute_change (tz_dst z) yr
      in if c1 < c0 then timer < c1 \<or> c0 \<le> timer else c0 \<le> timer \<and> timer < c1)"

definition tz_offset :: "tz_rules \<Rightarrow> int \<Rightarrow> int option" where
  "tz_offset z timer =
     map_option (\<lambda>u. if tz_isdst z (tm_year u + 1900) timer then rule_offset (tz_dst z)
                      else rule_offset (tz_std z))
       (offtime timer 0)"

definition tz_convert :: "tz_rules \<Rightarrow> int \<Rightarrow> tm option" where
  "tz_convert z timer = (case tz_offset z timer of None \<Rightarrow> None | Some off \<Rightarrow> offtime timer off)"

text \<open>
  \<^verbatim>\<open>compute_offset\<close>: the seconds of \<open>hh:mm:ss\<close> in a rule, each field clamped
  (\<^verbatim>\<open>MIN (ss, 59)\<close>, \<^verbatim>\<open>MIN (mm, 59)\<close>, \<^verbatim>\<open>MIN (hh, 24)\<close>). A zone's offset is
  \<open>\<plusminus>\<close>\<^verbatim>\<open>compute_offset\<close> of its \<open>hh:mm:ss\<close> (a leading \<^verbatim>\<open>-\<close> meaning east of
  UTC), and daylight saving time without an offset of its own is an hour ahead.
\<close>

definition compute_offset :: "nat \<Rightarrow> nat \<Rightarrow> nat \<Rightarrow> int" where
  "compute_offset ss mm hh = int (min ss 59) + int (min mm 59) * 60 + int (min hh 24) * 3600"

definition tz_rules_ok :: "tz_rules \<Rightarrow> bool" where
  "tz_rules_ok z \<longleftrightarrow> \<bar>rule_offset (tz_std z)\<bar> \<le> 93599 \<and> \<bar>rule_offset (tz_dst z)\<bar> \<le> 93599"

text \<open>
  The offset function the rest of the development reads a zone through: the offset
  \<^verbatim>\<open>__tz_compute\<close> chooses, where \<^verbatim>\<open>__offtime (timer, 0, tp)\<close> succeeds (always,
  within \<open>2^50\<close> seconds of the epoch; outside, \<^verbatim>\<open>localtime_r\<close> fails and the
  value below is not used).
\<close>

definition zone_gmtoff :: "tz_rules \<Rightarrow> int \<Rightarrow> int" where
  "zone_gmtoff z timer = (case tz_offset z timer of Some off \<Rightarrow> off | None \<Rightarrow> rule_offset (tz_std z))"

text \<open>
  \<^verbatim>\<open>TZ=CET-1CEST,M3.5.0,M10.5.0/3\<close> (Europe/Berlin) as \<^verbatim>\<open>tzset\<close> parses it:
  CET one hour east of UTC, CEST an hour more, from the last Sunday of March at 02:00
  local time to the last Sunday of October at 03:00.
\<close>

definition berlin :: tz_rules where
  "berlin =
     \<lparr>tz_std = \<lparr>rule_name = ''CET'', rule_offset = compute_offset 0 0 1, rule_type = M, rule_m = 3, rule_n = 5,
                 rule_d = 0, rule_secs = compute_offset 0 0 2\<rparr>,
      tz_dst = \<lparr>rule_name = ''CEST'', rule_offset = compute_offset 0 0 1 + 3600, rule_type = M, rule_m = 10, rule_n = 5,
                 rule_d = 0, rule_secs = compute_offset 0 0 3\<rparr>\<rparr>"

subsection \<open>Reference definitions\<close>

text \<open>The day of the week of a date (0 = Sunday, as \<^verbatim>\<open>tm_wday\<close>; 1970-01-01 was a Thursday).\<close>

definition weekday :: "int \<Rightarrow> int \<Rightarrow> int \<Rightarrow> int" where
  "weekday yr mon0 mday = (days_from_civil yr mon0 mday + 4) mod 7"

text \<open>Days from 1 March to the first of month \<open>m\<close> of a year counted from March.\<close>

definition march_day :: "nat \<Rightarrow> int" where
  "march_day m = [306, 337, 0, 31, 61, 92, 122, 153, 184, 214, 245, 275] ! (m - 1)"

subsection \<open>The day of a rule\<close>

lemma jan1_secs_eq: "1970 \<le> yr \<Longrightarrow> jan1_secs yr = days_before_year yr * 86400"
  by (simp add: jan1_secs_def days_before_year_def leaps_thru_end_of_eq)

lemma week_loop_eq:
  "0 \<le> d \<Longrightarrow> d < len \<Longrightarrow> week_loop len d k = d + 7 * min (int k) ((len - 1 - d) div 7)"
proof (induction k arbitrary: d)
  case 0
  then show ?case by simp
next
  case (Suc k)
  show ?case
  proof (cases "len \<le> d + 7")
    case True
    then have "(len - 1 - d) div 7 = 0" using Suc.prems by (intro div_pos_pos_trivial) simp_all
    with True show ?thesis by simp
  next
    case False
    have "(len - 1 - (d + 7)) div 7 = (len - 1 - d) div 7 - 1"
      using div_add_self2 [of 7 "len - 1 - (d + 7)"] by simp
    moreover have "1 \<le> (len - 1 - d) div 7" using False by simp
    ultimately show ?thesis using False Suc.IH [of "d + 7"] Suc.prems by (auto simp: min_def)
  qed
qed

lemma days_from_civil_march:
  fixes yr :: int
  assumes "1 \<le> m" "m \<le> 12"
  defines "Y \<equiv> (if m \<le> 2 then yr - 1 else yr)"
  shows "days_from_civil yr (int m - 1) 1 = 365 * Y + leaps_thru_end_of Y + march_day m - 719468"
proof -
  have l: "leaps_thru_end_of yr = leaps_thru_end_of (yr - 1) + (if is_leap yr then 1 else 0)"
    using leaps_thru_end_of_succ [of "yr - 1"] by simp
  have l1969: "leaps_thru_end_of 1969 = 477" by (simp add: leaps_thru_end_of_eq)
  have "m = 1 \<or> m = 2 \<or> m = 3 \<or> m = 4 \<or> m = 5 \<or> m = 6 \<or> m = 7 \<or> m = 8 \<or> m = 9 \<or>
        m = 10 \<or> m = 11 \<or> m = 12" using assms(1,2) by presburger
  then consider "m = 1" | "m = 2" | "m = 3" | "m = 4" | "m = 5" | "m = 6" | "m = 7" | "m = 8"
    | "m = 9" | "m = 10" | "m = 11" | "m = 12" by blast
  then show ?thesis
    by cases (simp_all add: Y_def days_from_civil_def days_before_year_def mon_yday_def march_day_def l l1969)
qed

lemma zeller_dow_eq:
  fixes yr :: int
  assumes m: "1 \<le> m" "m \<le> 12" and y: "1 \<le> yr"
  shows "zeller_dow m yr = (days_from_civil yr (int m - 1) 1 + 4) mod 7"
proof -
  define Y where "Y = (if m \<le> 2 then yr - 1 else yr)"
  have Y0: "0 \<le> Y" using y by (simp add: Y_def)
  define a where "a = Y div 100"
  define b where "b = Y mod 100"
  have ab: "0 \<le> a" "0 \<le> b" "b < 100" "Y = 100 * a + b"
    using Y0 by (simp_all add: a_def b_def pos_imp_zdiv_nonneg_iff)
  have d4: "Y div 4 = 25 * a + b div 4"
  proof -
    have "Y = b + 4 * (25 * a)" using ab by simp
    then show ?thesis by simp
  qed
  have d400: "Y div 400 = a div 4"
  proof -
    have "a = a mod 4 + 4 * (a div 4)" by simp
    then have "Y = (100 * (a mod 4) + b) + 400 * (a div 4)" using ab by linarith
    moreover have "(100 * (a mod 4) + b) div 400 = 0"
      using ab by (intro div_pos_pos_trivial) simp_all
    ultimately show ?thesis by simp
  qed
  define m1 where "m1 = (int m + 9) mod 12 + 1"
  have m1: "1 \<le> m1" by (simp add: m1_def)
  define V where "V = (26 * m1 - 2) div 10 + 1 + b + b div 4 + a div 4 - 2 * a"
  have z: "zeller_dow m yr = V mod 7"
  proof -
    have f: "c_div Y 100 = a" "c_mod Y 100 = b" "c_div b 4 = b div 4" "c_div a 4 = a div 4"
      "c_mod (int m + 9) 12 = (int m + 9) mod 12" "c_div (26 * m1 - 2) 10 = (26 * m1 - 2) div 10"
      using Y0 ab(1-3) m1 by (simp_all add: a_def b_def)
    have w: "(if c_mod V 7 < 0 then c_mod V 7 + 7 else c_mod V 7) = V mod 7"
      by (rule c_mod_wrap) simp
    show ?thesis
      unfolding zeller_dow_def Let_def Y_def [symmetric]
      by (simp only: f(1-5) m1_def [symmetric] f(6) V_def [symmetric] w)
  qed
  have dfc: "days_from_civil yr (int m - 1) 1 = 365 * Y + (25 * a + b div 4 - a + a div 4) + march_day m - 719468"
    using days_from_civil_march [OF m, of yr] d4 d400 ab
    by (simp add: Y_def [symmetric] leaps_thru_end_of_eq a_def [symmetric])
  have key: "V mod 7 = (365 * Y + (25 * a + b div 4 - a + a div 4) + march_day m - 719468 + 4) mod 7"
    if c: "(march_day m - 719465 - (26 * m1 - 2) div 10) mod 7 = 0"
  proof -
    obtain c' where c': "march_day m - 719465 - (26 * m1 - 2) div 10 = 7 * c'"
      using c by (auto simp: mod_eq_0_iff_dvd elim: dvdE)
    have e: "365 * Y + (25 * a + b div 4 - a + a div 4) + march_day m - 719468 + 4 =
          V + 7 * (5218 * a + 52 * b + c')"
      using c' ab(4) unfolding V_def by (simp add: algebra_simps)
    show ?thesis unfolding e by (metis mod_mult_self1 mod_mult_self2)
  qed
  have "m = 1 \<or> m = 2 \<or> m = 3 \<or> m = 4 \<or> m = 5 \<or> m = 6 \<or> m = 7 \<or> m = 8 \<or> m = 9 \<or>
        m = 10 \<or> m = 11 \<or> m = 12" using m by presburger
  then have "(march_day m - 719465 - (26 * m1 - 2) div 10) mod 7 = 0"
    by (elim disjE) (simp_all add: march_day_def m1_def)
  then have "V mod 7 = (365 * Y + (25 * a + b div 4 - a + a div 4) + march_day m - 719468 + 4) mod 7"
    by (rule key)
  with z dfc show ?thesis by simp
qed

lemma month_len_bounds: "0 \<le> m \<Longrightarrow> m < 12 \<Longrightarrow> 28 \<le> month_len y m \<and> month_len y m \<le> 31"
proof -
  assume "0 \<le> m" "m < 12"
  then have "m = 0 \<or> m = 1 \<or> m = 2 \<or> m = 3 \<or> m = 4 \<or> m = 5 \<or> m = 6 \<or> m = 7 \<or> m = 8 \<or>
             m = 9 \<or> m = 10 \<or> m = 11" by presburger
  then show ?thesis by (elim disjE) (simp_all add: month_len_def mon_yday_def)
qed

lemma m_rule_day_correct:
  assumes m: "1 \<le> rule_m rule" "rule_m rule \<le> 12" and n: "1 \<le> rule_n rule"
    and d: "rule_d rule \<le> 6" and y: "1 \<le> yr"
  defines "dd \<equiv> m_rule_day rule yr"
    and "len \<equiv> month_len yr (int (rule_m rule) - 1)"
  shows "0 \<le> dd \<and> dd < len \<and> weekday yr (int (rule_m rule) - 1) (dd + 1) = int (rule_d rule) \<and>
         (dd div 7 = int (rule_n rule) - 1 \<or> dd div 7 < int (rule_n rule) - 1 \<and> len \<le> dd + 7)"
proof -
  define dow where "dow = zeller_dow (rule_m rule) yr"
  have dow: "dow = (days_from_civil yr (int (rule_m rule) - 1) 1 + 4) mod 7"
    unfolding dow_def using zeller_dow_eq [OF m y] .
  define d0 where "d0 = (int (rule_d rule) - dow) mod 7"
  have d0: "0 \<le> d0" "d0 < 7" by (simp_all add: d0_def)
  have dw: "0 \<le> dow" "dow < 7" using dow by simp_all
  have d0': "(if int (rule_d rule) - dow < 0 then int (rule_d rule) - dow + 7 else int (rule_d rule) - dow) = d0"
  proof (cases "int (rule_d rule) - dow < 0")
    case True
    have "d0 = (int (rule_d rule) - dow + 7) mod 7" by (simp add: d0_def)
    also have "\<dots> = int (rule_d rule) - dow + 7" using True dw by (intro mod_pos_pos_trivial) simp_all
    finally show ?thesis using True by simp
  next
    case False
    then have "d0 = int (rule_d rule) - dow" using dw d unfolding d0_def by (intro mod_pos_pos_trivial) simp_all
    with False show ?thesis by simp
  qed
  have ml: "28 \<le> len" "len \<le> 31" using month_len_bounds [of "int (rule_m rule) - 1" yr] m
    by (simp_all add: len_def)
  have lenm: "mon_yday (is_leap yr) ! rule_m rule - mon_yday (is_leap yr) ! (rule_m rule - 1) = len"
    using m by (simp add: len_def month_len_def nat_diff_distrib')
  have dq: "dd = d0 + 7 * min (int (rule_n rule - 1)) ((len - 1 - d0) div 7)"
    unfolding dd_def m_rule_day_def Let_def dow_def [symmetric] d0' lenm
    using d0 ml by (intro week_loop_eq) simp_all
  define X where "X = (len - 1 - d0) div 7"
  have X: "7 * X \<le> len - 1 - d0" "len - 1 - d0 < 7 * X + 7" "0 \<le> X"
  proof -
    have e: "7 * X + (len - 1 - d0) mod 7 = len - 1 - d0" unfolding X_def by (rule mult_div_mod_eq)
    have "0 \<le> (len - 1 - d0) mod 7" "(len - 1 - d0) mod 7 < 7" by simp_all
    with e show "7 * X \<le> len - 1 - d0" "len - 1 - d0 < 7 * X + 7" by linarith+
    show "0 \<le> X" unfolding X_def using d0 ml by simp
  qed
  define q where "q = min (int (rule_n rule - 1)) X"
  have q: "0 \<le> q" "q \<le> X" "dd = d0 + 7 * q" using X(3) by (simp_all add: q_def dq X_def [symmetric])
  have range: "0 \<le> dd" "dd < len" using q X d0 by linarith+
  have div: "dd div 7 = q" using q(3) d0 by simp
  have occ: "dd div 7 = int (rule_n rule) - 1 \<or> dd div 7 < int (rule_n rule) - 1 \<and> len \<le> dd + 7"
  proof -
    have "q = int (rule_n rule) - 1 \<or> q = X \<and> X < int (rule_n rule) - 1"
      using n by (auto simp: q_def min_def of_nat_diff)
    then show ?thesis
    proof
      assume "q = X \<and> X < int (rule_n rule) - 1"
      then show ?thesis using div q(3) X(2) by simp
    qed (simp add: div)
  qed
  define F where "F = days_from_civil yr (int (rule_m rule) - 1) 1"
  have f: "days_from_civil yr (int (rule_m rule) - 1) (dd + 1) = F + dd"
    by (simp add: F_def days_from_civil_def)
  have k1: "F + 4 = 7 * ((F + 4) div 7) + dow"
    using dow mult_div_mod_eq [of 7 "F + 4"] by (simp add: F_def)
  have k2: "int (rule_d rule) - dow = 7 * ((int (rule_d rule) - dow) div 7) + d0"
    using mult_div_mod_eq [of 7 "int (rule_d rule) - dow"] by (simp add: d0_def)
  have e: "F + dd + 4 = int (rule_d rule) + 7 * ((F + 4) div 7 + q - (int (rule_d rule) - dow) div 7)"
    using k1 k2 q(3) by (simp add: algebra_simps)
  have "weekday yr (int (rule_m rule) - 1) (dd + 1) = (F + dd + 4) mod 7"
    unfolding weekday_def f by (simp add: algebra_simps)
  also have "\<dots> = int (rule_d rule) mod 7" unfolding e by (metis mod_mult_self1 mod_mult_self2)
  finally have "weekday yr (int (rule_m rule) - 1) (dd + 1) = int (rule_d rule) mod 7" .
  with d have "weekday yr (int (rule_m rule) - 1) (dd + 1) = int (rule_d rule)" by simp
  with range occ show ?thesis by blast
qed

lemma compute_offset_le: "compute_offset ss mm hh \<le> 89999"
  by (simp add: compute_offset_def)

lemma compute_change_M:
  assumes "rule_type rule = M" "1 \<le> rule_m rule" "rule_m rule \<le> 12" "1970 \<le> yr"
  shows "compute_change rule yr =
           days_from_civil yr (int (rule_m rule) - 1) (m_rule_day rule yr + 1) * 86400
           - rule_offset rule + rule_secs rule"
proof -
  have "nat (int (rule_m rule) - 1) = rule_m rule - 1" using assms(2) by simp
  then show ?thesis
    using assms by (simp add: compute_change_def jan1_secs_eq days_from_civil_def algebra_simps)
qed

subsection \<open>Properties of the zone rules\<close>

text \<open>
  C8. For every year from 1970 on, \<^verbatim>\<open>compute_change\<close> of a rule \<^verbatim>\<open>Mm.n.d/time\<close>
  is the UTC instant of that local time on the \<open>n\<close>-th weekday \<open>d\<close> of month \<open>m\<close>, or
  on the last such weekday when the month has fewer than \<open>n\<close> (\<open>n = 5\<close> means
  "last"): Zeller's congruence finds the weekday of the month's first day, and the loop
  steps whole weeks without leaving the month.
\<close>

theorem compute_change_M_correct:
  assumes "rule_type rule = M" "1 \<le> rule_m rule" "rule_m rule \<le> 12"
    and "1 \<le> rule_n rule" "rule_d rule \<le> 6" "1970 \<le> yr"
  shows "\<exists>dd. compute_change rule yr =
           days_from_civil yr (int (rule_m rule) - 1) (dd + 1) * 86400 - rule_offset rule + rule_secs rule \<and>
         0 \<le> dd \<and> dd < month_len yr (int (rule_m rule) - 1) \<and>
         weekday yr (int (rule_m rule) - 1) (dd + 1) = int (rule_d rule) \<and>
         (dd div 7 = int (rule_n rule) - 1 \<or>
          dd div 7 < int (rule_n rule) - 1 \<and> month_len yr (int (rule_m rule) - 1) \<le> dd + 7)"
  using compute_change_M [OF assms(1-3,6)] m_rule_day_correct [OF assms(2-5)] assms(6)
  by (intro exI [of _ "m_rule_day rule yr"]) simp

lemma compute_change_M_correct_witness:
  "rule_type (tz_dst berlin) = M \<and> 1 \<le> rule_m (tz_dst berlin) \<and> rule_m (tz_dst berlin) \<le> 12 \<and>
   1 \<le> rule_n (tz_dst berlin) \<and> rule_d (tz_dst berlin) \<le> 6 \<and>
   (\<exists>dd. compute_change (tz_dst berlin) 2023 = days_from_civil 2023 9 (dd + 1) * 86400 - 7200 + 10800 \<and>
         0 \<le> dd \<and> dd < month_len 2023 9 \<and> weekday 2023 9 (dd + 1) = 0 \<and>
         (dd div 7 = 4 \<or> dd div 7 < 4 \<and> month_len 2023 9 \<le> dd + 7))"
proof -
  have h: "rule_type (tz_dst berlin) = M" "1 \<le> rule_m (tz_dst berlin)" "rule_m (tz_dst berlin) \<le> 12"
    "1 \<le> rule_n (tz_dst berlin)" "rule_d (tz_dst berlin) \<le> 6" "(1970::int) \<le> 2023"
    by (simp_all add: berlin_def)
  have v: "rule_m (tz_dst berlin) = 10" "rule_n (tz_dst berlin) = 5" "rule_d (tz_dst berlin) = 0"
    "rule_offset (tz_dst berlin) = 7200" "rule_secs (tz_dst berlin) = 10800"
    by (simp_all add: berlin_def compute_offset_def)
  show ?thesis using compute_change_M_correct [OF h] h by (simp add: v)
qed

lemma tz_offset_defined: "\<bar>timer\<bar> < 2 ^ 50 \<Longrightarrow> \<exists>off. tz_offset z timer = Some off"
  using offtime_defined [of timer 0] by (auto simp: tz_offset_def)

lemma tz_offset_Some:
  "tz_offset z timer = Some off \<Longrightarrow> off = rule_offset (tz_std z) \<or> off = rule_offset (tz_dst z)"
  by (auto simp: tz_offset_def split: if_splits)

lemma zone_gmtoff_choice:
  "zone_gmtoff z timer = rule_offset (tz_std z) \<or> zone_gmtoff z timer = rule_offset (tz_dst z)"
  by (auto simp: zone_gmtoff_def dest: tz_offset_Some split: option.splits)

lemma zone_gmtoff_bound: "tz_rules_ok z \<Longrightarrow> \<bar>zone_gmtoff z timer\<bar> \<le> 93599"
  using zone_gmtoff_choice [of z timer] by (auto simp: tz_rules_ok_def)






end
