(* ===== verification/Tzset.thy ===== *)
theory Tzset
  imports Zone Strftime "HOL-Library.Word"
begin

text \<open>
  How \<^verbatim>\<open>localtime_r\<close> obtains the zone rules the first time it runs (glibc
  time/tzset.c, \<^verbatim>\<open>tzset_internal\<close> and \<^verbatim>\<open>__tzset_parse_tz\<close>): the value of
  \<^verbatim>\<open>TZ\<close>, a zoneinfo file when one exists for it, and otherwise the POSIX rule the
  string spells, scanned by \<^verbatim>\<open>parse_tzname\<close>, \<^verbatim>\<open>parse_offset\<close> and \<^verbatim>\<open>parse_rule\<close>
  with \<^verbatim>\<open>sscanf\<close> and \<^verbatim>\<open>strtoul\<close>.
\<close>

subsection \<open>Characters and the scanners of the C library\<close>

definition is_alpha :: "char \<Rightarrow> bool" where
  "is_alpha c \<longleftrightarrow> (CHR ''a'' \<le> c \<and> c \<le> CHR ''z'') \<or> (CHR ''A'' \<le> c \<and> c \<le> CHR ''Z'')"

definition is_digit :: "char \<Rightarrow> bool" where
  "is_digit c \<longleftrightarrow> CHR ''0'' \<le> c \<and> c \<le> CHR ''9''"

definition is_space :: "char \<Rightarrow> bool" where
  "is_space c \<longleftrightarrow> c \<in> set [CHR '' '', CHR 0x09, CHR 0x0A, CHR 0x0B, CHR 0x0C, CHR 0x0D]"

text \<open>The characters \<^verbatim>\<open>parse_tzname\<close> accepts between \<^verbatim>\<open><\<close> and \<^verbatim>\<open>>\<close>.\<close>

definition is_quoted :: "char \<Rightarrow> bool" where
  "is_quoted c \<longleftrightarrow> is_alpha c \<or> is_digit c \<or> c = CHR ''+'' \<or> c = CHR ''-''"

definition digits_value :: "string \<Rightarrow> int" where
  "digits_value ds = foldl (\<lambda>n c. 10 * n + (of_char c - of_char CHR ''0'')) 0 ds"

text \<open>
  \<^verbatim>\<open>strtoul\<close> on an optional sign and the digits \<open>ds\<close>: a value past
  \<^verbatim>\<open>ULONG_MAX\<close> saturates (\<^verbatim>\<open>ERANGE\<close>), a negative one is negated modulo \<open>2^64\<close>.
\<close>

definition strtoul_value :: "bool \<Rightarrow> string \<Rightarrow> 64 word" where
  "strtoul_value neg ds =
     (if 18446744073709551616 \<le> digits_value ds then - 1
      else if neg then - word_of_int (digits_value ds) else word_of_int (digits_value ds))"

text \<open>
  One \<^verbatim>\<open>%hu\<close> conversion of \<^verbatim>\<open>sscanf\<close> (stdio-common/vfscanf-internal.c): white
  space skipped, an optional sign, at least one digit, the \<^verbatim>\<open>strtoul\<close> value stored
  into an \<^verbatim>\<open>unsigned short\<close>; the rest of the input after the digits.
\<close>

definition scan_hu :: "string \<Rightarrow> (16 word \<times> string) option" where
  "scan_hu s =
     (let s = dropWhile is_space s;
          (neg, s) = (case s of c # r \<Rightarrow> if c = CHR ''-'' then (True, r)
                                          else if c = CHR ''+'' then (False, r) else (False, s)
                              | [] \<Rightarrow> (False, s));
          ds = takeWhile is_digit s
      in if ds = [] then None else Some (ucast (strtoul_value neg ds), drop (length ds) s))"

text \<open>
  \<^verbatim>\<open>sscanf (tz, "%hu%n:%hu%n:%hu%n", &hh, &consumed, &mm, &consumed, &ss, &consumed)\<close>:
  the values converted, in order (the return value is their number), and the last
  value stored into \<^verbatim>\<open>consumed\<close> (0, its initial value, when none is).
\<close>

definition scan_hms :: "string \<Rightarrow> 16 word list \<times> nat" where
  "scan_hms s =
     (case scan_hu s of
        None \<Rightarrow> ([], 0)
      | Some (hh, r1) \<Rightarrow>
          (case r1 of
             CHR '':'' # r1' \<Rightarrow>
               (case scan_hu r1' of
                  None \<Rightarrow> ([hh], length s - length r1)
                | Some (mm, r2) \<Rightarrow>
                    (case r2 of
                       CHR '':'' # r2' \<Rightarrow>
                         (case scan_hu r2' of
                            None \<Rightarrow> ([hh, mm], length s - length r2)
                          | Some (ss, r3) \<Rightarrow> ([hh, mm, ss], length s - length r3))
                     | _ \<Rightarrow> ([hh, mm], length s - length r2)))
           | _ \<Rightarrow> ([hh], length s - length r1)))"

text \<open>The value of the \<open>i\<close>-th conversion, or the variable's initial value \<open>d\<close>.\<close>

definition scanned :: "16 word \<Rightarrow> 16 word list \<Rightarrow> nat \<Rightarrow> nat" where
  "scanned d vs i = unat (if i < length vs then vs ! i else d)"

text \<open>\<^verbatim>\<open>sscanf (tz, "M%hu.%hu.%hu%n", &m, &n, &d, &consumed)\<close>: the same, for the month rule.\<close>

definition scan_mnd :: "string \<Rightarrow> 16 word list \<times> nat" where
  "scan_mnd s =
     (case s of
        CHR ''M'' # r0 \<Rightarrow>
          (case scan_hu r0 of
             None \<Rightarrow> ([], 0)
           | Some (m, r1) \<Rightarrow>
               (case r1 of
                  CHR ''.'' # r1' \<Rightarrow>
                    (case scan_hu r1' of
                       None \<Rightarrow> ([m], 0)
                     | Some (n, r2) \<Rightarrow>
                         (case r2 of
                            CHR ''.'' # r2' \<Rightarrow>
                              (case scan_hu r2' of
                                 None \<Rightarrow> ([m, n], 0)
                               | Some (d, r3) \<Rightarrow> ([m, n, d], length s - length r3))
                          | _ \<Rightarrow> ([m, n], 0)))
                | _ \<Rightarrow> ([m], 0)))
      | _ \<Rightarrow> ([], 0))"

subsection \<open>The parser of a POSIX \<^verbatim>\<open>TZ\<close> string\<close>

text \<open>
  The parser's state: \<^verbatim>\<open>tz_rules\<close> and the input pointer \<^verbatim>\<open>*tzp\<close> (the rest of the
  string; the end of the list is the terminating NUL). Each of \<^verbatim>\<open>parse_tzname\<close>,
  \<^verbatim>\<open>parse_offset\<close>, \<^verbatim>\<open>parse_rule\<close> returns its \<^verbatim>\<open>bool\<close> with the state it leaves,
  including what it stored before it failed.
\<close>

type_synonym tz_parse = "tz_rules \<times> string"

definition get_rule :: "nat \<Rightarrow> tz_rules \<Rightarrow> tz_rule" where
  "get_rule w z = (if w = 0 then tz_std z else tz_dst z)"

definition set_rule :: "nat \<Rightarrow> (tz_rule \<Rightarrow> tz_rule) \<Rightarrow> tz_rules \<Rightarrow> tz_rules" where
  "set_rule w f z = (if w = 0 then z\<lparr>tz_std := f (tz_std z)\<rparr> else z\<lparr>tz_dst := f (tz_dst z)\<rparr>)"

definition tzname_scan :: "string \<Rightarrow> (string \<times> string) option" where
  "tzname_scan tz =
     (let name = takeWhile is_alpha tz
      in if 3 \<le> length name then Some (name, drop (length name) tz)
         else (case tz of
                 CHR ''<'' # p \<Rightarrow>
                   (let name = takeWhile is_quoted p
                    in case drop (length name) p of
                         CHR ''>'' # r \<Rightarrow> if 3 \<le> length name then Some (name, r) else None
                       | _ \<Rightarrow> None)
               | _ \<Rightarrow> None))"

definition parse_tzname :: "nat \<Rightarrow> tz_parse \<Rightarrow> bool \<times> tz_parse" where
  "parse_tzname w st =
     (case tzname_scan (snd st) of
        None \<Rightarrow> (False, st)
      | Some (name, r) \<Rightarrow> (True, set_rule w (rule_name_update (\<lambda>_. name)) (fst st), r))"

definition parse_offset :: "nat \<Rightarrow> tz_parse \<Rightarrow> bool \<times> tz_parse" where
  "parse_offset w st =
     (let (z, tz) = st
      in if w = 0 \<and> (tz = [] \<or> (hd tz \<noteq> CHR ''+'' \<and> hd tz \<noteq> CHR ''-'' \<and> \<not> is_digit (hd tz)))
         then (False, st)
         else
           (let (sign, tz) = (case tz of c # r \<Rightarrow> if c = CHR ''-'' then (1::int, r)
                                                 else if c = CHR ''+'' then (-1, r) else (-1, tz)
                                     | [] \<Rightarrow> (-1, tz));
                (vs, consumed) = scan_hms tz
            in if vs \<noteq> []
               then (True, set_rule w (rule_offset_update (\<lambda>_. sign * compute_offset (scanned 0 vs 2)
                                                                     (scanned 0 vs 1) (scanned 0 vs 0))) z,
                     drop consumed tz)
               else if w = 0 then (False, set_rule 0 (rule_offset_update (\<lambda>_. 0)) z, tz)
               else (True, set_rule 1 (rule_offset_update (\<lambda>_. rule_offset (tz_std z) + 3600)) z,
                     drop consumed tz)))"

text \<open>
  The date of the change in \<^verbatim>\<open>parse_rule\<close>: \<^verbatim>\<open>Jn\<close> (1--365, no leap day),
  \<^verbatim>\<open>n\<close> (0--365), \<^verbatim>\<open>Mm.n.d\<close>, or, at the end of the string, the United States
  rules \<^verbatim>\<open>M3.2.0\<close> and \<^verbatim>\<open>M11.1.0\<close>. The type and the fields \<^verbatim>\<open>sscanf\<close> converts
  are stored before the checks, so a rule that fails is left half written.
\<close>

definition parse_rule_date :: "nat \<Rightarrow> tz_rules \<Rightarrow> string \<Rightarrow> bool \<times> tz_parse" where
  "parse_rule_date w z tz =
     (case tz of
        c # r \<Rightarrow>
          if c = CHR ''J'' \<or> is_digit c then
            (let ty = (if c = CHR ''J'' then J1 else J0);
                 z = set_rule w (rule_type_update (\<lambda>_. ty)) z;
                 tz = (if ty = J1 then r else tz)
             in if ty = J1 \<and> (tz = [] \<or> \<not> is_digit (hd tz)) then (False, z, tz)
                else
                  (let ds = takeWhile is_digit tz;
                       d = strtoul_value False ds
                   in if 365 < unat d \<or> (ty = J1 \<and> d = 0) then (False, z, tz)
                      else (True, set_rule w (rule_d_update (\<lambda>_. unat d)) z, drop (length ds) tz)))
          else if c = CHR ''M'' then
            (let (vs, consumed) = scan_mnd tz;
                 r = get_rule w z;
                 z = set_rule w (\<lambda>r. r\<lparr>rule_type := M,
                                         rule_m := (if 0 < length vs then unat (vs ! 0) else rule_m r),
                                         rule_n := (if 1 < length vs then unat (vs ! 1) else rule_n r),
                                         rule_d := (if 2 < length vs then unat (vs ! 2) else rule_d r)\<rparr>) z;
                 r = get_rule w z
             in if length vs \<noteq> 3 \<or> rule_m r < 1 \<or> 12 < rule_m r \<or> rule_n r < 1 \<or> 5 < rule_n r
                   \<or> 6 < rule_d r
                then (False, z, tz)
                else (True, z, drop consumed tz))
          else (False, z, tz)
      | [] \<Rightarrow>
          (True, set_rule w (\<lambda>r. r\<lparr>rule_type := M, rule_m := (if w = 0 then 3 else 11),
                                   rule_n := (if w = 0 then 2 else 1), rule_d := 0\<rparr>) z, tz))"

text \<open>
  \<^verbatim>\<open>parse_rule\<close>: an optional comma, the date, then the end of the string, a comma,
  or \<^verbatim>\<open>/\<close> and the time of day of the change (\<open>\<plusminus>\<close>\<open>hh[:mm[:ss]]\<close>, not clamped,
  2:00 when absent).
\<close>

definition parse_rule :: "nat \<Rightarrow> tz_parse \<Rightarrow> bool \<times> tz_parse" where
  "parse_rule w st =
     (let (z, tz0) = st;
          tz = (case tz0 of c # r \<Rightarrow> if c = CHR '','' then r else tz0 | [] \<Rightarrow> tz0)
      in case parse_rule_date w z tz of
           (False, z, _) \<Rightarrow> (False, z, tz0)
         | (True, z, tz) \<Rightarrow>
             (case tz of
                [] \<Rightarrow> (True, set_rule w (rule_secs_update (\<lambda>_. 7200)) z, tz)
              | c # r \<Rightarrow>
                  if c = CHR '','' then (True, set_rule w (rule_secs_update (\<lambda>_. 7200)) z, tz)
                  else if c \<noteq> CHR ''/'' then (False, z, tz0)
                  else if r = [] then (False, z, tz0)
                  else
                    (let negative = (hd r = CHR ''-'');
                         tz = (if negative then tl r else r);
                         (vs, consumed) = scan_hms tz;
                         secs = int (scanned 2 vs 0) * 3600 + int (scanned 0 vs 1) * 60 + int (scanned 0 vs 2)
                     in (True, set_rule w (rule_secs_update (\<lambda>_. if negative then - secs else secs)) z,
                         drop consumed tz))))"

text \<open>\<^verbatim>\<open>if (parse_rule (&tz, 0)) parse_rule (&tz, 1);\<close>\<close>

definition parse_rules :: "tz_parse \<Rightarrow> tz_rules" where
  "parse_rules st = (case parse_rule 0 st of (True, st) \<Rightarrow> fst (snd (parse_rule 1 st)) | (False, z, _) \<Rightarrow> z)"

text \<open>
  What \<^verbatim>\<open>localtime_r\<close> computes with: a zoneinfo file (the result of
  \<^verbatim>\<open>__tzfile_read\<close>, left abstract), the \<^verbatim>\<open>posixrules\<close> file that
  \<^verbatim>\<open>__tzfile_default\<close> adapts to the names and offsets of a rule without dates, or the
  rules of \<^verbatim>\<open>tz_rules\<close>.
\<close>

datatype 'f tz_source = Tzfile 'f | Tzfile_default 'f string string int int | Tz_rules tz_rules

text \<open>The rules after \<^verbatim>\<open>memset (tz_rules, '\0', sizeof tz_rules)\<close>, named \<open>n\<close>.\<close>

definition tz_rule_zero :: "string \<Rightarrow> tz_rule" where
  "tz_rule_zero n = \<lparr>rule_name = n, rule_offset = 0, rule_type = J0, rule_m = 0, rule_n = 0, rule_d = 0,
                     rule_secs = 0\<rparr>"

definition tz_rules_zero :: "string \<Rightarrow> tz_rules" where
  "tz_rules_zero n = \<lparr>tz_std = tz_rule_zero n, tz_dst = tz_rule_zero n\<rparr>"

text \<open>\<^verbatim>\<open>TZDIR\<close> and \<^verbatim>\<open>TZDEFRULES\<close>; the path \<^verbatim>\<open>__tzfile_read\<close> opens for a name.\<close>

definition TZDIR :: string where "TZDIR = ''/usr/share/zoneinfo''"

definition TZDEFRULES :: string where "TZDEFRULES = ''posixrules''"

definition TZDEFAULT :: string where "TZDEFAULT = ''/etc/localtime''"

definition tzfile_path :: "string \<Rightarrow> string" where
  "tzfile_path file = (if take 1 file = ''/'' then file else TZDIR @ ''/'' @ file)"

text \<open>
  \<^verbatim>\<open>__tzfile_read\<close>: nothing for the empty name, otherwise what the file system
  \<open>fs\<close> holds at the path (\<open>None\<close>: no file, or not a valid zoneinfo file).
\<close>

definition tzfile_read :: "(string \<Rightarrow> 'f option) \<Rightarrow> string \<Rightarrow> 'f option" where
  "tzfile_read fs file = (if file = [] then None else fs (tzfile_path file))"

text \<open>
  \<^verbatim>\<open>__tzset_parse_tz\<close> up to the rules: the standard name and offset, then, unless
  the string ends there (no daylight saving time: \<^verbatim>\<open>tz_rules[1]\<close> copies the name
  and offset of \<^verbatim>\<open>tz_rules[0]\<close>), the daylight saving name and offset. It ends
  with the rules (\<open>Names_done\<close>) or with the state the rules are parsed from, and
  whether \<^verbatim>\<open>__tzfile_default\<close> is tried first (the string has no dates).
\<close>

datatype tz_names = Names_done tz_rules | Names_rules bool tz_parse

definition tzset_parse_names :: "string \<Rightarrow> tz_names" where
  "tzset_parse_names tz =
     (let z = tz_rules_zero [];
          (ok, z, tz) = parse_tzname 0 (z, tz)
      in if \<not> ok then Names_done z else
         (let (ok, z, tz) = parse_offset 0 (z, tz)
          in if \<not> ok then Names_done z
             else if tz = [] then
               Names_done (z\<lparr>tz_dst := (tz_dst z)\<lparr>rule_name := rule_name (tz_std z),
                                                     rule_offset := rule_offset (tz_std z)\<rparr>\<rparr>)
             else
               (let (ok, z, tz) = parse_tzname 1 (z, tz)
                in if \<not> ok then Names_rules False (z, tz)
                   else (let (_, z, tz) = parse_offset 1 (z, tz)
                         in Names_rules (tz = [] \<or> tz = '','') (z, tz)))))"

definition tzset_parse_tz :: "(string \<Rightarrow> 'f option) \<Rightarrow> string \<Rightarrow> 'f tz_source" where
  "tzset_parse_tz fs tz =
     (case tzset_parse_names tz of
        Names_done z \<Rightarrow> Tz_rules z
      | Names_rules try_default (z, tz) \<Rightarrow>
          (case if try_default then tzfile_read fs TZDEFRULES else None of
             Some f \<Rightarrow> Tzfile_default f (rule_name (tz_std z)) (rule_name (tz_dst z))
                         (rule_offset (tz_std z)) (rule_offset (tz_dst z))
           | None \<Rightarrow> Tz_rules (parse_rules (z, tz))))"

text \<open>
  The state \<^verbatim>\<open>tzset_internal\<close> keeps between calls: \<^verbatim>\<open>is_initialized\<close>,
  \<^verbatim>\<open>old_tz\<close> (the last value read) and what \<^verbatim>\<open>__use_tzfile\<close> and
  \<^verbatim>\<open>tz_rules\<close> select.
\<close>

record 'f tz_state =
  tz_initialized :: bool
  old_tz :: "string option"
  tz_zone :: "'f tz_source"

definition tz_state_init :: "'f tz_state" where
  "tz_state_init = \<lparr>tz_initialized = False, old_tz = None, tz_zone = Tz_rules (tz_rules_zero [])\<rparr>"

text \<open>
  \<^verbatim>\<open>tzset_internal (always)\<close> with \<^verbatim>\<open>getenv ("TZ")\<close> \<open>= env\<close>. \<^verbatim>\<open>localtime_r\<close>
  calls it with \<open>always = False\<close>, so only its first call reads \<^verbatim>\<open>TZ\<close>.
\<close>

definition tzset_internal :: "bool \<Rightarrow> (string \<Rightarrow> 'f option) \<Rightarrow> string option \<Rightarrow> 'f tz_state \<Rightarrow> 'f tz_state" where
  "tzset_internal always fs env st =
     (if tz_initialized st \<and> \<not> always then st
      else
        (let st = st\<lparr>tz_initialized := True\<rparr>;
             tz = (case env of Some [] \<Rightarrow> Some ''Universal'' | _ \<Rightarrow> env);
             tz = (case tz of Some (c # r) \<Rightarrow> if c = CHR '':'' then Some r else tz | _ \<Rightarrow> tz)
         in if old_tz st \<noteq> None \<and> tz \<noteq> None \<and> tz = old_tz st then st
            else
              (let tz = (case tz of None \<Rightarrow> TZDEFAULT | Some t \<Rightarrow> t);
                   st = st\<lparr>old_tz := Some tz\<rparr>
               in case tzfile_read fs tz of
                    Some f \<Rightarrow> st\<lparr>tz_zone := Tzfile f\<rparr>
                  | None \<Rightarrow>
                      if tz = [] \<or> tz = TZDEFAULT then st\<lparr>tz_zone := Tz_rules (tz_rules_zero ''UTC'')\<rparr>
                      else (case tzset_parse_tz fs tz of
                              Tzfile_default f a b c d \<Rightarrow> st\<lparr>old_tz := None, tz_zone := Tzfile_default f a b c d\<rparr>
                            | zn \<Rightarrow> st\<lparr>tz_zone := zn\<rparr>))))"

text \<open>
  The offset \<^verbatim>\<open>__tz_convert\<close> gives \<^verbatim>\<open>localtime_r\<close> in a state: \<^verbatim>\<open>__tz_compute\<close>
  on the rules, or \<^verbatim>\<open>__tzfile_compute\<close> on a zoneinfo file (\<open>file_gmtoff\<close>, left
  abstract).
\<close>

definition localtime_gmtoff :: "('f tz_source \<Rightarrow> int \<Rightarrow> int) \<Rightarrow> 'f tz_state \<Rightarrow> int \<Rightarrow> int" where
  "localtime_gmtoff file_gmtoff st =
     (case tz_zone st of Tz_rules z \<Rightarrow> zone_gmtoff z | src \<Rightarrow> file_gmtoff src)"

subsection \<open>Reference definitions\<close>

text \<open>The pair of offsets of the two rules.\<close>

abbreviation tz_offsets :: "tz_rules \<Rightarrow> int \<times> int" where
  "tz_offsets z \<equiv> (rule_offset (tz_std z), rule_offset (tz_dst z))"

text \<open>The ranges \<^verbatim>\<open>parse_rule\<close> checks for each kind of date.\<close>

definition tz_rule_valid :: "tz_rule \<Rightarrow> bool" where
  "tz_rule_valid r =
     (case rule_type r of
        J0 \<Rightarrow> rule_d r \<le> 365
      | J1 \<Rightarrow> 1 \<le> rule_d r \<and> rule_d r \<le> 365
      | M \<Rightarrow> 1 \<le> rule_m r \<and> rule_m r \<le> 12 \<and> 1 \<le> rule_n r \<and> rule_n r \<le> 5 \<and> rule_d r \<le> 6)"

text \<open>
  Writing rules back in POSIX form: \<open>hh:mm:ss\<close>, an offset (west of UTC positive,
  so a zone east of UTC gets a \<^verbatim>\<open>-\<close>), an \<^verbatim>\<open>M\<close> rule with its time of day, and a
  whole \<^verbatim>\<open>TZ\<close> string. \<open>posix_rule_ok\<close> says which rules that form can express:
  alphabetic names of three letters or more, offsets \<^verbatim>\<open>compute_offset\<close> does not
  clamp, \<^verbatim>\<open>M\<close> dates in range, and times of day whose hours fit an \<^verbatim>\<open>unsigned short\<close>.
\<close>

definition show_hms :: "nat \<Rightarrow> string" where
  "show_hms s = show_nat (s div 3600) @ '':'' @ show_nat (s mod 3600 div 60) @ '':'' @ show_nat (s mod 60)"

definition show_offset :: "int \<Rightarrow> string" where
  "show_offset off = (if 0 < off then ''-'' else []) @ show_hms (nat \<bar>off\<bar>)"

definition show_mrule :: "tz_rule \<Rightarrow> string" where
  "show_mrule r = '',M'' @ show_nat (rule_m r) @ ''.'' @ show_nat (rule_n r) @ ''.'' @ show_nat (rule_d r) @ ''/''
                  @ (if rule_secs r < 0 then ''-'' else []) @ show_hms (nat \<bar>rule_secs r\<bar>)"

definition posix_tz :: "tz_rules \<Rightarrow> string" where
  "posix_tz z = rule_name (tz_std z) @ show_offset (rule_offset (tz_std z))
                @ rule_name (tz_dst z) @ show_offset (rule_offset (tz_dst z))
                @ show_mrule (tz_std z) @ show_mrule (tz_dst z)"

definition posix_rule_ok :: "tz_rule \<Rightarrow> bool" where
  "posix_rule_ok r \<longleftrightarrow> 3 \<le> length (rule_name r) \<and> list_all is_alpha (rule_name r)
     \<and> \<bar>rule_offset r\<bar> \<le> 89999 \<and> rule_type r = M \<and> 1 \<le> rule_m r \<and> rule_m r \<le> 12
     \<and> 1 \<le> rule_n r \<and> rule_n r \<le> 5 \<and> rule_d r \<le> 6 \<and> \<bar>rule_secs r\<bar> < 235929600"

subsection \<open>Scanning numbers\<close>

lemma is_digit_digit_char: "d < 10 \<Longrightarrow> is_digit (digit_char d)"
  by (simp add: is_digit_def less_eq_char_def of_char_digit_char)

lemma show_nat_digits: "\<forall>c \<in> set (show_nat n). is_digit c"
  by (induction n rule: show_nat.induct) (subst show_nat.simps, simp add: is_digit_digit_char)

lemma show_nat_not_Nil: "show_nat n \<noteq> []"
  by (subst show_nat.simps) simp

lemma digits_value_snoc: "digits_value (xs @ [c]) = 10 * digits_value xs + (of_char c - 48)"
  by (simp add: digits_value_def)

lemma digits_value_show_nat: "digits_value (show_nat n) = int n"
proof (induction n rule: show_nat.induct)
  case (1 n)
  have c: "(of_char (digit_char d) :: int) = 48 + int d" if "d < 10" for d
    using of_char_digit_char [OF that] by (metis of_nat_of_char of_nat_add of_nat_numeral)
  show ?case
  proof (cases "n < 10")
    case True
    then show ?thesis by (subst show_nat.simps) (simp add: digits_value_def c)
  next
    case False
    then show ?thesis using 1 by (subst show_nat.simps) (simp add: digits_value_snoc c zdiv_int zmod_int)
  qed
qed

lemma is_digit_not_space: "is_digit c \<Longrightarrow> \<not> is_space c"
  by (auto simp: is_digit_def is_space_def less_eq_char_def)

lemma ucast_word_of_nat: "(ucast (word_of_nat n :: 64 word) :: 16 word) = word_of_nat n"
  by (rule bit_word_eqI) (auto simp: bit_simps)

lemma ucast_word_of_int: "(ucast (word_of_int i :: 64 word) :: 16 word) = word_of_int i"
  by (rule bit_word_eqI) (auto simp: bit_simps)


lemma takeWhile_digits_show_nat:
  "r = [] \<or> \<not> is_digit (hd r) \<Longrightarrow> takeWhile is_digit (show_nat n @ r) = show_nat n"
  using show_nat_digits [of n] by (cases r) (auto simp: takeWhile_append2)

lemma scan_hu_show_nat:
  assumes "n < 18446744073709551616" "r = [] \<or> \<not> is_digit (hd r)"
  shows "scan_hu (show_nat n @ r) = Some (word_of_nat n, r)"
proof -
  obtain c cs where s: "show_nat n = c # cs" using show_nat_not_Nil [of n] by (cases "show_nat n") auto
  have c: "is_digit c" using show_nat_digits [of n] s by simp
  then have "\<not> is_space c" "c \<noteq> CHR ''-''" "c \<noteq> CHR ''+''"
    by (auto simp: is_digit_not_space is_digit_def)
  then have d: "dropWhile is_space (show_nat n @ r) = show_nat n @ r" by (simp add: s)
  have v: "strtoul_value False (show_nat n) = word_of_int (int n)"
    using assms(1) by (simp add: strtoul_value_def digits_value_show_nat)
  have sg: "(case show_nat n @ r of [] \<Rightarrow> (False, show_nat n @ r)
              | c # r' \<Rightarrow> if c = CHR ''-'' then (True, r') else if c = CHR ''+'' then (False, r')
                          else (False, show_nat n @ r)) = (False, show_nat n @ r)"
    using \<open>c \<noteq> CHR ''-''\<close> \<open>c \<noteq> CHR ''+''\<close> by (simp add: s)
  show ?thesis
    unfolding scan_hu_def Let_def d sg
    by (simp add: takeWhile_digits_show_nat [OF assms(2)] v ucast_word_of_int ucast_word_of_nat show_nat_not_Nil)
qed

lemma unat_word_of_nat_16: "n < 65536 \<Longrightarrow> unat (word_of_nat n :: 16 word) = n"
  by (simp add: unsigned_of_nat take_bit_nat_eq_self)

lemma not_digit_colon [simp]: "\<not> is_digit CHR '':''" and not_digit_dot [simp]: "\<not> is_digit CHR ''.''"
  and not_digit_comma [simp]: "\<not> is_digit CHR '',''" and not_digit_slash [simp]: "\<not> is_digit CHR ''/''"
  by (simp_all add: is_digit_def less_eq_char_def)

lemma hms_nat: "s div 3600 * 3600 + s mod 3600 div 60 * 60 + s mod 60 = (s::nat)"
proof -
  have "s mod 3600 div 60 * 60 + s mod 60 = s mod 3600"
    using div_mult_mod_eq [of "s mod 3600" 60] mod_mod_cancel [of 60 3600 s] by simp
  then show ?thesis
    using div_mult_mod_eq [of s 3600] by linarith
qed

lemma hms_secs: "int (s div 3600) * 3600 + int (s mod 3600 div 60) * 60 + int (s mod 60) = int s"
  using arg_cong [OF hms_nat [of s], of int] by simp

lemma compute_offset_hms: "s \<le> 89999 \<Longrightarrow> compute_offset (s mod 60) (s mod 3600 div 60) (s div 3600) = int s"
proof -
  assume "s \<le> 89999"
  then have "min (s div 3600) 24 = s div 3600" "min (s mod 60) 59 = s mod 60"
    "min (s mod 3600 div 60) 59 = s mod 3600 div 60" by auto
  then show ?thesis using hms_secs [of s] by (simp add: compute_offset_def)
qed

lemma scan_hms_show:
  assumes "scan_hu (show_nat a @ '':'' @ show_nat b @ '':'' @ show_nat c @ r) =
          Some (x, '':'' @ show_nat b @ '':'' @ show_nat c @ r)"
   "scan_hu (show_nat b @ '':'' @ show_nat c @ r) = Some (y, '':'' @ show_nat c @ r)"
   "scan_hu (show_nat c @ r) = Some (z, r)"
  shows "scan_hms (show_nat a @ '':'' @ show_nat b @ '':'' @ show_nat c @ r) =
           ([x, y, z], length (show_nat a @ '':'' @ show_nat b @ '':'' @ show_nat c))"
  using assms unfolding scan_hms_def by simp

lemma show_nat_hd_digit: "is_digit (hd (show_nat n))"
  using show_nat_digits [of n] show_nat_not_Nil [of n] by (cases "show_nat n") auto

lemma show_hms_not_Nil: "show_hms s \<noteq> []" and show_hms_hd: "is_digit (hd (show_hms s))"
  by (simp_all add: show_hms_def show_nat_not_Nil show_nat_hd_digit)

lemma scan_hms_show_hms:
  assumes "s < 235929600" "r = [] \<or> \<not> is_digit (hd r)"
  shows "scan_hms (show_hms s @ r) = ([word_of_nat (s div 3600), word_of_nat (s mod 3600 div 60),
                                      word_of_nat (s mod 60)], length (show_hms s))"
proof -
  have "s div 3600 < 18446744073709551616" "s mod 3600 div 60 < 18446744073709551616"
       "s mod 60 < 18446744073709551616" using assms(1) by simp_all
  then show ?thesis
    using assms(2) unfolding show_hms_def append_assoc
    by (intro scan_hms_show scan_hu_show_nat) simp_all
qed

lemma hms_scanned:
  assumes "s < 235929600"
  shows "scanned d [word_of_nat (s div 3600), word_of_nat (s mod 3600 div 60), word_of_nat (s mod 60)] 0 = s div 3600"
    "scanned d [word_of_nat (s div 3600), word_of_nat (s mod 3600 div 60), word_of_nat (s mod 60)] (Suc 0) = s mod 3600 div 60"
    "scanned d [word_of_nat (s div 3600), word_of_nat (s mod 3600 div 60), word_of_nat (s mod 60)] 2 = s mod 60"
  using assms by (simp_all add: scanned_def unat_word_of_nat_16)

lemma scan_mnd_show:
  assumes "m < 65536" "n < 65536" "d < 65536" "r = [] \<or> \<not> is_digit (hd r)"
  shows "scan_mnd (''M'' @ show_nat m @ ''.'' @ show_nat n @ ''.'' @ show_nat d @ r) =
           ([word_of_nat m, word_of_nat n, word_of_nat d],
            length (''M'' @ show_nat m @ ''.'' @ show_nat n @ ''.'' @ show_nat d))"
proof -
  have "scan_hu (show_nat m @ ''.'' @ show_nat n @ ''.'' @ show_nat d @ r) =
          Some (word_of_nat m, ''.'' @ show_nat n @ ''.'' @ show_nat d @ r)"
    using assms(1) by (intro scan_hu_show_nat) simp_all
  moreover have "scan_hu (show_nat n @ ''.'' @ show_nat d @ r) = Some (word_of_nat n, ''.'' @ show_nat d @ r)"
    using assms(2) by (intro scan_hu_show_nat) simp_all
  moreover have "scan_hu (show_nat d @ r) = Some (word_of_nat d, r)"
    using assms(3,4) by (intro scan_hu_show_nat) simp_all
  ultimately show ?thesis by (simp add: scan_mnd_def)
qed

text \<open>
  C40. \<^verbatim>\<open>sscanf\<close>'s \<^verbatim>\<open>%hu\<close> reads back a number printed in decimal and followed
  by a non-digit, as the number modulo \<open>2^16\<close> (the \<^verbatim>\<open>unsigned short\<close> it is
  stored into), for every number below \<open>2^64\<close> (past it \<^verbatim>\<open>strtoul\<close> saturates).
\<close>

theorem hu_reads_printed_number:
  assumes "n < 18446744073709551616" "r = [] \<or> \<not> is_digit (hd r)"
  shows "scan_hu (show_nat n @ r) = Some (word_of_nat n, r) \<and> unat (word_of_nat n :: 16 word) = n mod 65536"
  using scan_hu_show_nat [OF assms] by (simp add: unsigned_of_nat take_bit_nat_def)

lemma hu_reads_printed_number_witness:
  "(70000::nat) < 18446744073709551616 \<and> (''.5'' = [] \<or> \<not> is_digit (hd ''.5'')) \<and>
   scan_hu (show_nat 70000 @ ''.5'') = Some (word_of_nat 70000, ''.5'') \<and> unat (word_of_nat 70000 :: 16 word) = 4464"
proof -
  have h: "(70000::nat) < 18446744073709551616" "''.5'' = [] \<or> \<not> is_digit (hd ''.5'')" by simp_all
  show ?thesis using h hu_reads_printed_number [OF h] by simp
qed


subsection \<open>The offsets the parser stores\<close>

text \<open>
  Only \<^verbatim>\<open>parse_offset\<close> writes offsets. Standard time gets
  \<open>\<plusminus>\<close>\<^verbatim>\<open>compute_offset\<close>, at most 24:59:59; daylight saving time the same, or an
  hour more than standard time when it has no offset of its own.
\<close>

lemma parse_tzname_offsets: "parse_tzname w (z, tz) = (b, z', r) \<Longrightarrow> tz_offsets z' = tz_offsets z"
  by (auto simp: parse_tzname_def set_rule_def split: option.splits)

lemma parse_rule_date_offsets: "parse_rule_date w z tz = (b, z', r) \<Longrightarrow> tz_offsets z' = tz_offsets z"
  by (auto simp: parse_rule_date_def set_rule_def Let_def split: list.splits if_splits prod.splits)

lemma parse_rule_offsets: "parse_rule w (z, tz) = (b, z', r) \<Longrightarrow> tz_offsets z' = tz_offsets z"
  by (auto simp: parse_rule_def set_rule_def Let_def dest!: parse_rule_date_offsets
           split: list.splits if_splits prod.splits bool.splits)

lemma parse_rule_offsets': "tz_offsets (fst (snd (parse_rule w st))) = tz_offsets (fst st)"
  by (cases st, cases "parse_rule w st") (auto dest: parse_rule_offsets)

lemma parse_rules_offsets: "tz_offsets (parse_rules (z, tz)) = tz_offsets z"
  using parse_rule_offsets' [of "Suc 0"]
  by (auto simp: parse_rules_def dest!: parse_rule_offsets split: prod.splits bool.splits)

lemma compute_offset_nonneg: "0 \<le> compute_offset ss mm hh"
  by (simp add: compute_offset_def)

lemma abs_compute_offset [simp]: "89999 \<le> b \<Longrightarrow> \<bar>compute_offset ss mm hh\<bar> \<le> b"
  using compute_offset_le [of ss mm hh] compute_offset_nonneg [of ss mm hh] by simp

lemma parse_offset_std:
  "parse_offset 0 (z, tz) = (b, z', r) \<Longrightarrow> rule_offset (tz_dst z') = rule_offset (tz_dst z) \<and>
     (\<bar>rule_offset (tz_std z)\<bar> \<le> 89999 \<longrightarrow> \<bar>rule_offset (tz_std z')\<bar> \<le> 89999)"
  by (auto simp: parse_offset_def set_rule_def Let_def split: list.splits if_splits prod.splits)

lemma parse_offset_dst:
  "parse_offset 1 (z, tz) = (b, z', r) \<Longrightarrow> \<bar>rule_offset (tz_std z)\<bar> \<le> 89999 \<Longrightarrow>
     rule_offset (tz_std z') = rule_offset (tz_std z) \<and> \<bar>rule_offset (tz_dst z')\<bar> \<le> 93599"
  by (auto simp: parse_offset_def set_rule_def Let_def split: list.splits if_splits prod.splits)

lemma tzset_parse_names_eq:
  assumes "parse_tzname 0 (tz_rules_zero [], tz) = (b1, z1, t1)" "parse_offset 0 (z1, t1) = (b2, z2, t2)"
    and "parse_tzname 1 (z2, t2) = (b3, z3, t3)" "parse_offset 1 (z3, t3) = (b4, z4, t4)"
  shows "tzset_parse_names tz =
    (if \<not> b1 then Names_done z1 else if \<not> b2 then Names_done z2
     else if t2 = [] then Names_done (z2\<lparr>tz_dst := (tz_dst z2)\<lparr>rule_name := rule_name (tz_std z2),
                                                   rule_offset := rule_offset (tz_std z2)\<rparr>\<rparr>)
     else if \<not> b3 then Names_rules False (z3, t3)
     else Names_rules (t4 = [] \<or> t4 = '','') (z4, t4))"
  using assms by (simp add: tzset_parse_names_def)

lemma tzset_parse_tz_bounded:
  assumes "tzset_parse_tz fs tz = Tz_rules z"
  shows "\<bar>rule_offset (tz_std z)\<bar> \<le> 89999 \<and> \<bar>rule_offset (tz_dst z)\<bar> \<le> 93599"
proof -
  obtain b1 z1 t1 where p1: "parse_tzname 0 (tz_rules_zero [], tz) = (b1, z1, t1)"
    by (metis prod.exhaust)
  obtain b2 z2 t2 where p2: "parse_offset 0 (z1, t1) = (b2, z2, t2)" by (metis prod.exhaust)
  obtain b3 z3 t3 where p3: "parse_tzname 1 (z2, t2) = (b3, z3, t3)" by (metis prod.exhaust)
  obtain b4 z4 t4 where p4: "parse_offset 1 (z3, t3) = (b4, z4, t4)" by (metis prod.exhaust)
  have o1: "tz_offsets z1 = (0, 0)"
    using parse_tzname_offsets [OF p1] by (simp add: tz_rules_zero_def tz_rule_zero_def)
  have o2: "\<bar>rule_offset (tz_std z2)\<bar> \<le> 89999" "rule_offset (tz_dst z2) = 0"
    using parse_offset_std [OF p2] o1 by simp_all
  have o3: "tz_offsets z3 = tz_offsets z2" by (rule parse_tzname_offsets [OF p3])
  have o4: "\<bar>rule_offset (tz_std z4)\<bar> \<le> 89999" "\<bar>rule_offset (tz_dst z4)\<bar> \<le> 93599"
    using parse_offset_dst [OF p4] o2 o3 by simp_all
  show ?thesis
    using assms o1 o2 o3 o4 parse_rules_offsets [of z3 t3] parse_rules_offsets [of z4 t4]
    unfolding tzset_parse_tz_def tzset_parse_names_eq [OF p1 p2 p3 p4]
    by (auto split: if_splits option.splits)
qed

text \<open>
  C12. Every rule set \<^verbatim>\<open>__tzset_parse_tz\<close> leaves, for any \<^verbatim>\<open>TZ\<close> string, has a
  standard offset of at most 24:59:59 and a daylight saving offset of at most 25:59:59
  (an explicit offset is clamped by \<^verbatim>\<open>compute_offset\<close>; without one, daylight saving
  time is an hour ahead of standard time).
\<close>

theorem tzset_parse_tz_offsets:
  assumes "tzset_parse_tz fs tz = Tz_rules z"
  shows "\<bar>rule_offset (tz_std z)\<bar> \<le> 89999 \<and> \<bar>rule_offset (tz_dst z)\<bar> \<le> 93599"
  using assms by (rule tzset_parse_tz_bounded)

lemma tzset_parse_tz_ok: "tzset_parse_tz fs tz = Tz_rules z \<Longrightarrow> tz_rules_ok z"
  using tzset_parse_tz_bounded [of fs tz z] by (simp add: tz_rules_ok_def)

subsection \<open>Concrete zones\<close>

lemma berlin_names:
  "tzset_parse_names ''CET-1CEST,M3.5.0,M10.5.0/3'' = Names_rules False
     (\<lparr>tz_std = (tz_rule_zero ''CET'')\<lparr>rule_offset := 3600\<rparr>, tz_dst = (tz_rule_zero ''CEST'')\<lparr>rule_offset := 7200\<rparr>\<rparr>,
      '',M3.5.0,M10.5.0/3'')"
  by code_simp

lemma berlin_rules:
  "parse_rules (\<lparr>tz_std = (tz_rule_zero ''CET'')\<lparr>rule_offset := 3600\<rparr>, tz_dst = (tz_rule_zero ''CEST'')\<lparr>rule_offset := 7200\<rparr>\<rparr>,
                 '',M3.5.0,M10.5.0/3'') = berlin"
  by code_simp


lemma tzset_parse_tz_offsets_witness:
  "tzset_parse_tz (\<lambda>_. None :: unit option) ''CET-1CEST,M3.5.0,M10.5.0/3'' = Tz_rules berlin \<and>
   \<bar>rule_offset (tz_std berlin)\<bar> \<le> 89999 \<and> \<bar>rule_offset (tz_dst berlin)\<bar> \<le> 93599"
proof -
  have h: "tzset_parse_tz (\<lambda>_. None :: unit option) ''CET-1CEST,M3.5.0,M10.5.0/3'' = Tz_rules berlin"
    by (simp add: tzset_parse_tz_def berlin_names berlin_rules)
  show ?thesis using h tzset_parse_tz_offsets [OF h] by simp
qed


subsection \<open>Rules that parse are in range; rules that do not\<close>

lemma get_set_rule [simp]: "get_rule w (set_rule w f z) = f (get_rule w z)"
  by (simp add: get_rule_def set_rule_def)

lemma parse_rule_date_valid:
  "parse_rule_date w z tz = (True, z', r) \<Longrightarrow> tz_rule_valid (get_rule w z')"
  by (auto simp: parse_rule_date_def tz_rule_valid_def Let_def Suc_le_eq unat_gt_0
           split: list.splits if_splits prod.splits)

lemma tz_rule_valid_secs [simp]: "tz_rule_valid (r\<lparr>rule_secs := s\<rparr>) = tz_rule_valid r"
  by (simp add: tz_rule_valid_def split: rule_type.split)

text \<open>
  C22. When \<^verbatim>\<open>parse_rule\<close> succeeds, the rule it wrote is in range: a \<^verbatim>\<open>Jn\<close>
  day in 1--365, an \<open>n\<close> day in 0--365, an \<^verbatim>\<open>M\<close> rule with month 1--12, week 1--5
  and weekday 0--6 (the ranges \<^verbatim>\<open>compute_change\<close> relies on).
\<close>

theorem parse_rule_valid:
  "parse_rule w st = (True, z', r) \<Longrightarrow> tz_rule_valid (get_rule w z')"
  by (auto simp: parse_rule_def Let_def dest: parse_rule_date_valid
           split: prod.splits bool.splits list.splits if_splits)

lemma parse_rule_valid_witness:
  "parse_rule 0 (tz_rules_zero [], '',M3.5.0'') =
     (True, (tz_rules_zero [])\<lparr>tz_std := (tz_rule_zero [])\<lparr>rule_type := M, rule_m := 3, rule_n := 5,
                                                   rule_secs := 7200\<rparr>\<rparr>, []) \<and>
   tz_rule_valid (get_rule 0 ((tz_rules_zero [])\<lparr>tz_std := (tz_rule_zero [])\<lparr>rule_type := M, rule_m := 3,
                                                   rule_n := 5, rule_secs := 7200\<rparr>\<rparr>))"
proof -
  have h: "parse_rule 0 (tz_rules_zero [], '',M3.5.0'') =
     (True, (tz_rules_zero [])\<lparr>tz_std := (tz_rule_zero [])\<lparr>rule_type := M, rule_m := 3, rule_n := 5,
                                                   rule_secs := 7200\<rparr>\<rparr>, [])"
    by code_simp
  show ?thesis using h parse_rule_valid [OF h] by simp
qed


lemma tzname_no_offset:
  assumes "tzname_scan tz = Some (name, r)"
    and "r = [] \<or> (hd r \<noteq> CHR ''+'' \<and> hd r \<noteq> CHR ''-'' \<and> \<not> is_digit (hd r))"
  shows "tzset_parse_tz fs tz = Tz_rules ((tz_rules_zero [])\<lparr>tz_std := tz_rule_zero name\<rparr>)"
  using assms
  by (auto simp: tzset_parse_tz_def tzset_parse_names_def parse_tzname_def parse_offset_def set_rule_def
                 tz_rules_zero_def tz_rule_zero_def)

lemma zero_rules_gmtoff: "zone_gmtoff ((tz_rules_zero [])\<lparr>tz_std := tz_rule_zero name\<rparr>) t = 0"
  using zone_gmtoff_choice [of "(tz_rules_zero [])\<lparr>tz_std := tz_rule_zero name\<rparr>" t]
  by (auto simp: tz_rules_zero_def tz_rule_zero_def)

text \<open>
  C14. A \<^verbatim>\<open>TZ\<close> value that starts with a zone name not followed by an offset, such as
  \<^verbatim>\<open>Europe/Berlin\<close> where no zoneinfo file of that name exists, parses to rules
  with offset 0 in both standard and daylight saving time: local time is UTC.
\<close>

theorem tz_name_without_offset_is_utc:
  assumes "tzname_scan tz = Some (name, r)"
    and "r = [] \<or> (hd r \<noteq> CHR ''+'' \<and> hd r \<noteq> CHR ''-'' \<and> \<not> is_digit (hd r))"
  shows "tzset_parse_tz fs tz = Tz_rules ((tz_rules_zero [])\<lparr>tz_std := tz_rule_zero name\<rparr>) \<and>
         zone_gmtoff ((tz_rules_zero [])\<lparr>tz_std := tz_rule_zero name\<rparr>) t = 0"
  using tzname_no_offset [OF assms] zero_rules_gmtoff by simp

lemma tz_name_without_offset_is_utc_witness:
  "tzname_scan ''Europe/Berlin'' = Some (''Europe'', ''/Berlin'') \<and>
   tzset_parse_tz (\<lambda>_. None :: unit option) ''Europe/Berlin'' =
     Tz_rules ((tz_rules_zero [])\<lparr>tz_std := tz_rule_zero ''Europe''\<rparr>) \<and>
   zone_gmtoff ((tz_rules_zero [])\<lparr>tz_std := tz_rule_zero ''Europe''\<rparr>) 1700000000 = 0"
proof -
  have h: "tzname_scan ''Europe/Berlin'' = Some (''Europe'', ''/Berlin'')" by code_simp
  have h2: "''/Berlin'' = [] \<or> (hd ''/Berlin'' \<noteq> CHR ''+'' \<and> hd ''/Berlin'' \<noteq> CHR ''-'' \<and> \<not> is_digit (hd ''/Berlin''))"
    by simp
  show ?thesis
    using h tz_name_without_offset_is_utc [OF h h2, of "\<lambda>_. None :: unit option" 1700000000] by simp
qed

subsection \<open>\<^verbatim>\<open>tzset_internal\<close>\<close>

lemma tzset_internal_initialized: "tz_initialized (tzset_internal always fs env st)"
  by (simp add: tzset_internal_def Let_def split: option.splits tz_source.splits)

lemma tzset_internal_read_once: "tz_initialized st \<Longrightarrow> tzset_internal False fs env st = st"
  by (simp add: tzset_internal_def)


lemma tzset_parse_tz_no_tzdata: "\<exists>z. tzset_parse_tz (\<lambda>_. None) tz = Tz_rules z"
  by (auto simp: tzset_parse_tz_def tzfile_read_def split: tz_names.splits prod.splits)

lemma tz_rules_zero_ok: "tz_rules_ok (tz_rules_zero n)"
  by (simp add: tz_rules_ok_def tz_rules_zero_def tz_rule_zero_def)

text \<open>Without zoneinfo files, the first call always ends with rules, within the bound.\<close>

lemma tzset_no_tzdata:
  "\<exists>z. tz_zone (tzset_internal always (\<lambda>_. None :: 'f option) env tz_state_init) = Tz_rules z \<and> tz_rules_ok z"
proof -
  obtain g where g: "\<And>tz. tzset_parse_tz (\<lambda>_. None :: 'f option) tz = Tz_rules (g tz)"
    using tzset_parse_tz_no_tzdata by metis
  have "tz_rules_ok (g tz)" for tz using tzset_parse_tz_ok [OF g] .
  then show ?thesis
    by (auto simp: tzset_internal_def tz_state_init_def Let_def tzfile_read_def g tz_rules_zero_ok
             split: option.splits)
qed


subsection \<open>Rules written in POSIX form are read back\<close>

lemma is_digit_not_alpha: "is_digit c \<Longrightarrow> \<not> is_alpha c"
  by (auto simp: is_digit_def is_alpha_def less_eq_char_def)

lemma is_alpha_not_digit: "is_alpha c \<Longrightarrow> \<not> is_digit c"
  using is_digit_not_alpha by blast

lemma tzname_scan_name:
  assumes "3 \<le> length n" "list_all is_alpha n" "r = [] \<or> \<not> is_alpha (hd r)"
  shows "tzname_scan (n @ r) = Some (n, r)"
proof -
  have "takeWhile is_alpha (n @ r) = n"
    using assms(2,3) by (cases r) (auto simp: takeWhile_append2 list_all_iff)
  then show ?thesis using assms(1) by (simp add: tzname_scan_def)
qed

lemma show_offset_hd: "hd (show_offset off @ r) = CHR ''-'' \<or> is_digit (hd (show_offset off @ r))"
  by (simp add: show_offset_def show_hms_not_Nil show_hms_hd)

lemma show_offset_not_alpha: "\<not> is_alpha (hd (show_offset off @ r))"
proof -
  have "\<not> is_alpha CHR ''-''" by (simp add: is_alpha_def less_eq_char_def)
  then show ?thesis using show_offset_hd [of off r] is_digit_not_alpha by metis
qed

lemma parse_offset_show:
  assumes "\<bar>off\<bar> \<le> 89999" "r = [] \<or> \<not> is_digit (hd r)"
  shows "parse_offset w (z, show_offset off @ r) = (True, set_rule w (rule_offset_update (\<lambda>_. off)) z, r)"
proof -
  define s where "s = nat \<bar>off\<bar>"
  have s: "s < 235929600" "s \<le> 89999" using assms(1) by (simp_all add: s_def)
  have so: "show_offset off = (if 0 < off then ''-'' else []) @ show_hms s"
    by (simp add: show_offset_def s_def)
  have o: "(if 0 < off then 1 else -1) * int s = off" by (simp add: s_def)
  have sc: "scan_hms (show_hms s @ r) = ([word_of_nat (s div 3600), word_of_nat (s mod 3600 div 60),
                                      word_of_nat (s mod 60)], length (show_hms s))"
    by (rule scan_hms_show_hms [OF s(1) assms(2)])
  have d: "is_digit (hd (show_hms s @ r))" "show_hms s @ r \<noteq> []"
    by (simp_all add: show_hms_not_Nil show_hms_hd)
  then have nd: "hd (show_hms s @ r) \<noteq> CHR ''-''" "hd (show_hms s @ r) \<noteq> CHR ''+''"
    by (auto simp: is_digit_def)
  obtain c cs where c: "show_hms s @ r = c # cs" using d(2) by (cases "show_hms s @ r") auto
  have dr: "drop (length (show_hms s)) (c # cs) = r" by (simp flip: c)
  show ?thesis
  proof (cases "0 < off")
    case True
    then show ?thesis
      using sc compute_offset_hms [OF s(2)] o
      by (simp add: parse_offset_def so hms_scanned [OF s(1)])
  next
    case False
    then show ?thesis
      using sc compute_offset_hms [OF s(2)] d nd c o dr
      by (simp add: parse_offset_def so hms_scanned [OF s(1)])
  qed
qed

lemma set_rule_set_rule [simp]: "set_rule w f (set_rule w g z) = set_rule w (f \<circ> g) z"
  by (simp add: set_rule_def)

lemma parse_rule_date_show:
  assumes "1 \<le> m" "m \<le> 12" "1 \<le> n" "n \<le> 5" "d \<le> 6" "r = [] \<or> \<not> is_digit (hd r)"
  shows "parse_rule_date w z (''M'' @ show_nat m @ ''.'' @ show_nat n @ ''.'' @ show_nat d @ r) =
           (True, set_rule w (\<lambda>x. x\<lparr>rule_type := M, rule_m := m, rule_n := n, rule_d := d\<rparr>) z, r)"
proof -
  have sc: "scan_mnd (''M'' @ show_nat m @ ''.'' @ show_nat n @ ''.'' @ show_nat d @ r) =
           ([word_of_nat m, word_of_nat n, word_of_nat d],
            length (''M'' @ show_nat m @ ''.'' @ show_nat n @ ''.'' @ show_nat d))"
    using assms by (intro scan_mnd_show) simp_all
  have u: "unat (word_of_nat m :: 16 word) = m" "unat (word_of_nat n :: 16 word) = n"
    "unat (word_of_nat d :: 16 word) = d"
    using assms by (simp_all add: unat_word_of_nat_16)
  have "\<not> is_digit CHR ''M''" by (simp add: is_digit_def less_eq_char_def)
  then show ?thesis
    using assms(1-5) by (simp add: parse_rule_date_def sc [simplified] u get_rule_def set_rule_def)
qed

lemma parse_rule_show:
  assumes "1 \<le> rule_m r" "rule_m r \<le> 12" "1 \<le> rule_n r" "rule_n r \<le> 5" "rule_d r \<le> 6"
    and "\<bar>rule_secs r\<bar> < 235929600" "rest = [] \<or> hd rest = CHR '',''"
  shows "parse_rule w (z, show_mrule r @ rest) =
           (True, set_rule w (\<lambda>x. x\<lparr>rule_type := M, rule_m := rule_m r, rule_n := rule_n r,
                                     rule_d := rule_d r, rule_secs := rule_secs r\<rparr>) z, rest)"
proof -
  define s where "s = nat \<bar>rule_secs r\<bar>"
  define tm where "tm = (if rule_secs r < 0 then ''-'' else []) @ show_hms s"
  have s: "s < 235929600" using assms(6) by (simp add: s_def)
  have rest: "rest = [] \<or> \<not> is_digit (hd rest)" using assms(7) by auto
  have sm: "show_mrule r @ rest = CHR '','' # (''M'' @ show_nat (rule_m r) @ ''.'' @ show_nat (rule_n r) @ ''.''
              @ show_nat (rule_d r) @ (CHR ''/'' # (tm @ rest)))"
    by (simp add: show_mrule_def tm_def s_def)
  have dt: "parse_rule_date w z (''M'' @ show_nat (rule_m r) @ ''.'' @ show_nat (rule_n r) @ ''.''
              @ show_nat (rule_d r) @ (CHR ''/'' # (tm @ rest))) =
           (True, set_rule w (\<lambda>x. x\<lparr>rule_type := M, rule_m := rule_m r, rule_n := rule_n r,
                                     rule_d := rule_d r\<rparr>) z, CHR ''/'' # (tm @ rest))"
    using assms(1-5) by (intro parse_rule_date_show) simp_all
  have sc: "scan_hms (show_hms s @ rest) = ([word_of_nat (s div 3600), word_of_nat (s mod 3600 div 60),
                                      word_of_nat (s mod 60)], length (show_hms s))"
    by (rule scan_hms_show_hms [OF s rest])
  have h: "is_digit (hd (show_hms s @ rest))" "show_hms s @ rest \<noteq> []"
    by (simp_all add: show_hms_not_Nil show_hms_hd)
  have neg: "(hd (tm @ rest) = CHR ''-'') = (rule_secs r < 0)" "tm @ rest \<noteq> []"
    using h by (auto simp: tm_def is_digit_def)
  have tl: "(if rule_secs r < 0 then tl (tm @ rest) else tm @ rest) = show_hms s @ rest"
    by (simp add: tm_def)
  have secs: "rule_secs r < 0 \<Longrightarrow> - (int (s div 3600) * 3600) - int (s mod 3600 div 60) * 60 - int (s mod 60) = rule_secs r"
    "\<not> rule_secs r < 0 \<Longrightarrow> int (s div 3600) * 3600 + int (s mod 3600 div 60) * 60 + int (s mod 60) = rule_secs r"
    using hms_secs [of s] by (simp_all add: s_def)
  show ?thesis
    unfolding sm parse_rule_def Let_def
    using dt sc neg tl secs
    by (cases "rule_secs r < 0") (simp_all add: hms_scanned [OF s] comp_def)
qed

lemma posix_name_hd: "3 \<le> length n \<Longrightarrow> list_all is_alpha n \<Longrightarrow> n @ r \<noteq> [] \<and> \<not> is_digit (hd (n @ r))"
  by (cases n) (auto simp: is_alpha_not_digit)

lemma show_mrule_hd: "show_mrule r @ rest \<noteq> [] \<and> hd (show_mrule r @ rest) = CHR '','' \<and> show_mrule r @ rest \<noteq> '',''"
  by (simp add: show_mrule_def)

text \<open>
  C13. \<^verbatim>\<open>__tzset_parse_tz\<close> reads back every pair of \<^verbatim>\<open>M\<close> rules written as a POSIX
  \<^verbatim>\<open>TZ\<close> string (names, offsets and both dates with their times of day), whatever
  zoneinfo files exist: parsing inverts \<open>posix_tz\<close> on the rules it can express.
\<close>

theorem posix_tz_roundtrip:
  assumes "posix_rule_ok (tz_std z)" "posix_rule_ok (tz_dst z)"
  shows "tzset_parse_tz fs (posix_tz z) = Tz_rules z"
proof -
  let ?n0 = "rule_name (tz_std z)" and ?n1 = "rule_name (tz_dst z)"
  let ?o0 = "rule_offset (tz_std z)" and ?o1 = "rule_offset (tz_dst z)"
  let ?R = "show_mrule (tz_std z) @ show_mrule (tz_dst z)"
  have ok: "3 \<le> length ?n0" "list_all is_alpha ?n0" "\<bar>?o0\<bar> \<le> 89999"
           "3 \<le> length ?n1" "list_all is_alpha ?n1" "\<bar>?o1\<bar> \<le> 89999"
    using assms by (simp_all add: posix_rule_ok_def)
  define z1 where "z1 = set_rule 0 (rule_name_update (\<lambda>_. ?n0)) (tz_rules_zero [])"
  define z2 where "z2 = set_rule 0 (rule_offset_update (\<lambda>_. ?o0)) z1"
  define z3 where "z3 = set_rule 1 (rule_name_update (\<lambda>_. ?n1)) z2"
  define z4 where "z4 = set_rule 1 (rule_offset_update (\<lambda>_. ?o1)) z3"
  have p1: "parse_tzname 0 (tz_rules_zero [], posix_tz z) =
              (True, z1, show_offset ?o0 @ ?n1 @ show_offset ?o1 @ ?R)"
    using tzname_scan_name [OF ok(1,2), of "show_offset ?o0 @ ?n1 @ show_offset ?o1 @ ?R"]
      show_offset_not_alpha
    by (simp add: parse_tzname_def posix_tz_def z1_def)
  have p2: "parse_offset 0 (z1, show_offset ?o0 @ ?n1 @ show_offset ?o1 @ ?R) =
              (True, z2, ?n1 @ show_offset ?o1 @ ?R)"
    using posix_name_hd [OF ok(4,5), of "show_offset ?o1 @ ?R"]
    by (simp add: z2_def parse_offset_show [OF ok(3)])
  have p3: "parse_tzname 1 (z2, ?n1 @ show_offset ?o1 @ ?R) = (True, z3, show_offset ?o1 @ ?R)"
    using tzname_scan_name [OF ok(4,5), of "show_offset ?o1 @ ?R"] show_offset_not_alpha
    by (simp add: parse_tzname_def z3_def)
  have p4: "parse_offset 1 (z3, show_offset ?o1 @ ?R) = (True, z4, ?R)"
    using show_mrule_hd [of "tz_std z" "show_mrule (tz_dst z)"]
    by (simp add: z4_def parse_offset_show [OF ok(6)])
  have names: "tzset_parse_names (posix_tz z) = Names_rules False (z4, ?R)"
    using posix_name_hd [OF ok(4,5), of "show_offset ?o1 @ ?R"]
      show_mrule_hd [of "tz_std z" "show_mrule (tz_dst z)"]
    by (simp add: tzset_parse_names_eq [OF p1 p2 p3 p4])
  have r0: "parse_rule 0 (z4, ?R) =
     (True, set_rule 0 (\<lambda>x. x\<lparr>rule_type := M, rule_m := rule_m (tz_std z), rule_n := rule_n (tz_std z),
                                rule_d := rule_d (tz_std z), rule_secs := rule_secs (tz_std z)\<rparr>) z4,
      show_mrule (tz_dst z))"
    using assms(1) show_mrule_hd [of "tz_dst z" "[]"]
    by (intro parse_rule_show) (simp_all add: posix_rule_ok_def)
  have r1: "parse_rule 1 (z5, show_mrule (tz_dst z)) =
     (True, set_rule 1 (\<lambda>x. x\<lparr>rule_type := M, rule_m := rule_m (tz_dst z), rule_n := rule_n (tz_dst z),
                                rule_d := rule_d (tz_dst z), rule_secs := rule_secs (tz_dst z)\<rparr>) z5, [])" for z5
    using assms(2) parse_rule_show [of "tz_dst z" "[]" 1 z5]
    by (simp add: posix_rule_ok_def)
  define f0 :: "tz_rule \<Rightarrow> tz_rule" where "f0 = (\<lambda>x. x\<lparr>rule_type := M, rule_m := rule_m (tz_std z), rule_n := rule_n (tz_std z),
                                rule_d := rule_d (tz_std z), rule_secs := rule_secs (tz_std z)\<rparr>)"
  define f1 :: "tz_rule \<Rightarrow> tz_rule" where "f1 = (\<lambda>x. x\<lparr>rule_type := M, rule_m := rule_m (tz_dst z), rule_n := rule_n (tz_dst z),
                                rule_d := rule_d (tz_dst z), rule_secs := rule_secs (tz_dst z)\<rparr>)"
  have "parse_rules (z4, ?R) = set_rule 1 f1 (set_rule 0 f0 z4)"
    using r0 r1 by (simp add: parse_rules_def f0_def f1_def)
  also have "\<dots> = z"
    using assms
    by (simp add: f0_def f1_def z4_def z3_def z2_def z1_def set_rule_def tz_rules_zero_def
                  tz_rule_zero_def posix_rule_ok_def)
  finally show ?thesis by (simp add: tzset_parse_tz_def names)
qed

lemma posix_tz_roundtrip_witness:
  "posix_rule_ok (tz_std berlin) \<and> posix_rule_ok (tz_dst berlin) \<and>
   tzset_parse_tz (\<lambda>_. None :: unit option) (posix_tz berlin) = Tz_rules berlin"
proof -
  have h: "posix_rule_ok (tz_std berlin)" "posix_rule_ok (tz_dst berlin)"
    by (simp_all add: posix_rule_ok_def berlin_def compute_offset_def is_alpha_def less_eq_char_def)
  show ?thesis using h posix_tz_roundtrip [OF h, of "\<lambda>_. None :: unit option"] by simp
qed

lemma localtime_gmtoff_no_tzdata:
  "\<bar>localtime_gmtoff file_gmtoff (tzset_internal always (\<lambda>_. None :: 'f option) env tz_state_init) t\<bar> \<le> 93599"
proof -
  obtain z where "tz_zone (tzset_internal always (\<lambda>_. None :: 'f option) env tz_state_init) = Tz_rules z"
    "tz_rules_ok z" using tzset_no_tzdata by blast
  then show ?thesis by (simp add: localtime_gmtoff_def zone_gmtoff_bound)
qed

end
