(* ===== verification/Spec2Isabelle.thy ===== *)
theory Spec2Isabelle
  imports Server Tzset
begin

text \<open>
  \<^bold>\<open>A verification development of src/app.py (larsgson/py-web-hello).\<close>

  \<^bold>\<open>The program.\<close> src/app.py is a Flask application of two routes:
  \<^verbatim>\<open>GET /\<close> renders \<^verbatim>\<open>index.html\<close> (lines 6--8), and \<^verbatim>\<open>POST /update\<close>
  (lines 10--16) answers \<^verbatim>\<open>jsonify({'status': 'success', 'message': f'Data updated at
  {current_time}'})\<close>, where \<^verbatim>\<open>current_time = datetime.now().strftime("%Y-%m-%d %H:%M:%S")\<close>.
  Line 19 runs Werkzeug's threaded development server with \<^verbatim>\<open>debug=False\<close>. Nearly all
  of the behaviour lives in the code these lines call, and the development models that
  code from the sources of CPython, glibc, Flask and Werkzeug. Each definition is mapped to
  the line of src/app.py that calls it.

  \<^bold>\<open>Theories.\<close>
  \<^item> \<open>Prelude\<close>: Python exceptions as a datatype, so that a raise is an \<open>Inl\<close> of
    \<open>py_exc + 'a\<close>; C's truncating \<open>c_div\<close>/\<open>c_mod\<close>; decimal digits (\<open>show_nat\<close>);
    \<^verbatim>\<open>str.join\<close>; and lemmas on the lexicographic order of strings.
  \<^item> \<open>Calendar\<close>: glibc's \<^verbatim>\<open>__offtime\<close> (what \<^verbatim>\<open>localtime_r\<close> runs once
    the zone's offset is known), statement by statement. It has:
    \<^item> its two normalisation loops (\<open>norm_neg\<close>, \<open>norm_pos\<close>);
    \<^item> the year-guessing loop \<open>year_loop\<close>, a \<open>function\<close> whose termination measure
      is the number of days outside the guessed year;
    \<^item> the month search \<open>mon_search\<close>;
    \<^item> the \<^verbatim>\<open>EOVERFLOW\<close> check (\<open>fits_c_int\<close>).

    Reference definitions (\<open>tm_valid\<close>, \<open>days_from_civil\<close>, \<open>tm_seconds\<close>) say what
    a broken-down time denotes. The lemmas show that \<open>offtime\<close> returns a valid date
    denoting exactly its input (C33) and always returns within \<open>2^50\<close> seconds of the
    epoch (C34). They also show that dates are ordered by their day numbers.
  \<^item> \<open>Clock\<close>: CPython's \<^verbatim>\<open>datetime.now()\<close>. It covers:
    \<^item> \<open>clock_gettime\<close> as a \<open>timespec\<close> read from the environment;
    \<^item> the \<open>PyTime_t\<close> conversion with its int64 overflow check;
    \<^item> the floor split into seconds and microseconds;
    \<^item> \<open>localtime\<close> as \<open>offtime t (gmtoff t)\<close>, where the zone is a function from the
      UTC second to its offset;
    \<^item> the clamp of leap seconds to 59;
    \<^item> the \<open>MINYEAR\<close>/\<open>MAXYEAR\<close> check.

    The lemmas show that a returned \<open>datetime\<close> is valid and denotes the reading's second
    plus the zone offset (C35). \<open>datetime.now()\<close> does not raise for readings that fit
    int64 in zones whose offset is at most 25:59:59 (C36), and raises
    \<open>OverflowError\<close> beyond int64 (C37).
  \<^item> \<open>Zone\<close>: where that offset comes from when \<^verbatim>\<open>TZ\<close> holds a POSIX rule (glibc
    time/tzset.c):
    \<^item> the two \<^verbatim>\<open>tz_rule\<close>s \<^verbatim>\<open>tzset\<close> produces;
    \<^item> \<^verbatim>\<open>compute_offset\<close>, whose clamping bounds an explicit offset by 24:59:59;
    \<^item> \<^verbatim>\<open>compute_change\<close>, with the \<^verbatim>\<open>J\<close>, day-number and \<^verbatim>\<open>M\<close> rules,
      Zeller's congruence and the week loop;
    \<^item> \<^verbatim>\<open>__tz_compute\<close>'s choice of offset for the UTC year of the instant;
    \<^item> the second \<^verbatim>\<open>__offtime\<close> of \<^verbatim>\<open>__tz_convert\<close>.

    \<open>zone_gmtoff\<close> is the offset function that \<open>Clock\<close> reads. Zeller's congruence is
    proved for every year from 1 on. For the \<^verbatim>\<open>M\<close> rule, \<^verbatim>\<open>compute_change\<close> gives
    the n-th (or last) given weekday of the month for every year from 1970 (C8).
    \<^verbatim>\<open>__tz_convert\<close> refines \<open>localtime\<close> (C15). The offset is always the rule's
    standard or daylight saving one (C38). Before 1970 the rule's daylight saving time
    never starts (C39).
  \<^item> \<open>Strftime\<close>: \<^verbatim>\<open>datetime.strftime\<close> as an interpreter of the format string
    (directives \<^verbatim>\<open>%Y %m %d %H %M %S %%\<close>, with \<open>checktm\<close>'s range checks). Beside
    it are the spec's timestamp pattern as a parser, and a reference rendering of six
    fixed-width fields. The lemmas show:
    \<^item> the interpreter computes the reference rendering on every valid \<open>datetime\<close> (C31);
    \<^item> parsing and rendering are inverse;
    \<^item> timestamps compare as strings exactly as the times compare (C32).
  \<^item> \<open>Json\<close>: \<^verbatim>\<open>json.dumps(ensure_ascii=True, sort_keys=True, separators=(",", ":"))\<close>
    as Flask's default provider calls it, over a datatype of Python values. A decoder
    shows that the escaping loses nothing (C30), and the output is ASCII (C29).
  \<^item> \<open>Flask_App\<close>: the application object and its URL map, built by
    \<open>route\<close> as \<^verbatim>\<open>add_url_rule\<close> builds it (OPTIONS added, HEAD with GET). It also
    holds the views \<open>index\<close> and \<open>update_data\<close>, and Werkzeug's matcher. Then
    \<open>dispatch_request\<close> and \<open>handle\<close>: 404, 405 with \<open>Allow\<close>, the automatic OPTIONS
    answer, HEAD without a body, and an exception in a view as 500. A request is handled
    in an \<open>env\<close>: the zone's offset function and the clock reading. Claims C1, C2, C6,
    C7, C16, C17 and C24--C28 state the response to every kind of request.
  \<^item> \<open>Server\<close>: the threaded server of line 19 as an executable event system. Its
    state is a shared clock plus threads by connection number. Its events are:
    \<^item> \<open>Tick\<close>: the clock moves forward;
    \<^item> \<open>Accept\<close>: a new connection;
    \<^item> \<open>Respond\<close>: a thread reads the clock, runs \<open>handle\<close> and sends.

    \<open>server_run\<close> runs any sequence of events, so every interleaving of threads and clock
    is a run. An invariant proved over every run shows:
    \<^item> each response is the application's answer to that thread's own request at its
      own reading (C18);
    \<^item> a sent response never changes (C19);
    \<^item> a pending thread can always respond (C20);
    \<^item> sequential updates get ordered messages (C3).
  \<^item> \<open>Tzset\<close>: how \<^verbatim>\<open>localtime_r\<close> gets its zone on its first call (glibc
    time/tzset.c):
    \<^item> \<open>tzset_internal\<close>, with its state (\<^verbatim>\<open>is_initialized\<close>, \<^verbatim>\<open>old_tz\<close>,
      the zone selected): \<^verbatim>\<open>TZ\<close> unset, empty, with a leading colon, the zoneinfo
      file of that name (\<open>tzfile_read\<close> over a file system \<open>fs\<close> whose files are
      left abstract), UTC for \<^verbatim>\<open>/etc/localtime\<close> without a file;
    \<^item> \<open>tzset_parse_tz\<close>: \<^verbatim>\<open>__tzset_parse_tz\<close> with \<open>parse_tzname\<close>,
      \<open>parse_offset\<close>, \<open>parse_rule\<close>, and \<^verbatim>\<open>posixrules\<close> for a string without
      dates;
    \<^item> the C library's scanners: \<^verbatim>\<open>sscanf\<close>'s \<^verbatim>\<open>%hu\<close> and its formats, and
      \<^verbatim>\<open>strtoul\<close>.

    Each parse function returns its \<^verbatim>\<open>bool\<close> with the rules and the rest of the
    string, including what it stored before failing. The lemmas show:
    \<^item> Berlin's string parses to the rules \<open>Zone\<close> uses (C11);
    \<^item> every offset parsed is within 25:59:59 (C12);
    \<^item> rules written in POSIX form are read back exactly (C13), and \<^verbatim>\<open>%hu\<close> reads
      back a printed number modulo \<open>2^16\<close> (C40);
    \<^item> a name without an offset, such as \<^verbatim>\<open>Europe/Berlin\<close> without zoneinfo, gives
      UTC (C14);
    \<^item> \<^verbatim>\<open>TZ\<close> is read once per process (C21);
    \<^item> a rule that parses is in range (C22), while one that fails can stay half
      written (C23).
  \<^item> This theory: the properties across all components.
    \<^item> Two updates at least a second apart, with equal zone offsets, get strictly
      increasing messages (C4).
    \<^item> With Berlin's POSIX rule, two updates an hour apart across the end of daylight
      saving time get the same message (C5).
    \<^item> In every POSIX-rule zone, updates succeed until 2262 (C9).
    \<^item> On a system without zoneinfo files, updates succeed until 2262 whatever
      \<^verbatim>\<open>TZ\<close> holds (C10): the zone comes from \<open>Tzset\<close>, and every zone it
      parses is within the bound.

  \<^bold>\<open>Bounds and why they suffice.\<close>
  \<^item> Clock readings are unbounded integers. The int64 range of \<open>PyTime_t\<close> is written
    out, because CPython checks it: its overflow is C37.
  \<^item> \<open>offtime\<close> is proved total for \<open>|t + offset| < 2^50\<close>. This covers every reading
    that fits int64 nanoseconds (about \<open>2^33\<close> seconds) with any offset up to 25:59:59.
  \<^item> Zone offsets are bounded by 25:59:59 = 93599 s. An offset written in a \<^verbatim>\<open>TZ\<close>
    string is clamped by \<^verbatim>\<open>compute_offset\<close> to 24:59:59 = 89999 s, and daylight saving
    time without an offset of its own is an hour more (C12); real zones stay within
    \<open>\<plusminus>\<close>14 h.
  \<^item> \<^verbatim>\<open>sscanf\<close>'s \<^verbatim>\<open>%hu\<close> is modelled at its widths: \<^verbatim>\<open>strtoul\<close> into a
    \<open>64 word\<close> (saturating past \<^verbatim>\<open>ULONG_MAX\<close>), stored into a \<open>16 word\<close> (C40).
  \<^item> The \<^verbatim>\<open>M\<close>-rule theorem is stated for years from 1970. For earlier years
    glibc does not compute the rule's days (C39).

  \<^bold>\<open>Not modelled.\<close>
  \<^item> Jinja and the template file: \<^verbatim>\<open>templates/index.html\<close> is not in the repository,
    and Jinja is a library the code only calls. The template loader is a map and
    rendering is a parameter.
  \<^item> In \<^verbatim>\<open>tzset\<close>: the \<^verbatim>\<open>TZDIR\<close> variable and the setuid path checks (Python is
    not setuid and \<^verbatim>\<open>TZDIR\<close> is taken as unset), the interning of names (which fails
    only when memory runs out), and \<^verbatim>\<open>update_vars\<close> (\<^verbatim>\<open>tzname\<close>,
    \<^verbatim>\<open>timezone\<close>, \<^verbatim>\<open>daylight\<close>, which \<^verbatim>\<open>localtime_r\<close> does not read). The
    \<^verbatim>\<open>compute_change\<close> of \<open>Zone\<close> is glibc's for months 1--12; for the month 0 a
    failed rule can leave (C23) glibc reads before \<^verbatim>\<open>__mon_yday\<close>, and the model
    reads day 0 there.
  \<^item> Binary zoneinfo files: \<^verbatim>\<open>/etc/localtime\<close>, \<^verbatim>\<open>TZ=Area/City\<close> and their leap
    seconds are read by \<^verbatim>\<open>__tzfile_compute\<close>. A zone of that kind enters only as its
    offset function. A leap second's \<^verbatim>\<open>tm_sec = 60\<close> is clamped to 59 as CPython does.
  \<^item> The \<^verbatim>\<open>fold\<close> attribute of \<^verbatim>\<open>datetime\<close>: \<^verbatim>\<open>strftime\<close> does not read it.
  \<^item> From the server: sockets, HTTP parsing, the reloader and the debugger (off at line
    19). Static files are not modelled either: no \<^verbatim>\<open>static\<close> folder exists, so
    Flask registers no static route and \<^verbatim>\<open>/static/...\<close> answers 404 as any unknown
    path.
  \<^item> Characters are code points 0--255: JSON escapes beyond them never occur, since the
    strings serialised are ASCII.
\<close>

section \<open>Properties across the components\<close>

text \<open>
  C4. Two \<^verbatim>\<open>POST /update\<close> requests whose clock readings are at least a second apart,
  in a zone whose offset is the same at both readings, get different messages: the later
  message sorts after the earlier one.
\<close>

theorem update_messages_monotonic:
  assumes ns1: "pytime_from_timespec (env_clock e1) = Inr ns1"
    and ns2: "pytime_from_timespec (env_clock e2) = Inr ns2"
    and later: "ns1 + 1000000000 \<le> ns2"
    and off: "env_gmtoff e2 (ns2 div 1000000000) = env_gmtoff e1 (ns1 div 1000000000)"
    and day: "\<bar>env_gmtoff e1 (ns1 div 1000000000)\<bar> \<le> 93599"
  shows "\<exists>m1 m2.
     handle (app tmpl rnd) e1 \<lparr>req_method = POST, req_path = ''/update'', req_body = b1\<rparr> =
       jsonify (PyDict [(''status'', PyStr ''success''), (''message'', PyStr m1)]) \<and>
     handle (app tmpl rnd) e2 \<lparr>req_method = POST, req_path = ''/update'', req_body = b2\<rparr> =
       jsonify (PyDict [(''status'', PyStr ''success''), (''message'', PyStr m2)]) \<and>
     m1 < m2"
proof -
  have "(ns1 + 1000000000) div 1000000000 \<le> ns2 div 1000000000"
    using later by (intro zdiv_mono1) simp_all
  then have "ns1 div 1000000000 < ns2 div 1000000000" by simp
  then show ?thesis
    using update_messages_order [OF ns1 ns2 off day, where tmpl = tmpl and rnd = rnd and ba = b1 and bb = b2]
    by blast
qed

theorem update_messages_monotonic_witness:
  "\<exists>m1 m2.
     handle (app Map.empty id) (run_env 1700000000) upd_request =
       jsonify (PyDict [(''status'', PyStr ''success''), (''message'', PyStr m1)]) \<and>
     handle (app Map.empty id) (run_env 1700000001) upd_request =
       jsonify (PyDict [(''status'', PyStr ''success''), (''message'', PyStr m2)]) \<and>
     m1 < m2"
proof -
  have ns1: "pytime_from_timespec (env_clock (run_env 1700000000)) = Inr 1700000000000000000"
    and ns2: "pytime_from_timespec (env_clock (run_env 1700000001)) = Inr 1700000001000000000"
    by (simp_all add: run_env_def pytime_from_timespec_def fits_int64_def)
  have later: "(1700000000000000000::int) + 1000000000 \<le> 1700000001000000000" by simp
  have off: "env_gmtoff (run_env 1700000001) (1700000001000000000 div 1000000000) =
             env_gmtoff (run_env 1700000000) (1700000000000000000 div 1000000000)"
    and day: "\<bar>env_gmtoff (run_env 1700000000) (1700000000000000000 div 1000000000)\<bar> \<le> 93599"
    by (simp_all add: run_env_def)
  show ?thesis
    using update_messages_monotonic [OF ns1 ns2 later off day] by (simp add: upd_request_def)
qed




text \<open>
  C10. On a system without zoneinfo files, whatever \<^verbatim>\<open>TZ\<close> holds (unset, empty,
  a zone name, or any string), the zone \<^verbatim>\<open>localtime_r\<close> sets up on its first call keeps
  every offset within 25:59:59, so \<^verbatim>\<open>POST /update\<close> succeeds for every clock reading
  that fits a \<^verbatim>\<open>PyTime_t\<close>, and its message shows the reading shifted by that offset.
\<close>

theorem update_succeeds_for_any_tz:
  assumes "env_gmtoff e = localtime_gmtoff file_gmtoff (tzset_internal False (\<lambda>_. None) tz tz_state_init)"
    and "pytime_from_timespec (env_clock e) = Inr ns"
  shows "\<exists>now. datetime_valid now \<and> dt_seconds now = ns div 1000000000 + env_gmtoff e (ns div 1000000000) \<and>
     handle (app tmpl rnd) e \<lparr>req_method = POST, req_path = ''/update'', req_body = b\<rparr> =
       jsonify (PyDict [(''status'', PyStr ''success''),
                        (''message'', PyStr (update_message (render_fields (fields_of now))))])"
proof -
  have "\<bar>env_gmtoff e (ns div 1000000000)\<bar> \<le> 93599"
    using localtime_gmtoff_no_tzdata assms(1) by simp
  then show ?thesis using update_handled [OF assms(2)] by blast
qed

lemma update_succeeds_for_any_tz_witness:
  "env_gmtoff \<lparr>env_gmtoff = localtime_gmtoff (\<lambda>_ _. 0) (tzset_internal False (\<lambda>_. None :: unit option)
                  (Some ''Europe/Berlin'') tz_state_init), env_clock = \<lparr>tv_sec = 1700000000, tv_nsec = 0\<rparr>\<rparr> =
     localtime_gmtoff (\<lambda>_ _. 0) (tzset_internal False (\<lambda>_. None :: unit option) (Some ''Europe/Berlin'') tz_state_init) \<and>
   pytime_from_timespec \<lparr>tv_sec = 1700000000, tv_nsec = 0\<rparr> = Inr 1700000000000000000 \<and>
   (\<exists>now. datetime_valid now \<and>
     dt_seconds now = 1700000000 + localtime_gmtoff (\<lambda>_ _. 0) (tzset_internal False (\<lambda>_. None :: unit option)
                        (Some ''Europe/Berlin'') tz_state_init) 1700000000 \<and>
     handle (app Map.empty id) \<lparr>env_gmtoff = localtime_gmtoff (\<lambda>_ _. 0) (tzset_internal False (\<lambda>_. None :: unit option)
                  (Some ''Europe/Berlin'') tz_state_init), env_clock = \<lparr>tv_sec = 1700000000, tv_nsec = 0\<rparr>\<rparr>
       \<lparr>req_method = POST, req_path = ''/update'', req_body = []\<rparr> =
       jsonify (PyDict [(''status'', PyStr ''success''),
                        (''message'', PyStr (update_message (render_fields (fields_of now))))]))"
proof -
  let ?e = "\<lparr>env_gmtoff = localtime_gmtoff (\<lambda>_ _. 0) (tzset_internal False (\<lambda>_. None :: unit option)
                  (Some ''Europe/Berlin'') tz_state_init), env_clock = \<lparr>tv_sec = 1700000000, tv_nsec = 0\<rparr>\<rparr>"
  have g: "env_gmtoff ?e = localtime_gmtoff (\<lambda>_ _. 0) (tzset_internal False (\<lambda>_. None :: unit option)
                  (Some ''Europe/Berlin'') tz_state_init)" by simp
  have p: "pytime_from_timespec (env_clock ?e) = Inr 1700000000000000000"
    by (simp add: pytime_from_timespec_def fits_int64_def)
  show ?thesis
    using update_succeeds_for_any_tz [OF g p, where tmpl = "Map.empty" and rnd = id and b = "[]"] p by simp
qed

end
